(* ===== verification/GoFloat.thy ===== *)
theory GoFloat
  imports Complex_Main Prelude
begin

text \<open>
  Go's \<open>float64\<close>: IEEE 754 binary64 with round-to-nearest-even. A finite value is the
  rational it denotes; every operation computes the exact rational result and rounds it.
  The sign of zero is not kept: no operation of the modelled code can observe it (it never
  divides by a zero it has not tested).
\<close>

datatype f64 = FNaN | FInf bool | FFin rat

text \<open>\<open>FInf True\<close> is minus infinity.\<close>

function bit_length :: "int \<Rightarrow> int" where
  "bit_length n = (if n \<le> 0 then 0 else 1 + bit_length (n div 2))"
  by pat_completeness auto
termination
  by (relation "measure nat") auto

declare bit_length.simps [simp del]

definition pow2 :: "int \<Rightarrow> rat" where
  "pow2 k = (if 0 \<le> k then 2 ^ nat k else 1 / 2 ^ nat (- k))"

lemma pow2_pos: "0 < pow2 k"
  by (simp add: pow2_def)

text \<open>The binary exponent \<open>e\<close> with \<open>2 ^ e \<le> r < 2 ^ (e + 1)\<close>, from numerator and denominator.\<close>

definition binary_exponent :: "rat \<Rightarrow> int" where
  "binary_exponent r =
     (let (n, d) = quotient_of r;
          e = bit_length n - bit_length d
      in if r < pow2 e then e - 1 else e)"

definition round_half_even :: "rat \<Rightarrow> int" where
  "round_half_even r =
     (let f = \<lfloor>r\<rfloor>; d = r - of_int f
      in if d < 1 / 2 then f else if 1 / 2 < d then f + 1 else if even f then f else f + 1)"

text \<open>
  Rounding: 53 significant bits, the least exponent of a last place is -1074 (subnormals),
  and a magnitude of \<open>2 ^ 1024\<close> or more after rounding is an infinity.
\<close>

definition round_f64 :: "rat \<Rightarrow> f64" where
  "round_f64 r =
     (if r = 0 then FFin 0
      else let a = \<bar>r\<bar>; k = max (binary_exponent a - 52) (- 1074);
               m = of_int (round_half_even (a / pow2 k)) * pow2 k
           in if 1024 \<le> binary_exponent m then FInf (r < 0)
              else FFin (if r < 0 then - m else m))"

fun f_neg :: "f64 \<Rightarrow> f64" where
  "f_neg FNaN = FNaN"
| "f_neg (FInf s) = FInf (\<not> s)"
| "f_neg (FFin r) = FFin (- r)"

fun f_add :: "f64 \<Rightarrow> f64 \<Rightarrow> f64" where
  "f_add (FFin a) (FFin b) = round_f64 (a + b)"
| "f_add (FInf s) (FInf t) = (if s = t then FInf s else FNaN)"
| "f_add (FInf s) (FFin b) = FInf s"
| "f_add (FFin a) (FInf t) = FInf t"
| "f_add _ _ = FNaN"

definition f_sub :: "f64 \<Rightarrow> f64 \<Rightarrow> f64" where
  "f_sub a b = f_add a (f_neg b)"

fun f_mul :: "f64 \<Rightarrow> f64 \<Rightarrow> f64" where
  "f_mul (FFin a) (FFin b) = round_f64 (a * b)"
| "f_mul (FInf s) (FInf t) = FInf (s \<noteq> t)"
| "f_mul (FInf s) (FFin b) = (if b = 0 then FNaN else FInf (s \<noteq> (b < 0)))"
| "f_mul (FFin a) (FInf t) = (if a = 0 then FNaN else FInf (t \<noteq> (a < 0)))"
| "f_mul _ _ = FNaN"

text \<open>Division; a zero divisor counts as positive zero.\<close>

fun f_div :: "f64 \<Rightarrow> f64 \<Rightarrow> f64" where
  "f_div (FFin a) (FFin b) =
     (if b = 0 then (if a = 0 then FNaN else FInf (a < 0)) else round_f64 (a / b))"
| "f_div (FInf s) (FFin b) = FInf (s \<noteq> (b < 0))"
| "f_div (FFin a) (FInf t) = FFin 0"
| "f_div _ _ = FNaN"

text \<open>Comparisons: anything with a NaN is false.\<close>

fun f_less :: "f64 \<Rightarrow> f64 \<Rightarrow> bool" where
  "f_less (FFin a) (FFin b) = (a < b)"
| "f_less (FInf s) (FInf t) = (s \<and> \<not> t)"
| "f_less (FInf s) (FFin b) = s"
| "f_less (FFin a) (FInf t) = (\<not> t)"
| "f_less _ _ = False"

fun f_eq :: "f64 \<Rightarrow> f64 \<Rightarrow> bool" where
  "f_eq (FFin a) (FFin b) = (a = b)"
| "f_eq (FInf s) (FInf t) = (s = t)"
| "f_eq _ _ = False"

definition f_le :: "f64 \<Rightarrow> f64 \<Rightarrow> bool" where
  "f_le a b \<longleftrightarrow> f_less a b \<or> f_eq a b"

text \<open>The builtin \<open>min\<close>: a NaN argument gives NaN.\<close>

definition f_min :: "f64 \<Rightarrow> f64 \<Rightarrow> f64" where
  "f_min a b = (if a = FNaN \<or> b = FNaN then FNaN else if f_less b a then b else a)"

fun f_floor :: "f64 \<Rightarrow> f64" where
  "f_floor (FFin r) = FFin (of_int \<lfloor>r\<rfloor>)"
| "f_floor x = x"

definition f_of_int :: "int \<Rightarrow> f64" where
  "f_of_int i = round_f64 (of_int i)"

text \<open>
  Conversion to \<open>int\<close> truncates towards zero. Go leaves a value outside the range to the
  target; on amd64 it is the least integer.
\<close>

fun f_to_int :: "f64 \<Rightarrow> int" where
  "f_to_int (FFin r) =
     (let t = (if r < 0 then \<lceil>r\<rceil> else \<lfloor>r\<rfloor>) in if in_int64 t then t else - (2 ^ 63))"
| "f_to_int _ = - (2 ^ 63)"

text \<open>\<open>math.IsNaN\<close> and \<open>math.IsInf\<close> both false.\<close>

fun f_finite :: "f64 \<Rightarrow> bool" where
  "f_finite (FFin r) = True"
| "f_finite _ = False"

abbreviation f_zero :: f64 where
  "f_zero \<equiv> FFin 0"

lemma f_min_less: "f_less c (f_min a b) \<Longrightarrow> f_less c a \<and> f_less c b"
  by (cases a; cases b; cases c) (auto simp: f_min_def split: if_splits)

lemma f_min_cases: "f_min a b \<in> {a, b, FNaN}"
  by (auto simp: f_min_def)

lemma f_to_int_pos: "0 < f_to_int x \<Longrightarrow> \<exists>r. x = FFin r \<and> 1 \<le> r"
proof (cases x)
  case (FFin r)
  assume "0 < f_to_int x"
  with FFin have "1 \<le> r"
    by (auto simp: Let_def split: if_splits) (linarith+)?
  with FFin show ?thesis by blast
qed auto

end
