(* ===== verification/GoJson.thy ===== *)
theory GoJson
  imports Prelude
begin

text \<open>
  JSON as \<open>encoding/json\<close> reads it into \<open>any\<close> with \<open>UseNumber\<close>, raw messages, and the
  encoder for the strings, numbers and arrays the code feeds to its hash.
\<close>

datatype json =
    JNull
  | JBool bool
  | JNum string
  | JStr string
  | JArr "json list"
  | JObj "json gomap"

text \<open>
  A \<open>json.RawMessage\<close>: empty, bytes that are not JSON, or the value the bytes denote. An
  object keeps the last of duplicate keys, which is how the decoder fills a Go map.
\<close>

datatype raw_message = RawEmpty | RawInvalid string | RawJson json

fun raw_value :: "raw_message \<Rightarrow> json" where
  "raw_value (RawJson j) = j"
| "raw_value _ = JNull"

section \<open>UTF-8\<close>

abbreviation byte :: "char \<Rightarrow> nat" where
  "byte c \<equiv> of_char c"

definition cont_byte :: "char \<Rightarrow> bool" where
  "cont_byte c \<longleftrightarrow> 128 \<le> byte c \<and> byte c \<le> 191"

text \<open>
  The length of the well-formed encoding a string starts with, 0 when its first byte starts
  none (\<open>utf8.DecodeRune\<close> then reports the error rune with size 1).
\<close>

fun utf8_len :: "string \<Rightarrow> nat" where
  "utf8_len [] = 0"
| "utf8_len (a # s) =
     (let x = byte a in
      if x < 128 then 1
      else if 194 \<le> x \<and> x \<le> 223 then
        (case s of b # _ \<Rightarrow> if cont_byte b then 2 else 0 | _ \<Rightarrow> 0)
      else if 224 \<le> x \<and> x \<le> 239 then
        (case s of b # c # _ \<Rightarrow>
           if cont_byte b \<and> cont_byte c \<and> (x = 224 \<longrightarrow> 160 \<le> byte b) \<and> (x = 237 \<longrightarrow> byte b \<le> 159)
           then 3 else 0
         | _ \<Rightarrow> 0)
      else if 240 \<le> x \<and> x \<le> 244 then
        (case s of b # c # d # _ \<Rightarrow>
           if cont_byte b \<and> cont_byte c \<and> cont_byte d \<and>
              (x = 240 \<longrightarrow> 144 \<le> byte b) \<and> (x = 244 \<longrightarrow> byte b \<le> 143)
           then 4 else 0
         | _ \<Rightarrow> 0)
      else 0)"

lemma utf8_len_le: "utf8_len s \<le> length s"
  by (induction s rule: utf8_len.induct) (auto simp: Let_def split: list.splits)

text \<open>\<open>utf8.ValidString\<close>.\<close>

function utf8_valid :: "string \<Rightarrow> bool" where
  "utf8_valid s =
     (if s = [] then True else if utf8_len s = 0 then False else utf8_valid (drop (utf8_len s) s))"
  by pat_completeness auto
termination
  by (relation "measure length") auto

declare utf8_valid.simps [simp del]

section \<open>Encoding\<close>

definition hex_digit :: "nat \<Rightarrow> char" where
  "hex_digit n = (if n < 10 then char_of (48 + n) else char_of (87 + n))"

definition escape_ascii :: "char \<Rightarrow> string" where
  "escape_ascii c =
     (let x = byte c in
      if x = 34 \<or> x = 92 then [CHR 0x5C, c]
      else if x = 8 then [CHR 0x5C, CHR ''b'']
      else if x = 12 then [CHR 0x5C, CHR ''f'']
      else if x = 10 then [CHR 0x5C, CHR ''n'']
      else if x = 13 then [CHR 0x5C, CHR ''r'']
      else if x = 9 then [CHR 0x5C, CHR ''t'']
      else if x < 32 \<or> x = 60 \<or> x = 62 \<or> x = 38
        then [CHR 0x5C] @ ''u00'' @ [hex_digit (x div 16), hex_digit (x mod 16)]
      else [c])"

text \<open>\<open>json.Marshal\<close> of a string, HTML escaping on, without the quotes.\<close>

function json_chars :: "string \<Rightarrow> string" where
  "json_chars [] = []"
| "json_chars (c # s) =
     (if byte c < 128 then escape_ascii c @ json_chars s
      else let n = utf8_len (c # s) in
        if n \<le> 1 then [CHR 0x5C] @ ''ufffd'' @ json_chars s
        else if take n (c # s) = [CHR 0xE2, CHR 0x80, CHR 0xA8]
          then [CHR 0x5C] @ ''u2028'' @ json_chars (drop n (c # s))
        else if take n (c # s) = [CHR 0xE2, CHR 0x80, CHR 0xA9]
          then [CHR 0x5C] @ ''u2029'' @ json_chars (drop n (c # s))
        else take n (c # s) @ json_chars (drop n (c # s)))"
  by pat_completeness auto
termination
  by (relation "measure length") (auto simp: Let_def)

declare json_chars.simps(2) [simp del]

definition json_string :: "string \<Rightarrow> string" where
  "json_string s = [CHR 0x22] @ json_chars s @ [CHR 0x22]"

definition json_array :: "string list \<Rightarrow> string" where
  "json_array parts = ''['' @ join_with '','' parts @ '']''"

text \<open>Elements of a heterogeneous \<open>[]any\<close>.\<close>

datatype json_scalar = SStr string | SInt int

fun scalar_json :: "json_scalar \<Rightarrow> string" where
  "scalar_json (SStr s) = json_string s"
| "scalar_json (SInt i) = int_decimal i"

section \<open>Partial comparison of records\<close>

text \<open>
  Model of \<open>recordObject\<close> (internal/core/work/goal/evidence.go): a raw message that
  decodes into a nonempty object.
\<close>

fun recordObject :: "raw_message \<Rightarrow> bool" where
  "recordObject (RawJson (JObj fields)) = (fields \<noteq> [])"
| "recordObject _ = False"

lemma size_field_less: "kv \<in> set fields \<Longrightarrow> size (snd kv) < size (JObj fields)"
proof -
  assume "kv \<in> set fields"
  then have "size_prod (\<lambda>_. 0) size kv < Suc (size_list (size_prod (\<lambda>_. 0) size) fields)"
    by (induction fields) auto
  then show ?thesis by (cases kv) auto
qed

text \<open>
  Model of \<open>containsRecord\<close>: every field the expectation names is present in the observed
  record and contains its value; other values must be equal.
\<close>

function containsRecord :: "json \<Rightarrow> json \<Rightarrow> bool" where
  "containsRecord actual (JObj fields) =
     (case actual of
        JObj got \<Rightarrow>
          (\<forall>kv \<in> set fields.
             case map_of got (fst kv) of
               None \<Rightarrow> False
             | Some read \<Rightarrow> containsRecord read (snd kv))
      | _ \<Rightarrow> False)"
| "containsRecord actual JNull = (actual = JNull)"
| "containsRecord actual (JBool b) = (actual = JBool b)"
| "containsRecord actual (JNum n) = (actual = JNum n)"
| "containsRecord actual (JStr s) = (actual = JStr s)"
| "containsRecord actual (JArr js) = (actual = JArr js)"
  by pat_completeness auto

termination containsRecord
  by (relation "measure (\<lambda>(a, e). size e)") (auto dest: size_field_less)

text \<open>Every sub-record of a record, at every depth: the observed record contains itself.\<close>

fun distinct_keys :: "json \<Rightarrow> bool" where
  "distinct_keys (JObj fields) =
     (distinct (map fst fields) \<and> (\<forall>kv \<in> set fields. distinct_keys (snd kv)))"
| "distinct_keys (JArr js) = (\<forall>j \<in> set js. distinct_keys j)"
| "distinct_keys _ = True"

lemma containsRecord_refl: "distinct_keys j \<Longrightarrow> containsRecord j j"
proof (induction j)
  case (JObj fields)
  then show ?case
    by (auto simp: split_def)
qed auto

lemma containsRecord_trans:
  "containsRecord b c \<Longrightarrow> containsRecord a b \<Longrightarrow> containsRecord a c"
proof (induction b c arbitrary: a rule: containsRecord.induct)
  case (1 b fields)
  from "1.prems"(1) obtain got where b: "b = JObj got"
    and sub: "\<And>kv. kv \<in> set fields \<Longrightarrow> \<exists>r. map_of got (fst kv) = Some r \<and> containsRecord r (snd kv)"
    by (cases b) (auto split: option.splits)
  from "1.prems"(2) b obtain obs where a: "a = JObj obs"
    and sup: "\<And>kv. kv \<in> set got \<Longrightarrow> \<exists>r. map_of obs (fst kv) = Some r \<and> containsRecord r (snd kv)"
    by (cases a) (auto split: option.splits)
  have "\<exists>r. map_of obs (fst kv) = Some r \<and> containsRecord r (snd kv)" if kv: "kv \<in> set fields" for kv
  proof -
    obtain r where r: "map_of got (fst kv) = Some r" "containsRecord r (snd kv)"
      using sub [OF kv] by blast
    then obtain r' where r': "map_of obs (fst kv) = Some r'" "containsRecord r' r"
      using sup [of "(fst kv, r)"] by (auto dest: map_of_SomeD)
    have "containsRecord r' (snd kv)"
      using "1.IH" [OF b kv r(1) r(2) r'(2)] .
    with r' show ?thesis by blast
  qed
  then show ?case by (fastforce simp: a split: option.splits)
qed auto

end
