(* ===== verification/GoalTypes.thy ===== *)
theory GoalTypes
  imports GoFloat GoJson
begin

text \<open>
  The data of the goal engine (internal/core/work/goal): goals, their steps, the actions
  derived for them, the hosts that carry them, the observations that settle them, and the
  plan one derivation pass returns. Field names carry a prefix per record (\<open>g_\<close> goal,
  \<open>t_\<close> task, \<open>a_\<close> action, \<open>n_\<close> node, \<open>o_\<close> observation, \<open>w_\<close> wait). Go's open string types
  are datatypes with one constructor per declared constant and one for any other string;
  \<open>*T\<close> is \<open>T option\<close>; a nil and an empty slice are both \<open>[]\<close>.
\<close>

section \<open>Enumerations\<close>

datatype task_stage =
    TaskReady | TaskBuilding | TaskDelivered | TaskConflicted | TaskWorkerLost
  | TaskNoReceipt | TaskMerged | TaskQAFailed | TaskDone | TaskNeedsPerson | StageOther string

datatype goal_state =
    GoalNew | GoalDefining | GoalRunning | GoalWaiting | GoalChecking | GoalDone
  | GoalStopped | GoalBlocked | GoalStateOther string

datatype action_kind =
    Assign | Resume | InspectPR | Merge | RunQA | RepairConflict | RepairQA | Deploy
  | Verify | Observe | Decide | PlanGoal | ReadSource | CheckCriterion | ContinueWorker
  | KindOther string

datatype action_state =
    Queued | AwaitingAuthorization | Claimed | Running | Unknown | NeedsPerson | Finished
  | ActionStateOther string

datatype step_kind = StepUnset | TaskStep | BackgroundStep | WaitStep | StepKindOther string

datatype evidence_kind =
    ReadEvidence | RunEvidence | CitationEvidence | JudgmentEvidence | EvidenceOther string

datatype outcome =
    OutcomeRunning | OutcomeSucceeded | OutcomeFailed | OutcomeConflict | OutcomeUnknown
  | OutcomeNeedsPerson | OutcomeQuota | OutcomeNoReceipt | OutcomePartial | OutcomeOther string

datatype goal_error = ErrInvalid | ErrConflict | ErrNotFound | ErrNoChange

fun kind_text :: "action_kind \<Rightarrow> string" where
  "kind_text Assign = ''assign''"
| "kind_text Resume = ''resume''"
| "kind_text InspectPR = ''inspect_pr''"
| "kind_text Merge = ''merge''"
| "kind_text RunQA = ''qa''"
| "kind_text RepairConflict = ''repair_conflict''"
| "kind_text RepairQA = ''repair_qa''"
| "kind_text Deploy = ''deploy''"
| "kind_text Verify = ''verify''"
| "kind_text Observe = ''observe''"
| "kind_text Decide = ''decide''"
| "kind_text PlanGoal = ''plan_goal''"
| "kind_text ReadSource = ''read_source''"
| "kind_text CheckCriterion = ''check_criterion''"
| "kind_text ContinueWorker = ''continue_worker''"
| "kind_text (KindOther s) = s"

section \<open>Resources, hosts, proofs\<close>

record resources =
  r_cpu :: f64
  r_memory_mb :: int
  r_disk_mb :: int

definition zero_resources :: resources where
  "zero_resources = \<lparr>r_cpu = f_zero, r_memory_mb = 0, r_disk_mb = 0\<rparr>"

definition resources_eq :: "resources \<Rightarrow> resources \<Rightarrow> bool" where
  "resources_eq a b \<longleftrightarrow>
     f_eq (r_cpu a) (r_cpu b) \<and> r_memory_mb a = r_memory_mb b \<and> r_disk_mb a = r_disk_mb b"

record node =
  n_quota_reset :: "int gomap"
  n_id :: string
  n_connected :: bool
  n_yielding :: bool
  n_observed_at :: int
  n_cpu_cores :: f64
  n_cpu_limit :: f64
  n_load_cpu :: f64
  n_available_memory_mb :: int
  n_memory_limit_mb :: int
  n_available_disk_mb :: int
  n_disk_limit_mb :: int
  n_for_person :: bool
  n_workers :: "bool gomap"
  n_observed_actions :: "string list"

record evidence_proof =
  p_revision :: string
  p_ref :: string
  p_passed :: bool

definition no_proof :: evidence_proof where
  "no_proof = \<lparr>p_revision = [], p_ref = [], p_passed = False\<rparr>"

text \<open>Model of \<open>Proof.proves\<close> and \<open>Proof.fails\<close>.\<close>

definition proves :: "evidence_proof \<Rightarrow> string \<Rightarrow> bool" where
  "proves p revision \<longleftrightarrow>
     revision \<noteq> [] \<and> p_revision p = revision \<and> \<not> blank (p_ref p) \<and> p_passed p"

definition fails :: "evidence_proof \<Rightarrow> string \<Rightarrow> bool" where
  "fails p revision \<longleftrightarrow>
     revision \<noteq> [] \<and> p_revision p = revision \<and> \<not> blank (p_ref p) \<and> \<not> p_passed p"

record pr_state =
  pr_head :: string
  pr_checks :: evidence_proof
  pr_review :: evidence_proof
  pr_verified :: evidence_proof
  pr_open_p0p1 :: int
  pr_mergeable :: bool
  pr_observed_at :: int

definition no_pr :: pr_state where
  "no_pr = \<lparr>pr_head = [], pr_checks = no_proof, pr_review = no_proof, pr_verified = no_proof,
            pr_open_p0p1 = 0, pr_mergeable = False, pr_observed_at = 0\<rparr>"

section \<open>Steps and tasks\<close>

record background_brief =
  b_goal :: string
  b_scope :: string
  b_not_touch :: string
  b_done :: string
  b_checks :: "(string \<times> string) list"
  b_result :: string
  b_allow :: "string list"
  b_follow_of :: string
  b_refs :: "(string \<times> int) list"

record step_wait =
  sw_at :: int
  sw_record_id :: string
  sw_revision :: string
  sw_deadline :: int

record research_open =
  ro_question :: string
  ro_reason :: string

record task =
  t_kind :: step_kind
  t_background :: "background_brief option"
  t_wait :: "step_wait option"
  t_result :: evidence_proof
  t_name :: string
  t_session :: string
  t_pr_generation :: int
  t_continuations :: int
  t_thread_handle :: string
  t_repairs :: string
  t_repaired_by :: string
  t_result_revision :: string
  t_repair_asked :: bool
  t_id :: string
  t_done :: string
  t_repository :: string
  t_base :: string
  t_area :: string
  t_worker :: string
  t_resources :: resources
  t_depends_on :: "string list"
  t_stage :: task_stage
  t_attempt :: int
  t_recoveries :: int
  t_effects_settled :: bool
  t_conflicts :: int
  t_qa_repairs :: int
  t_node_id :: string
  t_head :: string
  t_pr :: pr_state
  t_merge :: evidence_proof
  t_qa :: evidence_proof
  t_research_follow_up :: "background_brief option"
  t_research_gap :: "string list"
  t_research_open :: "research_open list"

text \<open>The zero \<open>Task{}\<close>.\<close>

definition zero_task :: task where
  "zero_task =
     \<lparr>t_kind = StepUnset, t_background = None, t_wait = None, t_result = no_proof, t_name = [],
      t_session = [], t_pr_generation = 0, t_continuations = 0, t_thread_handle = [],
      t_repairs = [], t_repaired_by = [], t_result_revision = [], t_repair_asked = False,
      t_id = [], t_done = [], t_repository = [], t_base = [], t_area = [], t_worker = [],
      t_resources = zero_resources, t_depends_on = [], t_stage = StageOther [], t_attempt = 0,
      t_recoveries = 0, t_effects_settled = False, t_conflicts = 0, t_qa_repairs = 0,
      t_node_id = [], t_head = [], t_pr = no_pr, t_merge = no_proof, t_qa = no_proof,
      t_research_follow_up = None, t_research_gap = [], t_research_open = []\<rparr>"

record step =
  s_kind :: step_kind
  s_background :: "background_brief option"
  s_wait :: "step_wait option"
  s_id :: string
  s_name :: string
  s_done :: string
  s_repository :: string
  s_base :: string
  s_area :: string
  s_worker :: string
  s_resources :: resources
  s_depends_on :: "string list"

record step_graph =
  sg_goal_id :: string
  sg_revision :: int
  sg_steps :: "step list"

section \<open>Criteria and evidence\<close>

record goal_scope =
  sc_repositories :: "string list"
  sc_includes :: string
  sc_excludes :: string

record goal_decision =
  d_statement :: string
  d_message_id :: string

record criterion_check =
  ck_kind :: evidence_kind
  ck_method :: string
  ck_target :: string
  ck_task_id :: string
  ck_rubric :: string
  ck_expected :: raw_message

record criterion =
  c_id :: string
  c_statement :: string
  c_check :: criterion_check

record evidence_read =
  er_target :: string
  er_revision :: string
  er_content :: string

record collected_evidence =
  ce_record :: raw_message
  ce_output :: string
  ce_reads :: "evidence_read list"
  ce_rubric :: string
  ce_judgment :: string

record criterion_evidence =
  e_criterion :: string
  e_goal_revision :: int
  e_round :: int
  e_target :: string
  e_revision :: string
  e_kind :: evidence_kind
  e_ref :: string
  e_passed :: bool
  e_collected :: "collected_evidence option"

section \<open>Waits and goals\<close>

record wait =
  w_goal_id :: string
  w_task_id :: string
  w_reason :: string
  w_wake :: string
  w_until :: int
  w_recorded :: bool
  w_recommendation :: string
  w_draft :: string
  w_todo_id :: string
  w_who :: string
  w_since :: string
  w_next_check :: string
  w_source :: string
  w_pending_signal :: string
  w_deadline_read :: bool
  w_linked :: bool
  w_armed :: bool

record cleared_wait =
  cw_todo_id :: string
  cw_who :: string
  cw_since :: string
  cw_next_check :: string

record goal =
  g_step_graph :: "step_graph option"
  g_conversation :: string
  g_turn :: string
  g_record_id :: string
  g_record_revision :: string
  g_definition_pending :: bool
  g_definition_text :: string
  g_assessed_failure :: string
  g_scope :: goal_scope
  g_assumptions :: "string list"
  g_asks :: "string list"
  g_person_tasks :: "string list"
  g_decisions :: "goal_decision list"
  g_criteria :: "criterion list"
  g_checks :: "criterion_evidence list"
  g_check_round :: int
  g_state :: goal_state
  g_revision :: int
  g_rank :: int
  g_paused :: bool
  g_queue_place :: int
  g_queue_reason :: string
  g_manager_turns :: int
  g_attention_id :: string
  g_blocked_reason :: string
  g_decision_row :: string
  g_created_at :: int
  g_deadline :: int
  g_id :: string
  g_person :: string
  g_agent :: string
  g_summary :: string
  g_done :: string
  g_service_target :: string
  g_service_repository :: string
  g_no_service_reason :: string
  g_tasks :: "task list"
  g_target_revision :: string
  g_merged_revisions :: "string gomap"
  g_deployment :: evidence_proof
  g_verification :: evidence_proof
  g_waits :: "wait list"
  g_clear_todos :: "cleared_wait list"
  g_evidence :: "evidence_proof list"

section \<open>Observations and actions\<close>

record research_partial =
  rp_run_id :: string
  rp_missing :: "string list"
  rp_reason :: string
  rp_open :: "research_open list"
  rp_unresolved :: "string list"
  rp_material_id :: string
  rp_material_revision :: int

record observation =
  o_quota_reset :: int
  o_criterion :: "criterion_evidence option"
  o_tasks :: "task list"
  o_wait :: "wait option"
  o_waits :: "wait list"
  o_decision :: string
  o_source_open :: "bool option"
  o_status :: outcome
  o_handle :: string
  o_head :: string
  o_proof :: evidence_proof
  o_pr :: pr_state
  o_effects_settled :: bool
  o_code :: string
  o_partial :: "research_partial option"

definition zero_observation :: observation where
  "zero_observation =
     \<lparr>o_quota_reset = 0, o_criterion = None, o_tasks = [], o_wait = None, o_waits = [],
      o_decision = [], o_source_open = None, o_status = OutcomeOther [], o_handle = [],
      o_head = [], o_proof = no_proof, o_pr = no_pr, o_effects_settled = False, o_code = [],
      o_partial = None\<rparr>"

record input_version =
  iv_goal_revision :: int
  iv_record_revision :: string
  iv_pr_generations :: "int gomap"
  iv_target_revision :: string
  iv_check_round :: int

text \<open>
  A receipt is the JSON of the observation that settled the action, written by the engine
  itself; \<open>None\<close> is the empty message. Two receipts have equal bytes exactly when they hold
  the same observation.
\<close>

record action =
  a_step_kind :: step_kind
  a_record_revision :: string
  a_input_version :: "input_version option"
  a_superseded :: bool
  a_retirement_reconciled :: bool
  a_observe_action_id :: string
  a_signal :: string
  a_read_cause :: string
  a_wait_source :: string
  a_failure_key :: string
  a_criterion_id :: string
  a_check :: "criterion_check option"
  a_goal_revision :: int
  a_check_round :: int
  a_id :: string
  a_goal_id :: string
  a_task_id :: string
  a_kind :: action_kind
  a_attempt :: int
  a_node_id :: string
  a_revision :: string
  a_resources :: resources
  a_state :: action_state
  a_epoch :: int
  a_handle :: string
  a_deadline :: int
  a_sequence :: int
  a_observed_at :: int
  a_observer_epoch :: int
  a_receipt :: "observation option"
  a_open_criteria :: "string list"

definition zero_action :: action where
  "zero_action =
     \<lparr>a_step_kind = StepUnset, a_record_revision = [], a_input_version = None,
      a_superseded = False, a_retirement_reconciled = False, a_observe_action_id = [],
      a_signal = [], a_read_cause = [], a_wait_source = [], a_failure_key = [],
      a_criterion_id = [], a_check = None, a_goal_revision = 0, a_check_round = 0, a_id = [],
      a_goal_id = [], a_task_id = [], a_kind = KindOther [], a_attempt = 0, a_node_id = [],
      a_revision = [], a_resources = zero_resources, a_state = ActionStateOther [],
      a_epoch = 0, a_handle = [], a_deadline = 0, a_sequence = 0, a_observed_at = 0,
      a_observer_epoch = 0, a_receipt = None, a_open_criteria = []\<rparr>"

section \<open>State and plan\<close>

record run_limit =
  rl_automatic :: bool
  rl_value :: int

definition no_limit :: run_limit where
  "no_limit = \<lparr>rl_automatic = False, rl_value = 0\<rparr>"

record limit_state =
  ls_reason :: string
  ls_current :: int
  ls_automatic :: bool

record run_limit_record =
  lr_choice :: run_limit
  lr_current :: int
  lr_reason :: string

record queue_place =
  q_goal_id :: string
  q_reason :: string
  q_place :: int

record frontier_step =
  f_goal_id :: string
  f_step_id :: string
  f_kind :: step_kind

record state =
  st_goals :: "goal list"
  st_nodes :: "node list"
  st_actions :: "action list"
  st_limits :: "run_limit gomap"

record plan =
  pl_run_limits :: "limit_state gomap"
  pl_frontier :: "frontier_step list"
  pl_actions :: "action list"
  pl_waits :: "wait list"
  pl_queues :: "queue_place list"
  pl_close :: "string list"
  pl_block :: "string list"
  pl_orphans :: "string list"
  pl_rows :: "string list"

definition empty_plan :: plan where
  "empty_plan =
     \<lparr>pl_run_limits = [], pl_frontier = [], pl_actions = [], pl_waits = [], pl_queues = [],
      pl_close = [], pl_block = [], pl_orphans = [], pl_rows = []\<rparr>"

text \<open>
  The host of the engine: what the modelled code takes from outside its own sources. The
  hash is \<open>hex.EncodeToString (sha256.Sum256 _)\<close>. The two overlap tests are
  \<open>work.AreasOverlap\<close> and \<open>work.ScheduledAreasOverlap\<close> (None is its error); they compile
  the area patterns with package regexp/syntax. The step-name test is \<open>validStepName\<close>, which rests on the Unicode tables and on package uniseg.
\<close>

record host =
  h_sha256 :: "string \<Rightarrow> string"
  h_overlap :: "string \<Rightarrow> string \<Rightarrow> bool"
  h_areas :: "string list \<Rightarrow> string list \<Rightarrow> bool option"
  h_step_name :: "string \<Rightarrow> string list \<Rightarrow> bool"

text \<open>\<open>SafetySweep\<close> in seconds.\<close>

definition safety_sweep :: int where
  "safety_sweep = 300"

end
