(* ===== verification/GoalKinds.thy ===== *)
theory GoalKinds
  imports GoalTypes
begin

text \<open>
  Step kinds and their admission rules (step\_kinds.go), the table of action kinds and the
  refunds it drives (kinds.go), action identities (actionID of next.go), and the revision a
  goal is verified at (deployment.go).
\<close>

section \<open>Lookups\<close>

text \<open>Model of \<open>has\<close>.\<close>

fun has :: "string list \<Rightarrow> string \<Rightarrow> bool" where
  "has [] i = False"
| "has (x # xs) i = (x = i \<or> has xs i)"

lemma has_iff [simp]: "has xs i \<longleftrightarrow> i \<in> set xs"
  by (induction xs) auto

text \<open>Model of \<open>goalTask\<close>: the first task of the goal with the id, nil when there is none.\<close>

definition goalTask :: "goal \<Rightarrow> string \<Rightarrow> task option" where
  "goalTask g i = first_such (\<lambda>t. t_id t = i) (g_tasks g)"

text \<open>A write through the pointer \<open>goalTask\<close> returned.\<close>

definition put_task :: "task \<Rightarrow> goal \<Rightarrow> goal" where
  "put_task t g = g\<lparr>g_tasks := update_first (\<lambda>u. t_id u = t_id t) (\<lambda>_. t) (g_tasks g)\<rparr>"

lemma goalTask_Some: "goalTask g i = Some t \<Longrightarrow> t \<in> set (g_tasks g) \<and> t_id t = i"
  by (auto simp: goalTask_def dest: first_such_Some)

section \<open>Step kinds\<close>

text \<open>Model of \<open>stepKind\<close>: a step without a kind is a task.\<close>

fun stepKind :: "step_kind \<Rightarrow> step_kind" where
  "stepKind StepUnset = TaskStep"
| "stepKind k = k"

text \<open>Model of \<open>finite\<close> and \<open>validResources\<close>.\<close>

definition validResources :: "resources \<Rightarrow> bool" where
  "validResources r \<longleftrightarrow>
     f_finite (r_cpu r) \<and> f_less f_zero (r_cpu r) \<and> 0 < r_memory_mb r \<and> 0 < r_disk_mb r"

text \<open>Model of \<open>validStepWork\<close>.\<close>

definition valid_check :: "string \<times> string \<Rightarrow> bool" where
  "valid_check c \<longleftrightarrow>
     fst c \<noteq> [] \<and> (snd c = ''claimed'' \<or> snd c = ''tool_called'' \<or> snd c = ''citations_resolve'')"

definition valid_brief :: "background_brief \<Rightarrow> bool" where
  "valid_brief b \<longleftrightarrow>
     b_goal b \<noteq> [] \<and> b_scope b \<noteq> [] \<and> b_not_touch b \<noteq> [] \<and> b_done b \<noteq> [] \<and> b_result b \<noteq> [] \<and>
     b_checks b \<noteq> [] \<and> list_all valid_check (b_checks b)"

definition valid_step_wait :: "step_wait \<Rightarrow> bool" where
  "valid_step_wait w \<longleftrightarrow>
     0 < sw_at w \<and> sw_record_id w = [] \<and> sw_revision w = [] \<and> sw_deadline w = 0 \<or>
     sw_at w = 0 \<and> sw_record_id w \<noteq> [] \<and> sw_revision w \<noteq> [] \<and> 0 < sw_deadline w"

definition validStepWork :: "task \<Rightarrow> bool" where
  "validStepWork t \<longleftrightarrow>
     (if t_id t = [] \<or> blank (t_done t) \<or> t_repository t = [] then False
      else case stepKind (t_kind t) of
        TaskStep \<Rightarrow>
          t_background t = None \<and> t_wait t = None \<and> t_base t \<noteq> [] \<and> t_area t \<noteq> [] \<and>
          t_worker t \<noteq> [] \<and> validResources (t_resources t)
      | BackgroundStep \<Rightarrow>
          (case t_background t of
             None \<Rightarrow> False
           | Some b \<Rightarrow> t_wait t = None \<and> validResources (t_resources t) \<and> t_worker t \<noteq> [] \<and> valid_brief b)
      | WaitStep \<Rightarrow>
          t_background t = None \<and> t_area t = [] \<and> t_base t = [] \<and> t_worker t = [] \<and>
          resources_eq (t_resources t) zero_resources \<and>
          (case t_wait t of None \<Rightarrow> False | Some w \<Rightarrow> valid_step_wait w)
      | _ \<Rightarrow> False)"

text \<open>Model of \<open>stepLanded\<close>.\<close>

definition stepLanded :: "task \<Rightarrow> bool" where
  "stepLanded t \<longleftrightarrow>
     (if stepKind (t_kind t) = TaskStep then proves (t_merge t) (p_revision (t_merge t))
      else t_stage t = TaskDone \<and> proves (t_result t) (p_revision (t_result t)))"

text \<open>Model of \<open>taskResultRevision\<close>, \<open>taskDone\<close> and \<open>freshTask\<close> (criteria.go).\<close>

definition taskResultRevision :: "task \<Rightarrow> string" where
  "taskResultRevision t =
     (if t_result_revision t \<noteq> [] then t_result_revision t else p_revision (t_merge t))"

definition taskDone :: "task \<Rightarrow> bool" where
  "taskDone t \<longleftrightarrow>
     (if stepKind (t_kind t) \<noteq> TaskStep then stepLanded t
      else t_stage t = TaskDone \<and> proves (t_merge t) (p_revision (t_merge t)) \<and>
           proves (t_qa t) (taskResultRevision t))"

definition freshTask :: "task \<Rightarrow> bool" where
  "freshTask t \<longleftrightarrow>
     t_session t = [] \<and> t_result t = no_proof \<and> t_pr_generation t = 0 \<and> t_continuations t = 0 \<and>
     t_thread_handle t = [] \<and> t_stage t = TaskReady \<and> t_attempt t = 0 \<and> t_head t = [] \<and>
     t_node_id t = [] \<and> t_merge t = no_proof \<and> t_qa t = no_proof \<and> t_pr t = no_pr \<and>
     t_recoveries t = 0 \<and> t_conflicts t = 0 \<and> t_qa_repairs t = 0 \<and> \<not> t_effects_settled t \<and>
     t_repaired_by t = [] \<and> t_result_revision t = [] \<and> \<not> t_repair_asked t"

section \<open>Action kinds\<close>

text \<open>The task counters an action kind can spend: \<open>kindSpec.counter\<close>.\<close>

datatype counter = CRecoveries | CConflicts | CQARepairs | CContinuations

fun get_counter :: "counter \<Rightarrow> task \<Rightarrow> int" where
  "get_counter CRecoveries t = t_recoveries t"
| "get_counter CConflicts t = t_conflicts t"
| "get_counter CQARepairs t = t_qa_repairs t"
| "get_counter CContinuations t = t_continuations t"

fun put_counter :: "counter \<Rightarrow> int \<Rightarrow> task \<Rightarrow> task" where
  "put_counter CRecoveries n t = t\<lparr>t_recoveries := n\<rparr>"
| "put_counter CConflicts n t = t\<lparr>t_conflicts := n\<rparr>"
| "put_counter CQARepairs n t = t\<lparr>t_qa_repairs := n\<rparr>"
| "put_counter CContinuations n t = t\<lparr>t_continuations := n\<rparr>"

record kind_spec =
  ks_worker :: bool
  ks_external_effect :: bool
  ks_prior_stage :: "task_stage option"
  ks_counter :: "counter option"

text \<open>Model of the table \<open>kindSpecs\<close>; a kind outside the table reads as the zero entry.\<close>

definition no_spec :: kind_spec where
  "no_spec = \<lparr>ks_worker = False, ks_external_effect = False, ks_prior_stage = None, ks_counter = None\<rparr>"

definition worker_spec :: "task_stage \<Rightarrow> counter option \<Rightarrow> kind_spec" where
  "worker_spec stage c =
     \<lparr>ks_worker = True, ks_external_effect = True, ks_prior_stage = Some stage, ks_counter = c\<rparr>"

fun kindSpecs :: "action_kind \<Rightarrow> kind_spec" where
  "kindSpecs Assign = worker_spec TaskReady None"
| "kindSpecs Resume = worker_spec TaskWorkerLost (Some CRecoveries)"
| "kindSpecs InspectPR = no_spec"
| "kindSpecs Merge = no_spec\<lparr>ks_external_effect := True\<rparr>"
| "kindSpecs RunQA = no_spec\<lparr>ks_external_effect := True\<rparr>"
| "kindSpecs RepairConflict = worker_spec TaskConflicted (Some CConflicts)"
| "kindSpecs RepairQA = worker_spec TaskQAFailed (Some CQARepairs)"
| "kindSpecs Deploy = no_spec\<lparr>ks_external_effect := True\<rparr>"
| "kindSpecs Verify = no_spec"
| "kindSpecs Observe = no_spec"
| "kindSpecs Decide = no_spec"
| "kindSpecs PlanGoal = no_spec"
| "kindSpecs CheckCriterion = no_spec"
| "kindSpecs ContinueWorker = worker_spec TaskNoReceipt (Some CContinuations)"
| "kindSpecs ReadSource = no_spec"
| "kindSpecs (KindOther s) = no_spec"

definition workerAction :: "action_kind \<Rightarrow> bool" where
  "workerAction k = ks_worker (kindSpecs k)"

definition hasExternalEffect :: "action \<Rightarrow> bool" where
  "hasExternalEffect a = ks_external_effect (kindSpecs (a_kind a))"

lemma workerAction_iff:
  "workerAction k \<longleftrightarrow> k \<in> {Assign, Resume, RepairConflict, RepairQA, ContinueWorker}"
  by (cases k) (auto simp: workerAction_def worker_spec_def no_spec_def)

lemma workerAction_simps [simp]:
  "workerAction Assign" "workerAction Resume" "workerAction RepairConflict"
  "workerAction RepairQA" "workerAction ContinueWorker" "\<not> workerAction InspectPR"
  "\<not> workerAction Merge" "\<not> workerAction RunQA" "\<not> workerAction Deploy"
  "\<not> workerAction Verify" "\<not> workerAction PlanGoal" "\<not> workerAction CheckCriterion"
  "\<not> workerAction ReadSource" "\<not> workerAction Observe" "\<not> workerAction Decide"
  by (simp_all add: workerAction_iff)

text \<open>Model of \<open>reserves\<close> (next.go).\<close>

definition reserves :: "action \<Rightarrow> bool" where
  "reserves a \<longleftrightarrow>
     a_state a \<noteq> Finished \<and> workerAction (a_kind a) \<and> stepKind (a_step_kind a) \<noteq> WaitStep"

text \<open>Model of \<open>refundRecovery\<close> and \<open>restoreWorkerAward\<close>.\<close>

definition refundRecovery :: "action_kind \<Rightarrow> bool \<Rightarrow> task \<Rightarrow> task" where
  "refundRecovery k floorAtZero t =
     (case ks_counter (kindSpecs k) of
        None \<Rightarrow> t
      | Some c \<Rightarrow>
          (let v = wrap64 (get_counter c t - 1)
           in put_counter c (if floorAtZero then max 0 v else v) t))"

definition restoreWorkerAward :: "action \<Rightarrow> bool \<Rightarrow> bool \<Rightarrow> task \<Rightarrow> task" where
  "restoreWorkerAward a floorAtZero effectsSettled t =
     (let t = (case ks_prior_stage (kindSpecs (a_kind a)) of None \<Rightarrow> t | Some s \<Rightarrow> t\<lparr>t_stage := s\<rparr>);
          t = (if a_kind a = Assign then t\<lparr>t_node_id := []\<rparr> else t)
      in if \<not> workerAction (a_kind a) then t
         else let t = refundRecovery (a_kind a) floorAtZero t;
                  n = wrap64 (t_attempt t - 1)
              in t\<lparr>t_attempt := (if floorAtZero then max 0 n else n),
                   t_effects_settled := effectsSettled\<rparr>)"

lemma refundRecovery_frame [simp]:
  "t_id (refundRecovery k f t) = t_id t"
  "t_attempt (refundRecovery k f t) = t_attempt t"
  "t_stage (refundRecovery k f t) = t_stage t"
  by (cases k; simp add: refundRecovery_def worker_spec_def no_spec_def Let_def)+

lemma restoreWorkerAward_id [simp]: "t_id (restoreWorkerAward a f e t) = t_id t"
  by (simp add: restoreWorkerAward_def Let_def split: option.splits)

section \<open>Identities\<close>

text \<open>Model of \<open>actionID\<close>: the key is the JSON array the code builds, hashed.\<close>

definition action_key :: "action \<Rightarrow> json_scalar list" where
  "action_key a =
     [SStr (a_goal_id a), SStr (a_task_id a), SStr (kind_text (a_kind a)), SInt (a_attempt a),
      SStr (a_revision a), SInt (a_sequence a), SStr (a_criterion_id a), SInt (a_goal_revision a),
      SInt (a_check_round a), SStr (a_failure_key a)]
     @ (if a_observe_action_id a \<noteq> [] then [SStr ''observe'', SStr (a_observe_action_id a)] else [])
     @ (if a_read_cause a \<noteq> [] then [SStr (a_read_cause a), SStr (a_signal a)] else [])"

definition actionID :: "host \<Rightarrow> action \<Rightarrow> string" where
  "actionID h a = h_sha256 h (json_array (map scalar_json (action_key a)))"

section \<open>Service and target revision\<close>

text \<open>Model of \<open>serviceRepository\<close> and \<open>validServiceRepository\<close>.\<close>

definition serviceRepository :: "goal \<Rightarrow> string" where
  "serviceRepository g =
     (if g_service_repository g = [] \<and> g_service_target g \<noteq> [] \<and>
         length (sc_repositories (g_scope g)) = 1
      then hd (sc_repositories (g_scope g)) else g_service_repository g)"

definition validServiceRepository :: "goal \<Rightarrow> bool" where
  "validServiceRepository g \<longleftrightarrow>
     (let repo = serviceRepository g
      in if repo = [] then g_service_target g = [] else has (sc_repositories (g_scope g)) repo)"

text \<open>Model of \<open>restoreMergedRevisions\<close>.\<close>

definition restoreMergedRevisions :: "goal \<Rightarrow> goal" where
  "restoreMergedRevisions g =
     (if g_merged_revisions g \<noteq> [] \<or> g_target_revision g = [] then g
      else g\<lparr>g_merged_revisions :=
               fold (\<lambda>t m. if proves (t_merge t) (g_target_revision g)
                           then mput (t_repository t) (g_target_revision g) m else m)
                 (g_tasks g) []\<rparr>)"

text \<open>Model of \<open>targetRevision\<close>: results only, library, service, legacy record.\<close>

definition encode_results :: "(string \<times> string) list \<Rightarrow> string" where
  "encode_results rs = json_array (map (\<lambda>(i, r). json_array [json_string i, json_string r]) rs)"

definition results_revision :: "host \<Rightarrow> goal \<Rightarrow> string" where
  "results_revision h g =
     (if list_all stepLanded (g_tasks g)
      then actionID h (zero_action\<lparr>a_goal_id := g_id g, a_revision :=
             encode_results (sort_key fst (map (\<lambda>t. (t_id t, p_revision (t_result t))) (g_tasks g)))\<rparr>)
      else [])"

definition targetRevision :: "host \<Rightarrow> goal \<Rightarrow> string" where
  "targetRevision h g =
     (if g_tasks g \<noteq> [] \<and> g_service_target g = [] \<and>
         list_all (\<lambda>t. stepKind (t_kind t) \<noteq> TaskStep) (g_tasks g)
      then results_revision h g
      else if g_service_target g = [] then g_target_revision g
      else let repo = serviceRepository g; revision = mget [] (g_merged_revisions g) repo
           in if revision \<noteq> [] then revision
              else if g_merged_revisions g = [] \<and> length (sc_repositories (g_scope g)) = 1 \<and>
                      list_ex (\<lambda>t. t_repository t = repo \<and> proves (t_merge t) (g_target_revision g))
                        (g_tasks g)
              then g_target_revision g else [])"

lemma proves_nonempty: "proves p r \<Longrightarrow> r \<noteq> [] \<and> p_passed p \<and> p_revision p = r"
  by (simp add: proves_def)

lemma proves_not_fails: "proves p r \<Longrightarrow> \<not> fails p r"
  by (simp add: proves_def fails_def)

end
