(* ===== verification/GoalCriteria.thy ===== *)
theory GoalCriteria
  imports GoalKinds
begin

text \<open>
  The done condition of a goal: its criteria with the mandatory checks of the code
  lifecycle, the evidence that meets them (criteria.go, evidence.go), and the input version
  that fences a dispatched action against a goal that has moved on (input\_version.go).
\<close>

section \<open>Collected evidence\<close>

text \<open>Model of \<open>CollectedEvidence.Valid\<close> and \<open>CollectedEvidence.Matches\<close>.\<close>

definition read_complete :: "evidence_read \<Rightarrow> bool" where
  "read_complete r \<longleftrightarrow>
     \<not> blank (er_target r) \<and> \<not> blank (er_revision r) \<and> \<not> blank (er_content r)"

definition Valid :: "collected_evidence option \<Rightarrow> criterion_check \<Rightarrow> bool" where
  "Valid ev c \<longleftrightarrow>
     (case ev of
        None \<Rightarrow> False
      | Some e \<Rightarrow>
          (let reads = (ce_reads e \<noteq> [] \<and> list_all read_complete (ce_reads e))
           in case ck_kind c of
                ReadEvidence \<Rightarrow> recordObject (ce_record e)
              | RunEvidence \<Rightarrow> \<not> blank (ce_output e)
              | CitationEvidence \<Rightarrow> reads \<and> \<not> blank (ce_output e)
              | JudgmentEvidence \<Rightarrow>
                  reads \<and> \<not> blank (ck_rubric c) \<and> ce_rubric e = ck_rubric c \<and> \<not> blank (ce_judgment e)
              | _ \<Rightarrow> False))"

definition Matches :: "collected_evidence option \<Rightarrow> criterion_check \<Rightarrow> bool" where
  "Matches ev c \<longleftrightarrow>
     (if \<not> Valid ev c then False
      else if ck_expected c = RawEmpty then True
      else if ck_kind c \<noteq> ReadEvidence \<or> \<not> recordObject (ck_expected c) then False
      else case ev of
             None \<Rightarrow> False
           | Some e \<Rightarrow> containsRecord (raw_value (ce_record e)) (raw_value (ck_expected c)))"

lemma Matches_Valid: "Matches ev c \<Longrightarrow> Valid ev c"
  by (auto simp: Matches_def split: if_splits)

section \<open>Criteria\<close>

definition code_id :: "string \<Rightarrow> bool" where
  "code_id i \<longleftrightarrow> has_prefix i ''code:''"

definition plain_check :: "evidence_kind \<Rightarrow> string \<Rightarrow> string \<Rightarrow> string \<Rightarrow> criterion_check" where
  "plain_check kind method target task =
     \<lparr>ck_kind = kind, ck_method = method, ck_target = target, ck_task_id = task,
      ck_rubric = [], ck_expected = RawEmpty\<rparr>"

text \<open>Model of \<open>goalCriteria\<close>.\<close>

definition task_criteria :: "task \<Rightarrow> criterion list" where
  "task_criteria t =
     (if stepKind (t_kind t) \<noteq> TaskStep then []
      else [\<lparr>c_id = ''code:merge:'' @ t_id t, c_statement = ''Task merged'',
             c_check = plain_check ReadEvidence ''merge.read'' (t_repository t) (t_id t)\<rparr>,
            \<lparr>c_id = ''code:qa:'' @ t_id t, c_statement = ''QA passed on current merged result'',
             c_check = plain_check RunEvidence ''qa.read'' (t_repository t) (t_id t)\<rparr>])"

definition goalCriteria :: "goal \<Rightarrow> criterion list" where
  "goalCriteria g =
     filter (\<lambda>c. \<not> code_id (c_id c)) (g_criteria g)
     @ concat (map task_criteria (g_tasks g))
     @ (if g_service_target g \<noteq> []
        then [\<lparr>c_id = ''code:deploy'',
               c_statement = ''Deployment observed at the current revision'',
               c_check = plain_check ReadEvidence ''deploy.read'' (g_service_target g) []\<rparr>]
        else [])
     @ [\<lparr>c_id = ''code:runtime'', c_statement = g_done g,
         c_check = plain_check RunEvidence ''runtime.probe''
                     (if g_service_target g = [] then g_id g else g_service_target g) []\<rparr>]"

text \<open>Model of \<open>criterionRevision\<close>.\<close>

definition task_criterion_revision :: "criterion \<Rightarrow> task \<Rightarrow> string" where
  "task_criterion_revision c t =
     (if stepKind (t_kind t) \<noteq> TaskStep then p_revision (t_result t)
      else if ck_method (c_check c) = ''merge.read'' then p_revision (t_merge t)
      else taskResultRevision t)"

definition criterionRevision :: "host \<Rightarrow> goal \<Rightarrow> criterion \<Rightarrow> string" where
  "criterionRevision h g c =
     (if ck_method (c_check c) = ''steps.read'' then targetRevision h g
      else if ck_task_id (c_check c) \<noteq> [] then
        (case goalTask g (ck_task_id (c_check c)) of
           None \<Rightarrow> [] | Some t \<Rightarrow> task_criterion_revision c t)
      else if \<not> code_id (c_id c) \<and> has (sc_repositories (g_scope g)) (ck_target (c_check c)) then
        (let revision = mget [] (g_merged_revisions g) (ck_target (c_check c))
         in if revision \<noteq> [] then revision
            else if length (sc_repositories (g_scope g)) \<noteq> 1 \<or> g_merged_revisions g \<noteq> [] then []
            else targetRevision h g)
      else targetRevision h g)"

text \<open>Model of \<open>validCriteria\<close>.\<close>

definition zero_criterion :: criterion where
  "zero_criterion = \<lparr>c_id = [], c_statement = [], c_check = plain_check (EvidenceOther []) [] [] []\<rparr>"

definition canonical_criterion :: "goal \<Rightarrow> string \<Rightarrow> criterion" where
  "canonical_criterion g i =
     (case map_of (rev (map (\<lambda>c. (c_id c, c)) (goalCriteria g))) i of
        None \<Rightarrow> zero_criterion | Some c \<Rightarrow> c)"

definition valid_criterion :: "goal \<Rightarrow> criterion \<Rightarrow> bool" where
  "valid_criterion g c \<longleftrightarrow>
     \<not> blank (c_id c) \<and> \<not> blank (c_statement c) \<and> \<not> blank (ck_method (c_check c)) \<and>
     \<not> blank (ck_target (c_check c)) \<and>
     (case ck_kind (c_check c) of
        ReadEvidence \<Rightarrow> ck_rubric (c_check c) = []
      | RunEvidence \<Rightarrow> ck_rubric (c_check c) = []
      | CitationEvidence \<Rightarrow> ck_rubric (c_check c) = []
      | JudgmentEvidence \<Rightarrow> \<not> blank (ck_rubric (c_check c))
      | _ \<Rightarrow> False) \<and>
     (ck_expected (c_check c) = RawEmpty \<or>
      ck_kind (c_check c) = ReadEvidence \<and> recordObject (ck_expected (c_check c))) \<and>
     (ck_task_id (c_check c) = [] \<or> list_ex (\<lambda>t. t_id t = ck_task_id (c_check c)) (g_tasks g)) \<and>
     (\<not> code_id (c_id c) \<or> canonical_criterion g (c_id c) = c)"

definition validCriteria :: "goal \<Rightarrow> bool \<Rightarrow> bool" where
  "validCriteria g pendingCorrection \<longleftrightarrow>
     g_criteria g \<noteq> [] \<and> sc_repositories (g_scope g) \<noteq> [] \<and> \<not> blank (sc_includes (g_scope g)) \<and>
     list_all (\<lambda>r. \<not> blank r) (sc_repositories (g_scope g)) \<and>
     distinct (sc_repositories (g_scope g)) \<and>
     (pendingCorrection \<or>
      list_all (\<lambda>t. has (sc_repositories (g_scope g)) (t_repository t)) (g_tasks g)) \<and>
     distinct (map c_id (g_criteria g)) \<and>
     list_all (valid_criterion g) (g_criteria g) \<and>
     list_all (\<lambda>d. \<not> blank (d_statement d) \<and> \<not> blank (d_message_id d)) (g_decisions g) \<and>
     list_ex (\<lambda>c. \<not> code_id (c_id c)) (g_criteria g)"

text \<open>Model of \<open>currentEvidence\<close> and \<open>criterionMet\<close>.\<close>

definition currentEvidence :: "host \<Rightarrow> goal \<Rightarrow> criterion \<Rightarrow> criterion_evidence \<Rightarrow> bool" where
  "currentEvidence h g c e \<longleftrightarrow>
     e_criterion e = c_id c \<and> e_goal_revision e = g_revision g \<and> e_round e = g_check_round g \<and>
     0 < e_round e \<and> e_target e = ck_target (c_check c) \<and>
     e_revision e = criterionRevision h g c \<and> e_revision e \<noteq> [] \<and>
     e_kind e = ck_kind (c_check c) \<and> \<not> blank (e_ref e) \<and> Valid (e_collected e) (c_check c)"

definition criterionMet :: "host \<Rightarrow> goal \<Rightarrow> criterion \<Rightarrow> bool" where
  "criterionMet h g c =
     (case first_such (currentEvidence h g c) (g_checks g) of
        None \<Rightarrow> False
      | Some e \<Rightarrow> e_passed e \<and> Matches (e_collected e) (c_check c))"

text \<open>Model of \<open>citationUnresolved\<close> (research.go).\<close>

definition citationUnresolved :: "host \<Rightarrow> goal \<Rightarrow> criterion \<Rightarrow> bool" where
  "citationUnresolved h g c \<longleftrightarrow>
     ck_kind (c_check c) = CitationEvidence \<and>
     list_ex (\<lambda>e. currentEvidence h g c e \<and> \<not> e_passed e) (g_checks g)"

text \<open>Model of \<open>openCriteria\<close> and \<open>livenessReason\<close> (next.go).\<close>

definition add_open :: "string \<Rightarrow> string list \<Rightarrow> string list" where
  "add_open statement out =
     (let text = trim_space statement in if text = [] \<or> text \<in> set out then out else out @ [text])"

definition openCriteria :: "host \<Rightarrow> goal \<Rightarrow> string list" where
  "openCriteria h g =
     fold add_open (map c_statement (filter (\<lambda>c. \<not> criterionMet h g c) (goalCriteria g))) []"

definition livenessReason :: "host \<Rightarrow> goal \<Rightarrow> string" where
  "livenessReason h g =
     (let missing = openCriteria h g
      in if missing = [] then ''LINA could not find a way to finish this goal.''
         else ''LINA could not find a way to finish this goal. Still open: ''
              @ join_with ''; '' missing @ ''.'')"

section \<open>Input versions\<close>

text \<open>Model of \<open>inputVersion\<close>.\<close>

definition version_target :: "host \<Rightarrow> goal \<Rightarrow> action \<Rightarrow> string" where
  "version_target h g a =
     (case a_kind a of
        CheckCriterion \<Rightarrow>
          (case a_check a of
             None \<Rightarrow> []
           | Some c \<Rightarrow> criterionRevision h g (zero_criterion\<lparr>c_check := c\<rparr>))
      | Deploy \<Rightarrow> g_target_revision g
      | Verify \<Rightarrow> g_target_revision g
      | InspectPR \<Rightarrow> (case goalTask g (a_task_id a) of None \<Rightarrow> [] | Some t \<Rightarrow> t_head t)
      | Merge \<Rightarrow> (case goalTask g (a_task_id a) of None \<Rightarrow> [] | Some t \<Rightarrow> t_head t)
      | RunQA \<Rightarrow>
          (case goalTask g (a_task_id a) of None \<Rightarrow> [] | Some t \<Rightarrow> p_revision (t_merge t))
      | PlanGoal \<Rightarrow>
          (case goalTask g (a_task_id a) of
             Some t \<Rightarrow> p_revision (t_merge t)
           | None \<Rightarrow>
               if a_failure_key a \<noteq> [] \<and> a_revision a \<noteq> [] then g_target_revision g else [])
      | _ \<Rightarrow> [])"

definition version_round :: "goal \<Rightarrow> action \<Rightarrow> int" where
  "version_round g a =
     (case a_kind a of
        CheckCriterion \<Rightarrow> g_check_round g
      | PlanGoal \<Rightarrow> if a_task_id a = [] \<and> a_failure_key a \<noteq> [] then g_check_round g else 0
      | _ \<Rightarrow> 0)"

definition inputVersion :: "host \<Rightarrow> goal \<Rightarrow> action \<Rightarrow> input_version" where
  "inputVersion h g a =
     \<lparr>iv_goal_revision = g_revision g,
      iv_record_revision = g_record_revision g,
      iv_pr_generations =
        fold (\<lambda>t m. if a_task_id a = [] \<or> a_task_id a = t_id t
                    then mput (t_id t) (t_pr_generation t) m else m) (g_tasks g) [],
      iv_target_revision = version_target h g a,
      iv_check_round = version_round g a\<rparr>"

text \<open>Model of \<open>changedInputs\<close>, \<open>currentActionTarget\<close> and \<open>staleInputs\<close>.\<close>

definition changedInputs :: "host \<Rightarrow> goal \<Rightarrow> action \<Rightarrow> bool" where
  "changedInputs h g a \<longleftrightarrow> a_input_version a \<noteq> Some (inputVersion h g a)"

definition currentActionTarget :: "host \<Rightarrow> goal \<Rightarrow> action \<Rightarrow> bool" where
  "currentActionTarget h g a =
     (case a_kind a of
        CheckCriterion \<Rightarrow>
          a_check_round a = g_check_round g \<and> a_revision a = version_target h g a
      | Deploy \<Rightarrow> a_revision a = version_target h g a
      | Verify \<Rightarrow> a_revision a = version_target h g a
      | InspectPR \<Rightarrow> a_revision a = version_target h g a
      | Merge \<Rightarrow> a_revision a = version_target h g a
      | RunQA \<Rightarrow> a_revision a = version_target h g a
      | PlanGoal \<Rightarrow>
          if a_task_id a \<noteq> [] \<or> a_failure_key a \<noteq> [] \<and> a_revision a \<noteq> []
          then a_revision a = version_target h g a
          else \<not> g_definition_pending g \<or> a_revision a = g_record_revision g
      | KindOther s \<Rightarrow> False
      | _ \<Rightarrow> True)"

definition staleInputs :: "host \<Rightarrow> goal \<Rightarrow> action \<Rightarrow> bool" where
  "staleInputs h g a \<longleftrightarrow> changedInputs h g a \<or> \<not> currentActionTarget h g a"

text \<open>Model of \<open>effectSettled\<close>.\<close>

definition effectSettled :: "action \<Rightarrow> observation \<Rightarrow> bool" where
  "effectSettled a ob \<longleftrightarrow>
     (if o_effects_settled ob then True
      else if a_kind a = Merge \<and> o_status ob = OutcomeConflict then True
      else if o_status ob \<noteq> OutcomeSucceeded \<and> o_status ob \<noteq> OutcomeFailed then False
      else case a_kind a of
          Deploy \<Rightarrow> p_ref (o_proof ob) \<noteq> [] \<and> p_revision (o_proof ob) = a_revision a
        | RunQA \<Rightarrow> p_ref (o_proof ob) \<noteq> [] \<and> p_revision (o_proof ob) = a_revision a
        | Merge \<Rightarrow>
            o_status ob = OutcomeSucceeded \<and> o_head ob = a_revision a \<and>
            proves (o_proof ob) (p_revision (o_proof ob))
        | _ \<Rightarrow> False)"

text \<open>Model of \<open>settledRefusal\<close> (revisions.go).\<close>

definition settledRefusal :: "action \<Rightarrow> bool" where
  "settledRefusal a =
     (case a_receipt a of
        None \<Rightarrow> False
      | Some r \<Rightarrow> o_status r = OutcomeNeedsPerson \<and> o_effects_settled r)"

section \<open>Lemmas\<close>

lemma criterionMet_evidence:
  assumes "criterionMet h g c"
  shows "\<exists>e \<in> set (g_checks g). currentEvidence h g c e \<and> e_passed e \<and> Matches (e_collected e) (c_check c)"
  using assms
  by (auto simp: criterionMet_def split: option.splits dest!: first_such_Some)

text \<open>A met criterion was observed at the goal's current revision and check round.\<close>


text \<open>The mandatory checks cannot be replaced: a caller's \<open>code:\<close> criteria are dropped.\<close>

lemma goalCriteria_mandatory:
  "\<lbrakk>t \<in> set (g_tasks g); stepKind (t_kind t) = TaskStep\<rbrakk> \<Longrightarrow> set (task_criteria t) \<subseteq> set (goalCriteria g)"
  by (auto simp: goalCriteria_def)

lemma code_id_task_criteria: "c \<in> set (task_criteria t) \<Longrightarrow> code_id (c_id c)"
  by (auto simp: task_criteria_def code_id_def has_prefix_def split: if_splits)

lemma filter_not_code_goalCriteria:
  "filter (\<lambda>c. \<not> code_id (c_id c)) (goalCriteria g) = filter (\<lambda>c. \<not> code_id (c_id c)) (g_criteria g)"
proof -
  have "filter (\<lambda>c. \<not> code_id (c_id c)) (concat (map task_criteria ts)) = []" for ts
    by (induction ts) (auto simp: filter_empty_conv dest: code_id_task_criteria)
  then show ?thesis
    by (simp add: goalCriteria_def) (simp add: code_id_def has_prefix_def)
qed

text \<open>Recomputing the criteria of a goal that carries them changes nothing.\<close>

text \<open>
  C30: Recomputing a goal's criteria is idempotent, so storing and reloading them adds no second
  copy of a code criterion.
\<close>

lemma goalCriteria_idem: "goalCriteria (g\<lparr>g_criteria := goalCriteria g\<rparr>) = goalCriteria g"
  using filter_not_code_goalCriteria [of g] by (simp add: goalCriteria_def)

lemma iv_generations_frame:
  "iv_pr_generations (inputVersion h g a) = iv_pr_generations (inputVersion h g b)"
  if "a_task_id a = a_task_id b"
  using that by (simp add: inputVersion_def)

end
