(* ===== verification/GoalGraph.thy ===== *)
theory GoalGraph
  imports GoalCriteria
begin

text \<open>
  The dependency graph of a goal: the depth-first check that admits it (the visitors of
  validateGoalState in next.go and of validateSteps in step\_graph.go), the reachability test
  that orders overlapping areas, the depth used for placement, and the submission of a whole
  step graph. The visitors recurse on a fuel that bounds the nesting of open nodes; one more
  than the number of nodes is enough, which \<open>visit_all_iff\<close> shows.
\<close>

section \<open>The depth-first visitor\<close>

text \<open>
  \<open>color\<close> maps a step to 0 (new), 1 (open) or 2 (closed). \<open>None\<close> is the visitor's answer
  false. The visitor of validateGoalState (\<open>strict\<close>) also refuses an unknown step and a
  repeated dependency; the visitor of validateSteps runs after those checks.
\<close>

type_synonym deps = "string \<Rightarrow> string list option"
type_synonym color = "string \<Rightarrow> nat"

fun visit_deps ::
  "(string \<Rightarrow> color \<Rightarrow> color option) \<Rightarrow> bool \<Rightarrow> string list \<Rightarrow> string list \<Rightarrow> color \<Rightarrow> color option" where
  "visit_deps rec strict [] seen c = Some c"
| "visit_deps rec strict (d # ds) seen c =
     (if strict \<and> d \<in> set seen then None
      else case rec d c of
             None \<Rightarrow> None
           | Some c' \<Rightarrow> visit_deps rec strict ds (d # seen) c')"

definition dep_list :: "deps \<Rightarrow> string \<Rightarrow> string list" where
  "dep_list g v = (case g v of None \<Rightarrow> [] | Some ds \<Rightarrow> ds)"

primrec visit :: "nat \<Rightarrow> bool \<Rightarrow> deps \<Rightarrow> string \<Rightarrow> color \<Rightarrow> color option" where
  "visit 0 strict g v c = None"
| "visit (Suc n) strict g v c =
     (if strict \<and> g v = None \<or> c v = 1 then None
      else if c v = 2 then Some c
      else case visit_deps (visit n strict g) strict (dep_list g v) [] (c(v := 1)) of
             None \<Rightarrow> None
           | Some c' \<Rightarrow> Some (c'(v := 2)))"

fun visit_all :: "nat \<Rightarrow> bool \<Rightarrow> deps \<Rightarrow> string list \<Rightarrow> color \<Rightarrow> color option" where
  "visit_all n strict g [] c = Some c"
| "visit_all n strict g (v # vs) c =
     (case visit n strict g v c of None \<Rightarrow> None | Some c' \<Rightarrow> visit_all n strict g vs c')"

definition no_color :: color where
  "no_color = (\<lambda>_. 0)"

section \<open>What the visitor decides\<close>

definition edges :: "deps \<Rightarrow> (string \<times> string) set" where
  "edges g = {(v, d). \<exists>ds. g v = Some ds \<and> d \<in> set ds}"

text \<open>A well-formed graph: known, unrepeated dependencies and no cycle.\<close>

definition closed_graph :: "deps \<Rightarrow> bool" where
  "closed_graph g \<longleftrightarrow> (\<forall>v ds. g v = Some ds \<longrightarrow> set ds \<subseteq> dom g)"

definition graph_ok :: "deps \<Rightarrow> bool" where
  "graph_ok g \<longleftrightarrow>
     (\<forall>v ds. g v = Some ds \<longrightarrow> distinct ds \<and> set ds \<subseteq> dom g) \<and> acyclic (edges g)"

text \<open>
  Sets of closed steps: each step joins after all of its dependencies, so the order of
  joining is a topological order.
\<close>

inductive ordered_set :: "deps \<Rightarrow> bool \<Rightarrow> string set \<Rightarrow> bool" for g strict where
  empty: "ordered_set g strict {}"
| join: "\<lbrakk>ordered_set g strict B; v \<notin> B; set (dep_list g v) \<subseteq> B;
          strict \<Longrightarrow> g v \<noteq> None \<and> distinct (dep_list g v)\<rbrakk> \<Longrightarrow> ordered_set g strict (insert v B)"

definition black :: "color \<Rightarrow> string set" where
  "black c = {v. c v = 2}"

definition gray :: "color \<Rightarrow> string set" where
  "gray c = {v. c v = 1}"

lemma color_simps [simp]:
  "black (c(v := 2)) = insert v (black c)"
  "gray (c(v := 2)) = gray c - {v}"
  "gray (c(v := Suc 0)) = insert v (gray c)"
  "black (c(v := Suc 0)) = black c - {v}"
  "black no_color = {}" "gray no_color = {}"
  by (auto simp: black_def gray_def no_color_def)

text \<open>One visit: what it may change and what it establishes.\<close>

definition visited :: "deps \<Rightarrow> bool \<Rightarrow> color \<Rightarrow> color \<Rightarrow> bool" where
  "visited g strict c c' \<longleftrightarrow>
     gray c' = gray c \<and> black c \<subseteq> black c' \<and>
     (ordered_set g strict (black c) \<longrightarrow> ordered_set g strict (black c'))"

lemma visited_refl: "visited g strict c c"
  by (simp add: visited_def)

lemma visited_trans: "\<lbrakk>visited g strict c d; visited g strict d e\<rbrakk> \<Longrightarrow> visited g strict c e"
  by (auto simp: visited_def)

lemma visit_deps_visited:
  assumes "\<And>d c c'. rec d c = Some c' \<Longrightarrow> visited g strict c c' \<and> d \<in> black c'"
    and "visit_deps rec strict ds seen c = Some c'"
  shows "visited g strict c c' \<and> set ds \<subseteq> black c' \<and>
         (strict \<longrightarrow> distinct ds \<and> set ds \<inter> set seen = {})"
  using assms(2)
proof (induction ds arbitrary: seen c)
  case Nil
  then show ?case by (simp add: visited_refl)
next
  case (Cons d ds)
  obtain c1 where c1: "rec d c = Some c1" "visit_deps rec strict ds (d # seen) c1 = Some c'"
    and fresh: "\<not> (strict \<and> d \<in> set seen)"
    using Cons.prems by (auto split: if_splits option.splits)
  from assms(1) [OF c1(1)] Cons.IH [OF c1(2)] fresh show ?case
    by (auto intro: visited_trans simp: visited_def)
qed

lemma visit_visited:
  "visit n strict g v c = Some c' \<Longrightarrow> visited g strict c c' \<and> v \<in> black c'"
proof (induction n arbitrary: v c c')
  case (Suc n)
  show ?case
  proof (cases "c v = 2")
    case True
    with Suc.prems show ?thesis
      by (auto simp: visited_refl black_def split: if_splits)
  next
    case False
    then obtain c1 where c1: "visit_deps (visit n strict g) strict (dep_list g v) [] (c(v := 1)) = Some c1"
      and c': "c' = c1(v := 2)" and known: "strict \<longrightarrow> g v \<noteq> None" and white: "c v \<noteq> 1"
      using Suc.prems by (auto split: if_splits option.splits)
    have deps: "visited g strict (c(v := 1)) c1" "set (dep_list g v) \<subseteq> black c1"
      "strict \<longrightarrow> distinct (dep_list g v)"
      using visit_deps_visited [OF Suc.IH c1] by auto
    have "v \<in> gray c1"
      using deps(1) by (simp add: visited_def)
    then have "v \<notin> black c1"
      by (simp add: gray_def black_def)
    have same: "black (c(v := 1)) = black c" "gray (c(v := 1)) - {v} = gray c"
      using False white by (auto simp: black_def gray_def)
    have B: "black c' = insert v (black c1)" and G: "gray c' = gray c"
      using deps(1) same(2) unfolding c' by (simp_all add: visited_def)
    have "ordered_set g strict (black c')" if "ordered_set g strict (black c)"
      using that deps \<open>v \<notin> black c1\<close> known same(1) unfolding B
      by (intro ordered_set.join) (auto simp: visited_def)
    moreover have "black c \<subseteq> black c'"
      using deps(1) same(1) unfolding B by (auto simp: visited_def)
    ultimately show ?thesis
      using B G by (simp add: visited_def)
  qed
qed simp

lemma visit_all_visited:
  "visit_all n strict g vs c = Some c' \<Longrightarrow> visited g strict c c' \<and> set vs \<subseteq> black c'"
proof (induction vs arbitrary: c)
  case Nil
  then show ?case by (simp add: visited_refl)
next
  case (Cons v vs)
  obtain c1 where c1: "visit n strict g v c = Some c1" "visit_all n strict g vs c1 = Some c'"
    using Cons.prems by (auto split: option.splits)
  with Cons.IH [OF c1(2)] visit_visited [OF c1(1)] show ?case
    by (auto intro: visited_trans simp: visited_def)
qed

text \<open>An ordered set has no cycle among its members.\<close>

lemma ordered_set_closed:
  "ordered_set g strict B \<Longrightarrow> v \<in> B \<Longrightarrow> set (dep_list g v) \<subseteq> B"
  by (induction arbitrary: v rule: ordered_set.induct) auto

lemma ordered_set_strict:
  "ordered_set g strict B \<Longrightarrow> v \<in> B \<Longrightarrow> strict \<Longrightarrow> g v \<noteq> None \<and> distinct (dep_list g v)"
  by (induction arbitrary: v rule: ordered_set.induct) auto

lemma edges_dep_list: "(v, d) \<in> edges g \<longleftrightarrow> d \<in> set (dep_list g v)"
  by (cases "g v") (auto simp: edges_def dep_list_def)

lemma ordered_set_acyclic:
  "ordered_set g strict B \<Longrightarrow> v \<in> B \<Longrightarrow> (v, v) \<notin> (edges g)\<^sup>+"
proof (induction arbitrary: v rule: ordered_set.induct)
  case (join B u)
  have stay: "y \<in> B" if "x \<in> B" "(x, y) \<in> (edges g)\<^sup>+" for x y
    using that(2,1) ordered_set_closed [OF join.hyps(1)]
    by (induction rule: trancl_induct) (auto simp: edges_dep_list)
  show ?case
  proof (cases "v = u")
    case True
    show ?thesis
    proof
      assume "(v, v) \<in> (edges g)\<^sup>+"
      then obtain d where d: "(v, d) \<in> edges g" "(d, v) \<in> (edges g)\<^sup>*"
        by (meson tranclD)
      from d(1) True join.hyps(3) have "d \<in> B"
        by (auto simp: edges_dep_list)
      with d(2) have "v \<in> B"
        using stay by (auto dest: rtranclD)
      with True join.hyps(2) show False by simp
    qed
  next
    case False
    with join show ?thesis by auto
  qed
qed simp

lemma visit_all_sound:
  assumes "visit_all n strict g vs no_color = Some c" and "dom g \<subseteq> set vs"
  shows "acyclic (edges g)" and "strict \<Longrightarrow> graph_ok g"
proof -
  have B: "ordered_set g strict (black c)" "dom g \<subseteq> black c"
    using visit_all_visited [OF assms(1)] assms(2)
    by (auto simp: visited_def intro: ordered_set.empty)
  have src: "(v, w) \<in> (edges g)\<^sup>+ \<Longrightarrow> v \<in> dom g" for v w
    by (auto dest!: tranclD simp: edges_def)
  then show acyc: "acyclic (edges g)"
    unfolding acyclic_def using ordered_set_acyclic [OF B(1)] B(2) by blast
  assume strict
  show "graph_ok g"
    unfolding graph_ok_def
  proof (intro conjI allI impI acyc)
    fix v ds
    assume v: "g v = Some ds"
    then have "v \<in> black c" using B(2) by auto
    with v show "distinct ds"
      using ordered_set_strict [OF B(1) _ \<open>strict\<close>] by (force simp: dep_list_def)
    show "set ds \<subseteq> dom g"
      using ordered_set_closed [OF B(1) \<open>v \<in> black c\<close>] ordered_set_strict [OF B(1) _ \<open>strict\<close>] v
      by (auto simp: dep_list_def)
  qed
qed

section \<open>Enough fuel\<close>

text \<open>
  The open steps lie on one path, and each nested visit opens one more, so a fuel above the
  number of steps that are not open is never used up.
\<close>

lemma visit_deps_complete:
  assumes rec: "\<And>d c. \<lbrakk>d \<in> set ds; gray c = G\<rbrakk> \<Longrightarrow> \<exists>c'. rec d c = Some c' \<and> gray c' = G"
    and "gray c = G" and "strict \<longrightarrow> distinct ds \<and> set ds \<inter> set seen = {}"
  shows "\<exists>c'. visit_deps rec strict ds seen c = Some c' \<and> gray c' = G"
  using assms
proof (induction ds arbitrary: seen c)
  case (Cons d ds)
  obtain c1 where "rec d c = Some c1" "gray c1 = G"
    using Cons.prems(1) [of d c] Cons.prems(2) by auto
  moreover have "\<exists>c'. visit_deps rec strict ds (d # seen) c1 = Some c' \<and> gray c' = G"
    using Cons.prems \<open>gray c1 = G\<close> by (intro Cons.IH) auto
  ultimately show ?case using Cons.prems(3) by auto
qed simp

lemma visit_complete:
  assumes "finite (dom g)" and closed: "closed_graph g" and "acyclic (edges g)"
    and dist: "strict \<longrightarrow> (\<forall>v ds. g v = Some ds \<longrightarrow> distinct ds)"
  shows "\<lbrakk>v \<in> dom g; gray c \<subseteq> dom g; \<forall>u \<in> gray c. (u, v) \<in> (edges g)\<^sup>+; card (dom g - gray c) < n\<rbrakk>
           \<Longrightarrow> \<exists>c'. visit n strict g v c = Some c' \<and> gray c' = gray c"
proof (induction n arbitrary: v c)
  case (Suc n)
  have "c v \<noteq> 1"
    using Suc.prems(3) \<open>acyclic (edges g)\<close> by (auto simp: gray_def acyclic_def)
  show ?case
  proof (cases "c v = 2")
    case True
    then show ?thesis using Suc.prems(1) by auto
  next
    case False
    obtain ds where ds: "g v = Some ds" using Suc.prems(1) by auto
    let ?G = "insert v (gray c)"
    have vG: "v \<notin> gray c" using \<open>c v \<noteq> 1\<close> by (simp add: gray_def)
    have "card (dom g - ?G) < card (dom g - gray c)"
      using Suc.prems(1) vG assms(1) by (intro psubset_card_mono) auto
    with Suc.prems(4) have less: "card (dom g - ?G) < n" by simp
    have "\<exists>c'. visit_deps (visit n strict g) strict ds [] (c(v := 1)) = Some c' \<and> gray c' = ?G"
    proof (rule visit_deps_complete)
      fix d c1
      assume d: "d \<in> set ds" and G: "gray c1 = ?G"
      have vd: "(v, d) \<in> edges g" using d ds by (auto simp: edges_def)
      have "d \<in> dom g" using closed ds d by (auto simp: closed_graph_def)
      moreover have "\<forall>u \<in> gray c1. (u, d) \<in> (edges g)\<^sup>+"
        using G Suc.prems(3) vd by (auto intro: trancl_into_trancl)
      ultimately have "\<exists>c'. visit n strict g d c1 = Some c' \<and> gray c' = gray c1"
        using G less Suc.prems(1,2) by (intro Suc.IH) auto
      then show "\<exists>c'. visit n strict g d c1 = Some c' \<and> gray c' = ?G" using G by simp
    qed (use dist ds in auto)
    then obtain c' where "visit_deps (visit n strict g) strict ds [] (c(v := 1)) = Some c'" "gray c' = ?G"
      by auto
    with False \<open>c v \<noteq> 1\<close> ds vG show ?thesis by (auto simp: dep_list_def)
  qed
qed simp

lemma visit_all_complete:
  assumes "finite (dom g)" "closed_graph g" "acyclic (edges g)"
    "strict \<longrightarrow> (\<forall>v ds. g v = Some ds \<longrightarrow> distinct ds)" "card (dom g) < n"
  shows "\<lbrakk>set vs \<subseteq> dom g; gray c = {}\<rbrakk> \<Longrightarrow> \<exists>c'. visit_all n strict g vs c = Some c'"
proof (induction vs arbitrary: c)
  case (Cons v vs)
  obtain c1 where "visit n strict g v c = Some c1" "gray c1 = {}"
    using visit_complete [OF assms(1-4), of v c n] Cons.prems assms(5) by auto
  with Cons show ?case by simp
qed simp

lemma visit_all_iff:
  assumes "dom g = set vs" and "length vs < n"
  shows "visit_all n True g vs no_color \<noteq> None \<longleftrightarrow> graph_ok g"
proof
  assume "visit_all n True g vs no_color \<noteq> None"
  then show "graph_ok g" using visit_all_sound(2) assms(1) by auto
next
  assume ok: "graph_ok g"
  have "card (dom g) < n"
    using assms card_length [of vs] by simp
  then show "visit_all n True g vs no_color \<noteq> None"
    using visit_all_complete [of g True n vs no_color] ok assms(1)
    by (auto simp: graph_ok_def closed_graph_def)
qed

lemma visit_all_steps_iff:
  assumes "dom g = set vs" and "length vs < n" and "closed_graph g"
  shows "visit_all n False g vs no_color \<noteq> None \<longleftrightarrow> acyclic (edges g)"
proof -
  have "card (dom g) < n"
    using assms card_length [of vs] by simp
  then show ?thesis
    using visit_all_complete [of g False n vs no_color] visit_all_sound(1) [of n False g vs] assms
    by auto
qed

section \<open>Goal validation\<close>

definition task_deps :: "task list \<Rightarrow> deps" where
  "task_deps ts = map_of (map (\<lambda>t. (t_id t, t_depends_on t)) ts)"

text \<open>
  Model of \<open>validateGoalState\<close> and \<open>validateGoal\<close>: True is a nil error, False ErrInvalid. The
  visits range over a Go map in no fixed order; \<open>visit_all_iff\<close> shows that the answer does
  not depend on the order.
\<close>

definition validateGoalState :: "goal \<Rightarrow> bool \<Rightarrow> bool" where
  "validateGoalState g pendingCorrection \<longleftrightarrow>
     validCriteria g pendingCorrection \<and> g_id g \<noteq> [] \<and> g_person g \<noteq> [] \<and> g_agent g \<noteq> [] \<and>
     \<not> blank (g_done g) \<and> (g_service_target g = []) \<noteq> (g_no_service_reason g = []) \<and>
     (g_definition_pending g \<or> validServiceRepository g) \<and>
     list_all validStepWork (g_tasks g) \<and>
     distinct (map t_id (g_tasks g)) \<and>
     visit_all (Suc (length (g_tasks g))) True (task_deps (g_tasks g)) (map t_id (g_tasks g))
       no_color \<noteq> None"

definition validateGoal :: "goal \<Rightarrow> bool" where
  "validateGoal g = validateGoalState g False"

lemma dom_task_deps: "dom (task_deps ts) = set (map t_id ts)"
  by (simp add: task_deps_def dom_map_of_conv_image_fst image_image)

lemma validateGoalState_graph:
  "validateGoalState g p \<Longrightarrow> distinct (map t_id (g_tasks g)) \<and> graph_ok (task_deps (g_tasks g))"
  using visit_all_iff [OF dom_task_deps, of "g_tasks g" "Suc (length (g_tasks g))"]
  by (simp add: validateGoalState_def)

lemma task_deps_in:
  assumes "distinct (map t_id ts)" and "t \<in> set ts"
  shows "task_deps ts (t_id t) = Some (t_depends_on t)"
  using assms by (auto simp: task_deps_def o_def intro!: map_of_is_SomeI)

section \<open>Depth of a step\<close>

text \<open>
  The \<open>depth\<close> closure of Derive: the longest dependency chain below a step, remembered per
  goal in \<open>depths\<close>.
\<close>

fun depth_deps ::
  "(string \<Rightarrow> (string \<rightharpoonup> int) \<Rightarrow> int \<times> (string \<rightharpoonup> int)) \<Rightarrow> string list \<Rightarrow> int
     \<Rightarrow> (string \<rightharpoonup> int) \<Rightarrow> int \<times> (string \<rightharpoonup> int)" where
  "depth_deps rec [] n m = (n, m)"
| "depth_deps rec (d # ds) n m = (let (k, m') = rec d m in depth_deps rec ds (max n (1 + k)) m')"

primrec step_depth :: "nat \<Rightarrow> deps \<Rightarrow> string \<Rightarrow> (string \<rightharpoonup> int) \<Rightarrow> int \<times> (string \<rightharpoonup> int)" where
  "step_depth 0 g v m = (0, m)"
| "step_depth (Suc f) g v m =
     (case m v of
        Some n \<Rightarrow> (n, m)
      | None \<Rightarrow> let (n, m') = depth_deps (step_depth f g) (dep_list g v) 0 m in (n, m'(v \<mapsto> n)))"

text \<open>The depth of a step: there is a dependency chain of each length up to it, and none longer.\<close>

definition is_depth :: "deps \<Rightarrow> string \<Rightarrow> int \<Rightarrow> bool" where
  "is_depth g v r \<longleftrightarrow> 0 \<le> r \<and> (\<forall>k. int k \<le> r \<longleftrightarrow> (\<exists>d. (v, d) \<in> edges g ^^ k))"

definition depths_ok :: "deps \<Rightarrow> (string \<rightharpoonup> int) \<Rightarrow> bool" where
  "depths_ok g m \<longleftrightarrow> (\<forall>v r. m v = Some r \<longrightarrow> is_depth g v r)"

lemma depth_deps_ok:
  assumes "\<And>d m k m'. \<lbrakk>d \<in> set ds; depths_ok g m; rec d m = (k, m')\<rbrakk> \<Longrightarrow> is_depth g d k \<and> depths_ok g m'"
    and "depths_ok g m" and "depth_deps rec ds n m = (r, m')"
  shows "depths_ok g m' \<and> n \<le> r \<and>
         (\<forall>k. int (Suc k) \<le> r \<longleftrightarrow> int (Suc k) \<le> n \<or> (\<exists>d \<in> set ds. \<exists>e. (d, e) \<in> edges g ^^ k))"
  using assms
proof (induction ds arbitrary: n m)
  case (Cons d ds)
  obtain k1 m1 where r: "rec d m = (k1, m1)" by force
  have d: "is_depth g d k1" "depths_ok g m1"
    using Cons.prems(1) [OF _ Cons.prems(2) r] by auto
  have "depths_ok g m' \<and> max n (1 + k1) \<le> r \<and> (\<forall>k. int (Suc k) \<le> r \<longleftrightarrow>
      int (Suc k) \<le> max n (1 + k1) \<or> (\<exists>d \<in> set ds. \<exists>e. (d, e) \<in> edges g ^^ k))"
    using Cons.prems r by (intro Cons.IH [OF Cons.prems(1) d(2)]) auto
  moreover have "int (Suc k) \<le> max n (1 + k1) \<longleftrightarrow> int (Suc k) \<le> n \<or> (\<exists>e. (d, e) \<in> edges g ^^ k)" for k
    using d(1) unfolding is_depth_def by (auto simp: le_max_iff_disj)
  ultimately show ?case by auto
qed auto

lemma step_depth_ok:
  assumes "finite (dom g)" and "closed_graph g" and "acyclic (edges g)"
  shows "\<lbrakk>v \<in> dom g; P \<subseteq> dom g; \<forall>u \<in> P. (u, v) \<in> (edges g)\<^sup>+; card (dom g - P) < n; depths_ok g m;
          step_depth n g v m = (r, m')\<rbrakk> \<Longrightarrow> is_depth g v r \<and> depths_ok g m'"
proof (induction n arbitrary: v P m r m')
  case (Suc n)
  show ?case
  proof (cases "m v")
    case (Some k)
    with Suc.prems(5,6) show ?thesis by (auto simp: depths_ok_def)
  next
    case None
    obtain k m1 where d: "depth_deps (step_depth n g) (dep_list g v) 0 m = (k, m1)" by force
    have vP: "v \<notin> P" using Suc.prems(3) assms(3) by (auto simp: acyclic_def)
    have "card (dom g - insert v P) < card (dom g - P)"
      using Suc.prems(1) vP assms(1) by (intro psubset_card_mono) auto
    with Suc.prems(4) have less: "card (dom g - insert v P) < n" by simp
    have rec: "is_depth g w k2 \<and> depths_ok g m3"
      if w: "w \<in> set (dep_list g v)" and ok: "depths_ok g m2" and e: "step_depth n g w m2 = (k2, m3)"
      for w m2 k2 m3
    proof (rule Suc.IH [OF _ _ _ less ok e])
      have vw: "(v, w) \<in> edges g" using w by (simp add: edges_dep_list)
      then show "w \<in> dom g" using assms(2) by (auto simp: closed_graph_def edges_def)
      show "\<forall>u \<in> insert v P. (u, w) \<in> (edges g)\<^sup>+"
        using Suc.prems(3) vw by (auto intro: trancl_into_trancl)
    qed (use Suc.prems in auto)
    have c: "depths_ok g m1" "0 \<le> k"
      "\<And>j. int (Suc j) \<le> k \<longleftrightarrow> (\<exists>w \<in> set (dep_list g v). \<exists>e. (w, e) \<in> edges g ^^ j)"
      using depth_deps_ok [where rec = "step_depth n g", OF rec Suc.prems(5) d] by auto
    have "int j \<le> k \<longleftrightarrow> (\<exists>e. (v, e) \<in> edges g ^^ j)" for j
    proof (cases j)
      case (Suc i)
      have "(\<exists>e. (v, e) \<in> edges g ^^ Suc i) \<longleftrightarrow> (\<exists>w. (v, w) \<in> edges g \<and> (\<exists>e. (w, e) \<in> edges g ^^ i))"
        by (meson relpow_Suc_E2 relpow_Suc_I2)
      then show ?thesis
        using c(3) [of i] Suc by (auto simp: edges_dep_list)
    qed (use c(2) in simp)
    with c(2) have "is_depth g v k" by (simp add: is_depth_def)
    moreover have "r = k" "m' = m1(v \<mapsto> k)" using d None Suc.prems(6) by auto
    ultimately show ?thesis using c(1) by (simp add: depths_ok_def)
  qed
qed simp

section \<open>Reachability with a memory\<close>

text \<open>
  The \<open>depends\<close> closure of validateSteps. The memory holds None for a pair not checked yet
  and \<open>Some b\<close> for a checked one with \<open>reach\<close> equal to \<open>b\<close>.
\<close>

type_synonym reach_memo = "string \<times> string \<Rightarrow> bool option"

fun depends_any ::
  "(string \<Rightarrow> reach_memo \<Rightarrow> bool \<times> reach_memo) \<Rightarrow> string \<Rightarrow> string list \<Rightarrow> reach_memo
     \<Rightarrow> bool \<times> reach_memo" where
  "depends_any rec anc [] m = (False, m)"
| "depends_any rec anc (d # ds) m =
     (if d = anc then (True, m)
      else let (b, m') = rec d m in if b then (True, m') else depends_any rec anc ds m')"

primrec depends :: "nat \<Rightarrow> deps \<Rightarrow> string \<Rightarrow> string \<Rightarrow> reach_memo \<Rightarrow> bool \<times> reach_memo" where
  "depends 0 g anc v m = (False, m)"
| "depends (Suc f) g anc v m =
     (case m (v, anc) of
        Some b \<Rightarrow> (b, m)
      | None \<Rightarrow>
          let (b, m') = depends_any (depends f g anc) anc (dep_list g v) (m((v, anc) := Some False))
          in (b, if b then m'((v, anc) := Some True) else m'))"

text \<open>Checked pairs hold the truth, except those of the steps on the open path.\<close>

definition memo_ok :: "deps \<Rightarrow> string \<Rightarrow> string set \<Rightarrow> reach_memo \<Rightarrow> bool" where
  "memo_ok g anc P m \<longleftrightarrow>
     (\<forall>u a b. m (u, a) = Some b \<longrightarrow> u \<in> P \<and> a = anc \<or> b = ((u, a) \<in> (edges g)\<^sup>+))"

definition keeps :: "reach_memo \<Rightarrow> reach_memo \<Rightarrow> bool" where
  "keeps m m' \<longleftrightarrow> (\<forall>p b. m p = Some b \<longrightarrow> m' p = Some b)"

lemma keeps_refl [simp]: "keeps m m"
  by (simp add: keeps_def)

lemma keeps_trans: "\<lbrakk>keeps a b; keeps b c\<rbrakk> \<Longrightarrow> keeps a c"
  by (simp add: keeps_def)

lemma depends_any_correct:
  assumes "\<And>d m b m'. \<lbrakk>d \<in> set ds; memo_ok g anc P m; rec d m = (b, m')\<rbrakk>
             \<Longrightarrow> b = ((d, anc) \<in> (edges g)\<^sup>+) \<and> memo_ok g anc P m' \<and> keeps m m'"
    and "memo_ok g anc P m" and "depends_any rec anc ds m = (b, m')"
  shows "b = (\<exists>d \<in> set ds. d = anc \<or> (d, anc) \<in> (edges g)\<^sup>+) \<and> memo_ok g anc P m' \<and> keeps m m'"
  using assms
proof (induction ds arbitrary: m)
  case (Cons d ds)
  show ?case
  proof (cases "d = anc")
    case True
    with Cons.prems show ?thesis by auto
  next
    case False
    obtain b1 m1 where r: "rec d m = (b1, m1)" by force
    have c: "b1 = ((d, anc) \<in> (edges g)\<^sup>+)" "memo_ok g anc P m1" "keeps m m1"
      using Cons.prems(1) [OF _ Cons.prems(2) r] by simp_all
    show ?thesis
    proof (cases b1)
      case True
      with r c False Cons.prems(3) show ?thesis by auto
    next
      case nb: False
      have "b = (\<exists>d \<in> set ds. d = anc \<or> (d, anc) \<in> (edges g)\<^sup>+) \<and> memo_ok g anc P m' \<and> keeps m1 m'"
        using nb r False Cons.prems(3) by (intro Cons.IH [OF Cons.prems(1) c(2)]) auto
      with c nb False show ?thesis by (auto intro: keeps_trans)
    qed
  qed
qed auto

lemma depends_correct:
  assumes "finite (dom g)" and "closed_graph g" and "acyclic (edges g)"
  shows "\<lbrakk>v \<in> dom g; P \<subseteq> dom g; \<forall>u \<in> P. (u, v) \<in> (edges g)\<^sup>+; card (dom g - P) < n;
          memo_ok g anc P m; depends n g anc v m = (b, m')\<rbrakk>
         \<Longrightarrow> b = ((v, anc) \<in> (edges g)\<^sup>+) \<and> memo_ok g anc P m' \<and> keeps m m'"
proof (induction n arbitrary: v P m b m')
  case (Suc n)
  have vP: "v \<notin> P"
    using Suc.prems(3) assms(3) by (auto simp: acyclic_def)
  show ?case
  proof (cases "m (v, anc)")
    case (Some b1)
    then have "b1 = ((v, anc) \<in> (edges g)\<^sup>+)"
      using Suc.prems(5) vP by (auto simp: memo_ok_def)
    with Some Suc.prems(5,6) show ?thesis by simp
  next
    case None
    let ?P = "insert v P" and ?m = "m((v, anc) := Some False)"
    obtain b1 m1 where r: "depends_any (depends n g anc) anc (dep_list g v) ?m = (b1, m1)"
      by force
    have "card (dom g - ?P) < card (dom g - P)"
      using Suc.prems(1) vP assms(1) by (intro psubset_card_mono) auto
    with Suc.prems(4) have less: "card (dom g - ?P) < n" by simp
    have ok: "memo_ok g anc ?P ?m"
      using Suc.prems(5) by (auto simp: memo_ok_def)
    have rec: "b2 = ((d, anc) \<in> (edges g)\<^sup>+) \<and> memo_ok g anc ?P m3 \<and> keeps m2 m3"
      if d: "d \<in> set (dep_list g v)" and ok: "memo_ok g anc ?P m2" and e: "depends n g anc d m2 = (b2, m3)"
      for d m2 b2 m3
    proof (rule Suc.IH [OF _ _ _ less ok e])
      have vd: "(v, d) \<in> edges g" using d by (simp add: edges_dep_list)
      then show "d \<in> dom g" using assms(2) by (auto simp: closed_graph_def edges_def)
      show "\<forall>u \<in> ?P. (u, d) \<in> (edges g)\<^sup>+"
        using Suc.prems(3) vd by (auto intro: trancl_into_trancl)
    qed (use Suc.prems in auto)
    have c: "b1 = (\<exists>d \<in> set (dep_list g v). d = anc \<or> (d, anc) \<in> (edges g)\<^sup>+)"
      "memo_ok g anc ?P m1" "keeps ?m m1"
      using depends_any_correct [where rec = "depends n g anc", OF rec ok r] by blast+
    have "((v, anc) \<in> (edges g)\<^sup>+) = (\<exists>d. (v, d) \<in> edges g \<and> (d, anc) \<in> (edges g)\<^sup>*)"
      by (meson rtrancl_into_trancl2 tranclD)
    then have eq: "((v, anc) \<in> (edges g)\<^sup>+) = b1"
      unfolding c(1) edges_dep_list rtrancl_eq_or_trancl by blast
    have res: "b = b1" "m' = (if b1 then m1((v, anc) := Some True) else m1)"
      using Suc.prems(6) None r by auto
    have "m' (v, anc) = Some b1"
      using c(3) res(2) by (auto simp: keeps_def)
    moreover have "m' p = m1 p" if "p \<noteq> (v, anc)" for p
      using res(2) that by simp
    ultimately have "memo_ok g anc P m'"
      using c(2) eq unfolding memo_ok_def by (metis insertE option.inject prod.inject)
    moreover have "keeps m m'"
      unfolding keeps_def
    proof (intro allI impI)
      fix p x
      assume "m p = Some x"
      with None have "p \<noteq> (v, anc)" by auto
      with \<open>m p = Some x\<close> have "?m p = Some x" by simp
      with c(3) have "m1 p = Some x" unfolding keeps_def by blast
      with res(2) \<open>p \<noteq> (v, anc)\<close> show "m' p = Some x" by simp
    qed
    ultimately show ?thesis using eq res(1) by simp
  qed
qed simp

text \<open>With no open step the memory holds only true answers, for every ancestor.\<close>

definition memo_true :: "deps \<Rightarrow> reach_memo \<Rightarrow> bool" where
  "memo_true g m \<longleftrightarrow> (\<forall>u a b. m (u, a) = Some b \<longrightarrow> b = ((u, a) \<in> (edges g)\<^sup>+))"

lemma depends_top:
  assumes "finite (dom g)" "closed_graph g" "acyclic (edges g)" "v \<in> dom g" "card (dom g) < n"
    and "memo_true g m"
  shows "fst (depends n g anc v m) = ((v, anc) \<in> (edges g)\<^sup>+) \<and> memo_true g (snd (depends n g anc v m))"
proof -
  have "memo_ok g anc {} m" using assms(6) by (simp add: memo_ok_def memo_true_def)
  then have "fst (depends n g anc v m) = ((v, anc) \<in> (edges g)\<^sup>+) \<and>
      memo_ok g anc {} (snd (depends n g anc v m))"
    using depends_correct [OF assms(1-4), of "{}" n anc m] assms(5) by (metis Diff_empty empty_subsetI equals0D prod.collapse)
  then show ?thesis by (auto simp: memo_ok_def memo_true_def)
qed

section \<open>Step graphs\<close>

datatype graph_error =
    GraphInvalid | GraphCycle | GraphUnknownStep | GraphInvalidArea | GraphInvalidName
  | GraphStartedStep | GraphStaleRevision | GraphUnavailable

text \<open>Model of \<open>Step.task\<close>, \<open>graphFor\<close> and \<open>graphOwner\<close>.\<close>

definition step_task :: "step \<Rightarrow> task" where
  "step_task s = zero_task\<lparr>t_kind := s_kind s, t_background := s_background s, t_wait := s_wait s,
     t_id := s_id s, t_name := s_name s, t_done := s_done s, t_repository := s_repository s,
     t_base := s_base s, t_area := s_area s,
     t_worker := (if stepKind (s_kind s) = BackgroundStep then ''background'' else s_worker s),
     t_resources := s_resources s, t_depends_on := s_depends_on s, t_stage := TaskReady\<rparr>"

definition graphFor :: "goal \<Rightarrow> step_graph" where
  "graphFor g =
     (case g_step_graph g of
        Some sg \<Rightarrow> sg
      | None \<Rightarrow> \<lparr>sg_goal_id = g_id g, sg_revision = 0, sg_steps = []\<rparr>)"

definition graphOwner :: "goal \<Rightarrow> string \<Rightarrow> string \<Rightarrow> string \<Rightarrow> bool" where
  "graphOwner g person agent conversation \<longleftrightarrow>
     person \<noteq> [] \<and> agent \<noteq> [] \<and> g_person g = person \<and> g_agent g = agent \<and>
     g_conversation g = conversation"

text \<open>The phases of \<open>validateSteps\<close>, in the order of the code; None is a nil error.\<close>

definition forbidden_names :: "goal \<Rightarrow> step list \<Rightarrow> string list" where
  "forbidden_names g steps =
     [g_id g, g_record_id g, ''foundation'']
     @ concat (map (\<lambda>c. [c_id c, ck_method (c_check c)]) (g_criteria g))
     @ concat (map (\<lambda>s. [s_id s, s_base s]) steps)"

fun check_ids :: "step list \<Rightarrow> string list \<Rightarrow> graph_error option" where
  "check_ids [] seen = None"
| "check_ids (s # ss) seen =
     (if blank (s_id s) \<or> 128 < length (s_id s) \<or> contains_any (s_id s) [CHR 0x00, CHR 0x0D, CHR 0x0A]
      then Some GraphInvalid
      else if s_id s \<in> set seen then Some GraphUnknownStep
      else check_ids ss (s_id s # seen))"

fun check_deps :: "string list \<Rightarrow> string list \<Rightarrow> string list \<Rightarrow> bool" where
  "check_deps ids [] seen = True"
| "check_deps ids (d # ds) seen = (d \<in> set ids \<and> d \<notin> set seen \<and> check_deps ids ds (d # seen))"

definition step_areas :: "step \<Rightarrow> string list" where
  "step_areas s =
     (if stepKind (s_kind s) = WaitStep \<or> s_area s = [] \<and> stepKind (s_kind s) = BackgroundStep then []
      else map trim_space (split_on (CHR '','') (s_area s)))"

definition check_step :: "host \<Rightarrow> string list \<Rightarrow> string list \<Rightarrow> step \<Rightarrow> graph_error option" where
  "check_step h forbidden ids s =
     (if \<not> h_step_name h (s_name s) forbidden then Some GraphInvalidName
      else if 256 < length (s_depends_on s) then Some GraphInvalid
      else if \<not> check_deps ids (s_depends_on s) [] then Some GraphUnknownStep
      else if stepKind (s_kind s) = WaitStep \<and> s_area s \<noteq> [] then Some GraphInvalidArea
      else if step_areas s = [] then None
      else if 64 < length (step_areas s) then Some GraphInvalidArea
      else if h_areas h (step_areas s) (step_areas s) = None then Some GraphInvalidArea
      else None)"

fun check_steps :: "host \<Rightarrow> string list \<Rightarrow> string list \<Rightarrow> step list \<Rightarrow> graph_error option" where
  "check_steps h forbidden ids [] = None"
| "check_steps h forbidden ids (s # ss) =
     (case check_step h forbidden ids s of
        Some e \<Rightarrow> Some e | None \<Rightarrow> check_steps h forbidden ids ss)"

definition step_deps :: "step list \<Rightarrow> deps" where
  "step_deps steps = map_of (map (\<lambda>s. (s_id s, s_depends_on s)) steps)"

text \<open>The pair loop: the answer and the memory of \<open>depends\<close> after the pair (a, b).\<close>

definition check_pair ::
  "host \<Rightarrow> nat \<Rightarrow> deps \<Rightarrow> step \<Rightarrow> step \<Rightarrow> reach_memo \<Rightarrow> bool \<times> reach_memo" where
  "check_pair h n g a b m =
     (if step_areas a = [] \<or> step_areas b = [] \<or> s_repository a \<noteq> s_repository b then (True, m)
      else let (ab, m1) = depends n g (s_id b) (s_id a) m
           in if ab then (True, m1)
              else let (ba, m2) = depends n g (s_id a) (s_id b) m1
                   in if ba then (True, m2)
                      else (h_areas h (step_areas a) (step_areas b) = Some False, m2))"

fun check_later :: "host \<Rightarrow> nat \<Rightarrow> deps \<Rightarrow> step \<Rightarrow> step list \<Rightarrow> reach_memo \<Rightarrow> bool \<times> reach_memo" where
  "check_later h n g a [] m = (True, m)"
| "check_later h n g a (b # bs) m =
     (let (ok, m1) = check_pair h n g a b m
      in if ok then check_later h n g a bs m1 else (False, m1))"

fun check_areas :: "host \<Rightarrow> nat \<Rightarrow> deps \<Rightarrow> step list \<Rightarrow> reach_memo \<Rightarrow> bool \<times> reach_memo" where
  "check_areas h n g [] m = (True, m)"
| "check_areas h n g (a # ss) m =
     (let (ok, m1) = check_later h n g a ss m
      in if ok then check_areas h n g ss m1 else (False, m1))"

definition proposed_goal :: "goal \<Rightarrow> step list \<Rightarrow> goal" where
  "proposed_goal g steps =
     (let p = g\<lparr>g_tasks := map step_task steps\<rparr> in p\<lparr>g_criteria := goalCriteria p\<rparr>)"

definition validateSteps :: "host \<Rightarrow> goal \<Rightarrow> step list \<Rightarrow> graph_error option" where
  "validateSteps h g steps =
     (if steps = [] \<or> 256 < length steps then Some GraphInvalid
      else case check_ids steps [] of
        Some e \<Rightarrow> Some e
      | None \<Rightarrow>
          case check_steps h (forbidden_names g steps) (map s_id steps) steps of
            Some e \<Rightarrow> Some e
          | None \<Rightarrow>
              let n = Suc (length steps); deps = step_deps steps
              in if visit_all n False deps (map s_id steps) no_color = None then Some GraphCycle
                 else if \<not> fst (check_areas h n deps steps (\<lambda>_. None)) then Some GraphInvalidArea
                 else if \<not> validateGoal (proposed_goal g steps) then Some GraphInvalid
                 else None)"

section \<open>What an accepted graph guarantees\<close>

lemma check_ids_distinct:
  "check_ids ss seen = None \<Longrightarrow> distinct (map s_id ss) \<and> s_id ` set ss \<inter> set seen = {}"
proof (induction ss arbitrary: seen)
  case (Cons s ss)
  then have "check_ids ss (s_id s # seen) = None" "s_id s \<notin> set seen"
    by (auto split: if_splits)
  with Cons.IH [of "s_id s # seen"] show ?case by auto
qed simp

lemma check_deps_ok:
  "check_deps ids ds seen \<Longrightarrow> set ds \<subseteq> set ids \<and> distinct ds \<and> set ds \<inter> set seen = {}"
  by (induction ds arbitrary: seen) fastforce+

lemma check_steps_ok:
  "check_steps h f ids ss = None \<Longrightarrow> s \<in> set ss \<Longrightarrow> check_step h f ids s = None"
  by (induction ss) (auto split: option.splits)

lemma check_step_deps:
  "check_step h f ids s = None \<Longrightarrow> set (s_depends_on s) \<subseteq> set ids \<and> distinct (s_depends_on s)"
  by (auto simp: check_step_def dest: check_deps_ok split: if_splits)

text \<open>Two steps are ordered when one reaches the other through dependencies.\<close>

definition ordered_steps :: "step list \<Rightarrow> step \<Rightarrow> step \<Rightarrow> bool" where
  "ordered_steps steps a b \<longleftrightarrow>
     (s_id a, s_id b) \<in> (edges (step_deps steps))\<^sup>+ \<or> (s_id b, s_id a) \<in> (edges (step_deps steps))\<^sup>+"

text \<open>Two steps may run at once: they share no repository or their areas are disjoint.\<close>

definition separate_steps :: "host \<Rightarrow> step \<Rightarrow> step \<Rightarrow> bool" where
  "separate_steps h a b \<longleftrightarrow>
     step_areas a = [] \<or> step_areas b = [] \<or> s_repository a \<noteq> s_repository b \<or>
     h_areas h (step_areas a) (step_areas b) = Some False"

lemma dom_step_deps: "dom (step_deps steps) = set (map s_id steps)"
  by (simp add: step_deps_def dom_map_of_conv_image_fst image_image)

lemma check_areas_ok:
  assumes g: "finite (dom (step_deps steps))" "closed_graph (step_deps steps)"
      "acyclic (edges (step_deps steps))" "card (dom (step_deps steps)) < n"
    and "set ss \<subseteq> set steps" and "memo_true (step_deps steps) m"
    and "fst (check_areas h n (step_deps steps) ss m)"
  shows "sorted_wrt (\<lambda>a b. ordered_steps steps a b \<or> separate_steps h a b) ss"
proof -
  let ?g = "step_deps steps" and ?R = "\<lambda>a b. ordered_steps steps a b \<or> separate_steps h a b"
  have dom: "s_id s \<in> dom ?g" if "s \<in> set steps" for s
    using that by (simp add: dom_step_deps)
  have pair: "(ok \<longrightarrow> ?R a b) \<and> memo_true ?g m'"
    if ab: "a \<in> set steps" "b \<in> set steps" and m: "memo_true ?g m"
      and r: "check_pair h n ?g a b m = (ok, m')" for a b m m' ok
  proof -
    note d1 = depends_top [OF g(1-3) dom [OF ab(1)] g(4) m, of "s_id b"]
    define m1 where "m1 = snd (depends n ?g (s_id b) (s_id a) m)"
    have m1: "memo_true ?g m1" using d1 by (simp add: m1_def)
    note d2 = depends_top [OF g(1-3) dom [OF ab(2)] g(4) m1, of "s_id a"]
    show ?thesis
      using r d1 d2 m unfolding check_pair_def ordered_steps_def separate_steps_def m1_def
      by (auto split: if_splits prod.splits)
  qed
  have later: "(ok \<longrightarrow> (\<forall>b \<in> set bs. ?R a b)) \<and> memo_true ?g m'"
    if "a \<in> set steps" "set bs \<subseteq> set steps" "memo_true ?g m"
      "check_later h n ?g a bs m = (ok, m')" for a bs m m' ok
    using that
  proof (induction bs arbitrary: m)
    case (Cons b bs)
    obtain o1 m1 where p: "check_pair h n ?g a b m = (o1, m1)" by force
    have "(o1 \<longrightarrow> ?R a b) \<and> memo_true ?g m1"
      using Cons.prems by (intro pair [OF _ _ _ p]) auto
    with Cons p show ?case by (auto split: if_splits)
  qed auto
  show ?thesis
    using assms(5-7)
  proof (induction ss arbitrary: m)
    case (Cons a ss)
    obtain o1 m1 where l: "check_later h n ?g a ss m = (o1, m1)" by force
    have "(o1 \<longrightarrow> (\<forall>b \<in> set ss. ?R a b)) \<and> memo_true ?g m1"
      using Cons.prems by (intro later [OF _ _ _ l]) auto
    with Cons l show ?case by (auto split: if_splits)
  qed simp
qed

lemma step_deps_in:
  assumes "distinct (map s_id steps)" and "s \<in> set steps"
  shows "step_deps steps (s_id s) = Some (s_depends_on s)"
  using assms by (auto simp: step_deps_def o_def intro!: map_of_is_SomeI)

lemma step_deps_SomeD:
  "step_deps steps v = Some ds \<Longrightarrow> \<exists>s \<in> set steps. v = s_id s \<and> ds = s_depends_on s"
  unfolding step_deps_def by (drule map_of_SomeD) auto

lemma validateSteps_facts:
  assumes "validateSteps h g steps = None"
  shows "distinct (map s_id steps)" "graph_ok (step_deps steps)"
    "sorted_wrt (\<lambda>a b. ordered_steps steps a b \<or> separate_steps h a b) steps"
    "validateGoal (proposed_goal g steps)"
proof -
  let ?g = "step_deps steps" and ?n = "Suc (length steps)"
  have parts: "check_ids steps [] = None"
    "check_steps h (forbidden_names g steps) (map s_id steps) steps = None"
    "visit_all ?n False ?g (map s_id steps) no_color \<noteq> None"
    "fst (check_areas h ?n ?g steps (\<lambda>_. None))" "validateGoal (proposed_goal g steps)"
    using assms by (simp_all add: validateSteps_def Let_def split: if_splits option.splits)
  show "distinct (map s_id steps)" and "validateGoal (proposed_goal g steps)"
    using check_ids_distinct [OF parts(1)] parts(5) by auto
  have dom: "dom ?g = set (map s_id steps)"
    by (rule dom_step_deps)
  have ds: "set ds \<subseteq> dom ?g \<and> distinct ds" if "?g v = Some ds" for v ds
    using step_deps_SomeD [OF that] check_step_deps [OF check_steps_ok [OF parts(2)]] dom by auto
  then have closed: "closed_graph ?g" by (auto simp: closed_graph_def)
  have acyc: "acyclic (edges ?g)"
    using visit_all_steps_iff [OF dom _ closed, of ?n] parts(3) by simp
  with ds show "graph_ok ?g" by (auto simp: graph_ok_def)
  have "card (dom ?g) < ?n"
    unfolding dom using card_length [of "map s_id steps"] by simp
  then show "sorted_wrt (\<lambda>a b. ordered_steps steps a b \<or> separate_steps h a b) steps"
    using parts(4) closed acyc dom by (intro check_areas_ok [of _ ?n]) (auto simp: memo_true_def)
qed

section \<open>Comparing step definitions\<close>

text \<open>Model of \<open>sameTaskDefinition\<close> (revisions.go) and \<open>sameStepWork\<close>.\<close>

definition sameTaskDefinition :: "task \<Rightarrow> task \<Rightarrow> bool" where
  "sameTaskDefinition a b \<longleftrightarrow>
     stepKind (t_kind a) = stepKind (t_kind b) \<and> t_background a = t_background b \<and>
     t_wait a = t_wait b \<and> t_id a = t_id b \<and> t_done a = t_done b \<and>
     t_repository a = t_repository b \<and> t_base a = t_base b \<and> t_area a = t_area b \<and>
     t_worker a = t_worker b \<and> resources_eq (t_resources a) (t_resources b) \<and>
     t_repairs a = t_repairs b \<and> sort (t_depends_on a) = sort (t_depends_on b)"

definition sameStepWork :: "task \<Rightarrow> step \<Rightarrow> bool" where
  "sameStepWork old s = sameTaskDefinition old ((step_task s)\<lparr>t_repairs := t_repairs old\<rparr>)"

end
