(* ===== verification/GoalSlots.thy ===== *)
theory GoalSlots
  imports GoalCriteria
begin

text \<open>
  Placement capacity and the run limit of a person: Slots (next.go) and run\_limit.go.
  Processor shares are binary64 values with Go's rounding; memory and disk are 64-bit
  integers whose sums wrap.
\<close>

section \<open>Slots\<close>

text \<open>The report of a host is usable for a request: the first guard of \<open>Slots\<close>.\<close>

definition usable_report :: "node \<Rightarrow> resources \<Rightarrow> int \<Rightarrow> bool" where
  "usable_report n request now \<longleftrightarrow>
     validResources request \<and> n_connected n \<and> \<not> n_yielding n \<and> 0 < n_observed_at n \<and>
     n_observed_at n \<le> now \<and> wrap64 (now - n_observed_at n) \<le> safety_sweep \<and>
     f_finite (n_cpu_cores n) \<and> f_finite (n_cpu_limit n) \<and> f_finite (n_load_cpu n) \<and>
     \<not> f_le (n_cpu_cores n) f_zero \<and> \<not> f_le (n_cpu_limit n) f_zero \<and>
     \<not> f_less (n_load_cpu n) f_zero \<and>
     0 \<le> n_available_memory_mb n \<and> 0 < n_memory_limit_mb n \<and>
     0 < n_available_disk_mb n \<and> 0 < n_disk_limit_mb n"

definition add_resources :: "resources \<Rightarrow> resources \<Rightarrow> resources" where
  "add_resources a b =
     \<lparr>r_cpu = f_add (r_cpu a) (r_cpu b),
      r_memory_mb = wrap64 (r_memory_mb a + r_memory_mb b),
      r_disk_mb = wrap64 (r_disk_mb a + r_disk_mb b)\<rparr>"

definition observed_on :: "node \<Rightarrow> action \<Rightarrow> bool" where
  "observed_on n a \<longleftrightarrow>
     has (n_observed_actions n) (a_id a) \<or>
     a_observe_action_id a \<noteq> [] \<and> has (n_observed_actions n) (a_observe_action_id a)"

text \<open>The loop of \<open>Slots\<close>: reserved and pending totals, None where it returns 0.\<close>

fun usage :: "node \<Rightarrow> action list \<Rightarrow> resources \<Rightarrow> resources \<Rightarrow> (resources \<times> resources) option" where
  "usage n [] reserved pend = Some (reserved, pend)"
| "usage n (a # as) reserved pend =
     (if a_node_id a \<noteq> n_id n \<or> \<not> reserves a then usage n as reserved pend
      else if \<not> validResources (a_resources a) then None
      else usage n as (add_resources reserved (a_resources a))
             (if observed_on n a then pend else add_resources pend (a_resources a)))"

text \<open>Model of \<open>Slots\<close>.\<close>

definition Slots :: "node \<Rightarrow> action list \<Rightarrow> resources \<Rightarrow> int \<Rightarrow> int" where
  "Slots n as request now =
     (if \<not> usable_report n request now then 0
      else case usage n as zero_resources zero_resources of
        None \<Rightarrow> 0
      | Some (reserved, pend) \<Rightarrow>
          let cpu = f_min (f_sub (n_cpu_limit n) (r_cpu reserved))
                      (f_sub (f_sub (n_cpu_cores n) (n_load_cpu n)) (r_cpu pend));
              mem = min (wrap64 (n_memory_limit_mb n - r_memory_mb reserved))
                      (wrap64 (n_available_memory_mb n - r_memory_mb pend));
              disk = min (wrap64 (n_disk_limit_mb n - r_disk_mb reserved))
                       (wrap64 (n_available_disk_mb n - r_disk_mb pend))
          in if f_le cpu f_zero \<or> mem \<le> 0 \<or> disk \<le> 0 then 0
             else f_to_int (f_min (f_min (f_floor (f_div cpu (r_cpu request)))
                       (f_of_int (quot mem (r_memory_mb request))))
                     (f_of_int (quot disk (r_disk_mb request)))))"

section \<open>What a free slot means\<close>

text \<open>The reservations a host carries.\<close>

definition carried :: "node \<Rightarrow> action list \<Rightarrow> action list" where
  "carried n as = filter (\<lambda>a. a_node_id a = n_id n \<and> reserves a) as"

definition memory_of :: "action list \<Rightarrow> int" where
  "memory_of as = sum_list (map (\<lambda>a. r_memory_mb (a_resources a)) as)"

definition disk_of :: "action list \<Rightarrow> int" where
  "disk_of as = sum_list (map (\<lambda>a. r_disk_mb (a_resources a)) as)"

lemma carried_Cons:
  "carried n (a # as) = (if a_node_id a = n_id n \<and> reserves a then a # carried n as else carried n as)"
  by (simp add: carried_def)

lemma carried_append [simp]: "carried n (as @ bs) = carried n as @ carried n bs"
  by (simp add: carried_def)

lemma memory_of_append [simp]: "memory_of (as @ bs) = memory_of as + memory_of bs"
  by (simp add: memory_of_def)

lemma memory_of_simps [simp]:
  "memory_of [] = 0" "memory_of (a # as) = r_memory_mb (a_resources a) + memory_of as"
  by (simp_all add: memory_of_def)

lemma disk_of_simps [simp]:
  "disk_of [] = 0" "disk_of (a # as) = r_disk_mb (a_resources a) + disk_of as"
  by (simp_all add: disk_of_def)

lemma wrap64_mod: "wrap64 x mod 2 ^ 64 = x mod 2 ^ 64"
  by (simp add: wrap64_def mod_diff_left_eq)

lemma wrap64_add_left: "wrap64 (wrap64 x + y) = wrap64 (x + y)"
  by (simp add: wrap64_def mod_simps ac_simps)

text \<open>The totals are the sums modulo the wrap-around, and every counted reservation is valid.\<close>

lemma usage_totals:
  "usage n as reserved pend = Some (r, p) \<Longrightarrow>
     wrap64 (r_memory_mb r) = wrap64 (r_memory_mb reserved + memory_of (carried n as)) \<and>
     wrap64 (r_disk_mb r) = wrap64 (r_disk_mb reserved + disk_of (carried n as)) \<and>
     (\<forall>a \<in> set (carried n as). validResources (a_resources a))"
proof (induction as arbitrary: reserved pend)
  case (Cons a as)
  show ?case
  proof (cases "a_node_id a = n_id n \<and> reserves a")
    case True
    then have "validResources (a_resources a)"
      and u: "usage n as (add_resources reserved (a_resources a))
        (if observed_on n a then pend else add_resources pend (a_resources a)) = Some (r, p)"
      using Cons.prems by (auto split: if_splits)
    with Cons.IH [OF u] True show ?thesis
      by (simp add: carried_Cons add_resources_def wrap64_add_left add.assoc)
  next
    case False
    with Cons show ?thesis by (auto simp: carried_Cons)
  qed
qed (simp add: carried_def)

lemma f_of_int_zero [simp]: "f_of_int 0 = FFin 0"
  by (simp add: f_of_int_def round_f64_def)

lemma f_to_int_min_pos:
  assumes "0 < f_to_int (f_min (f_min a (f_of_int x)) (f_of_int y))" and "0 \<le> x" and "0 \<le> y"
  shows "0 < x \<and> 0 < y"
proof -
  obtain r where r: "f_min (f_min a (f_of_int x)) (f_of_int y) = FFin r" "1 \<le> r"
    using f_to_int_pos [OF assms(1)] by blast
  then have "f_less (FFin 0) (f_min (f_min a (f_of_int x)) (f_of_int y))" by simp
  then have "f_less (FFin 0) (f_of_int x)" "f_less (FFin 0) (f_of_int y)"
    by (blast dest: f_min_less)+
  then show ?thesis using assms(2,3) by (cases "x = 0"; cases "y = 0") auto
qed

text \<open>
  A positive answer leaves room: with totals that do not wrap, the request fits under the
  installed caps beside every reservation the host already carries.
\<close>

lemma Slots_fits:
  assumes "0 < Slots n as request now"
    and "memory_of (carried n as) < 2 ^ 63" and "disk_of (carried n as) < 2 ^ 63"
    and "n_memory_limit_mb n < 2 ^ 63" and "n_disk_limit_mb n < 2 ^ 63"
  shows "memory_of (carried n as) + r_memory_mb request \<le> n_memory_limit_mb n \<and>
         disk_of (carried n as) + r_disk_mb request \<le> n_disk_limit_mb n"
proof -
  have usable: "usable_report n request now"
    using assms(1) by (auto simp: Slots_def split: if_splits)
  then have req: "0 < r_memory_mb request" "0 < r_disk_mb request"
    and lim: "0 < n_memory_limit_mb n" "0 < n_disk_limit_mb n"
    by (auto simp: usable_report_def validResources_def)
  obtain r p where u: "usage n as zero_resources zero_resources = Some (r, p)"
    using assms(1) usable by (auto simp: Slots_def split: option.splits)
  let ?mem = "min (wrap64 (n_memory_limit_mb n - r_memory_mb r)) (wrap64 (n_available_memory_mb n - r_memory_mb p))"
  let ?disk = "min (wrap64 (n_disk_limit_mb n - r_disk_mb r)) (wrap64 (n_available_disk_mb n - r_disk_mb p))"
  have pos: "0 < ?mem" "0 < ?disk"
    using assms(1) usable u by (auto simp: Slots_def Let_def split: if_splits)
  have q: "quot ?mem (r_memory_mb request) = ?mem div r_memory_mb request"
    "quot ?disk (r_disk_mb request) = ?disk div r_disk_mb request"
    using pos req by (intro quot_nonneg; simp)+
  have nn: "0 \<le> ?mem div r_memory_mb request" "0 \<le> ?disk div r_disk_mb request"
    using pos req by (simp_all only: pos_imp_zdiv_nonneg_iff order_less_imp_le)
  obtain c where "Slots n as request now =
      f_to_int (f_min (f_min c (f_of_int (?mem div r_memory_mb request))) (f_of_int (?disk div r_disk_mb request)))"
    using assms(1) usable u by (auto simp: Slots_def Let_def q split: if_splits)
  then have "0 < ?mem div r_memory_mb request \<and> 0 < ?disk div r_disk_mb request"
    using assms(1) nn by (intro f_to_int_min_pos) auto
  then have "r_memory_mb request \<le> ?mem \<and> r_disk_mb request \<le> ?disk"
    using req by (simp only: pos_imp_zdiv_pos_iff)
  then have le: "r_memory_mb request \<le> wrap64 (n_memory_limit_mb n - r_memory_mb r)"
    "r_disk_mb request \<le> wrap64 (n_disk_limit_mb n - r_disk_mb r)" by auto
  note tot = usage_totals [OF u]
  have nonneg: "0 \<le> memory_of (carried n as)" "0 \<le> disk_of (carried n as)"
    unfolding memory_of_def disk_of_def using tot
    by (force intro!: sum_list_nonneg simp: validResources_def)+
  have diff: "wrap64 (x - y) = wrap64 (x - z)" if "wrap64 y = wrap64 z" for x y z
  proof -
    have "y mod 2 ^ 64 = z mod 2 ^ 64" using that by (metis wrap64_mod)
    then have "(x + 2 ^ 63 - y) mod 2 ^ 64 = (x + 2 ^ 63 - z) mod 2 ^ 64" by (metis mod_diff_right_eq)
    then show ?thesis by (simp add: wrap64_def algebra_simps)
  qed
  have "wrap64 (n_memory_limit_mb n - r_memory_mb r) = n_memory_limit_mb n - memory_of (carried n as)"
    using diff [of "r_memory_mb r" "memory_of (carried n as)" "n_memory_limit_mb n"] tot nonneg assms(2,4) lim
    by (simp add: zero_resources_def wrap64_id in_int64_def)
  moreover have "wrap64 (n_disk_limit_mb n - r_disk_mb r) = n_disk_limit_mb n - disk_of (carried n as)"
    using diff [of "r_disk_mb r" "disk_of (carried n as)" "n_disk_limit_mb n"] tot nonneg assms(3,5) lim
    by (simp add: zero_resources_def wrap64_id in_int64_def)
  ultimately show ?thesis using le by simp
qed

text \<open>A host that is gone, yielding or stale offers nothing.\<close>

lemma Slots_usable: "0 < Slots n as request now \<Longrightarrow> usable_report n request now"
  by (auto simp: Slots_def split: if_splits)

section \<open>Run limits\<close>

text \<open>Model of \<open>stepResources\<close>, \<open>CarriedSlots\<close> and \<open>runLimitFor\<close>.\<close>

definition stepResources :: resources where
  "stepResources = \<lparr>r_cpu = FFin 1, r_memory_mb = 1, r_disk_mb = 1\<rparr>"

definition CarriedSlots :: "node list \<Rightarrow> int \<Rightarrow> int \<times> bool" where
  "CarriedSlots nodes now =
     fold (\<lambda>n (slots, quotaBlocked).
             let carried = Slots n [] stepResources now
             in if carried \<le> 0 then (slots, quotaBlocked)
                else if \<not> list_ex (\<lambda>w. mget 0 (n_quota_reset n) (fst w) \<le> now) (n_workers n)
                then (slots, True)
                else (wrap64 (slots + carried), quotaBlocked))
       nodes (0, False)"

definition reason_slot :: string where "reason_slot = ''slot''"
definition reason_quota :: string where "reason_quota = ''quota''"
definition reason_load :: string where "reason_load = ''load''"

definition runLimitFor :: "run_limit \<Rightarrow> node list \<Rightarrow> int \<Rightarrow> int \<Rightarrow> limit_state" where
  "runLimitFor choice nodes now running =
     (if \<not> rl_automatic choice \<and> 0 < rl_value choice
      then \<lparr>ls_reason = reason_slot, ls_current = rl_value choice, ls_automatic = False\<rparr>
      else let (carried, quotaBlocked) = CarriedSlots nodes now
           in \<lparr>ls_reason = (if quotaBlocked then reason_quota else reason_load),
               ls_current = max (wrap64 (running + carried)) 1, ls_automatic = True\<rparr>)"

text \<open>
  Model of \<open>inProgressGoals\<close>: per person, the goals whose worker step holds a run slot. The
  inner map of the code is used as a set, and its length is read: a list without repetition.
\<close>

definition mark_goal :: "string \<Rightarrow> string \<Rightarrow> string list gomap \<Rightarrow> string list gomap" where
  "mark_goal person goal m =
     (let held = mget [] m person
      in mput person (if goal \<in> set held then held else held @ [goal]) m)"

definition inProgressGoals :: "action list \<Rightarrow> string gomap \<Rightarrow> string list gomap" where
  "inProgressGoals as personOf =
     fold (\<lambda>a out.
             if \<not> reserves a \<or> a_task_id a = [] then out
             else let person = mget [] personOf (a_goal_id a)
                  in if person = [] then out else mark_goal person (a_goal_id a) out)
       as []"

definition personOf :: "goal list \<Rightarrow> string gomap" where
  "personOf goals = fold (\<lambda>g m. mput (g_id g) (g_person g) m) goals []"

text \<open>Model of \<open>runLimitBlocks\<close>.\<close>

definition held_goals :: "state \<Rightarrow> string \<Rightarrow> string \<Rightarrow> string list" where
  "held_goals s person action =
     fold (\<lambda>a held.
             if a_id a = action \<or> a_state a = Finished \<or> a_task_id a = [] \<or>
                \<not> workerAction (a_kind a) \<or> stepKind (a_step_kind a) = WaitStep \<or>
                mget [] (personOf (st_goals s)) (a_goal_id a) \<noteq> person \<or> a_goal_id a \<in> set held
             then held else held @ [a_goal_id a])
       (st_actions s) []"

definition runLimitBlocks :: "state \<Rightarrow> string \<Rightarrow> string \<Rightarrow> string \<Rightarrow> int \<Rightarrow> bool" where
  "runLimitBlocks s person goalID action now =
     (if person = [] \<or> goalID = [] then False
      else let held = held_goals s person action
           in if goalID \<in> set held then False
              else ls_current (runLimitFor (mget no_limit (st_limits s) person) (st_nodes s) now
                                 (int (length held))) \<le> int (length held))"

lemma runLimitFor_positive: "1 \<le> ls_current (runLimitFor choice nodes now running)"
  by (auto simp: runLimitFor_def split: prod.splits)

lemma mget_mark_goal:
  "mget [] (mark_goal p g m) q =
     (if q = p then (if g \<in> set (mget [] m p) then mget [] m p else mget [] m p @ [g]) else mget [] m q)"
  by (simp add: mark_goal_def Let_def go_map)

lemma mark_goal_distinct:
  "(\<And>q. distinct (mget [] m q)) \<Longrightarrow> distinct (mget [] (mark_goal p g m) q)"
  by (simp add: mget_mark_goal)

lemma inProgressGoals_distinct: "distinct (mget [] (inProgressGoals as pm) q)"
proof -
  have "\<forall>q. distinct (mget [] (inProgressGoals as pm) q)"
    unfolding inProgressGoals_def
    by (rule fold_invariant_in) (auto simp: Let_def mark_goal_distinct)
  then show ?thesis by simp
qed

end
