(* ===== verification/GoalWaits.thy ===== *)
theory GoalWaits
  imports GoalCriteria
begin

text \<open>
  Recorded outside waits (waits.go): which waits a plan may record, the one read a due wait
  queues, and what the result of a read does to the goal. Also the tests on a plan that
  decide whether a goal still has something to happen (the end of next.go).
\<close>

section \<open>Calendar dates\<close>

text \<open>
  \<open>time.Unix (u, 0).UTC ().Format (time.DateOnly)\<close>: the proleptic Gregorian date of the day,
  year of at least four digits, two-digit month and day.
\<close>

definition civil_date :: "int \<Rightarrow> int \<times> int \<times> int" where
  "civil_date u =
     (let z = u div 86400 + 719468;
          era = z div 146097;
          doe = z mod 146097;
          yoe = (doe - doe div 1460 + doe div 36524 - doe div 146096) div 365;
          doy = doe - (365 * yoe + yoe div 4 - yoe div 100);
          mp = (5 * doy + 2) div 153;
          d = doy - (153 * mp + 2) div 5 + 1;
          m = (if mp < 10 then mp + 3 else mp - 9)
      in (yoe + era * 400 + (if m \<le> 2 then 1 else 0), m, d))"

definition pad_left :: "nat \<Rightarrow> string \<Rightarrow> string" where
  "pad_left n s = replicate (n - length s) (CHR ''0'') @ s"

definition date_only :: "int \<Rightarrow> string" where
  "date_only u =
     (case civil_date u of
        (y, m, d) \<Rightarrow>
          (if y < 0 then CHR ''-'' # pad_left 4 (nat_decimal (nat (- y)))
           else pad_left 4 (nat_decimal (nat y)))
          @ CHR ''-'' # pad_left 2 (nat_decimal (nat m))
          @ CHR ''-'' # pad_left 2 (nat_decimal (nat d)))"

section \<open>Recording a wait\<close>

text \<open>Model of \<open>namedWait\<close> (next.go), \<open>queueClear\<close>, \<open>expiryWait\<close>, \<open>expiryRow\<close>.\<close>

definition namedWait :: "wait \<Rightarrow> bool" where
  "namedWait w \<longleftrightarrow> \<not> blank (w_reason w) \<and> \<not> blank (w_wake w) \<and> 0 < w_until w"

definition queueClear :: "wait \<Rightarrow> goal \<Rightarrow> goal" where
  "queueClear w g =
     (if w_todo_id w = [] \<or> list_ex (\<lambda>c. cw_todo_id c = w_todo_id w) (g_clear_todos g) then g
      else g\<lparr>g_clear_todos := g_clear_todos g @
               [\<lparr>cw_todo_id = w_todo_id w, cw_who = w_who w, cw_since = w_since w,
                 cw_next_check = w_next_check w\<rparr>]\<rparr>)"

definition expiryWait :: "wait \<Rightarrow> bool" where
  "expiryWait w \<longleftrightarrow> \<not> blank (w_recommendation w) \<and> \<not> blank (w_draft w)"

definition expiryRow :: "wait \<Rightarrow> string" where
  "expiryRow w = trim_space (w_recommendation w) @ [CHR 0x0A, CHR 0x0A] @ trim_space (w_draft w)"

text \<open>Model of \<open>validRecordedWait\<close>.\<close>

definition linked_wait :: "wait \<Rightarrow> bool" where
  "linked_wait w \<longleftrightarrow> w_todo_id w \<noteq> [] \<or> w_who w \<noteq> [] \<or> w_since w \<noteq> [] \<or> w_next_check w \<noteq> []"

definition validRecordedWait :: "wait \<Rightarrow> bool" where
  "validRecordedWait w \<longleftrightarrow>
     namedWait w \<and> (blank (w_recommendation w) \<longleftrightarrow> blank (w_draft w)) \<and>
     (linked_wait w \<longrightarrow>
        \<not> blank (w_todo_id w) \<and> \<not> blank (w_who w) \<and> \<not> blank (w_since w) \<and>
        w_next_check w = date_only (w_until w))"

text \<open>Model of \<open>plannedWaits\<close>: every recorded wake identity is used once.\<close>

fun check_wakes :: "wait list \<Rightarrow> string list \<Rightarrow> bool" where
  "check_wakes [] seen = True"
| "check_wakes (w # ws) seen =
     (validRecordedWait w \<and> w_wake w \<notin> set seen \<and> check_wakes ws (w_wake w # seen))"

definition plannedWaits :: "goal \<Rightarrow> observation \<Rightarrow> goal_error + wait list" where
  "plannedWaits g ob =
     (let waits = o_waits ob @ (case o_wait ob of None \<Rightarrow> [] | Some w \<Rightarrow> [w])
      in if check_wakes waits (map w_wake (filter w_recorded (g_waits g))) then Inr waits
         else Inl ErrInvalid)"

section \<open>The one read of a wait\<close>

text \<open>Model of \<open>waitTaskID\<close>, \<open>readAction\<close>, \<open>waitRead\<close>, \<open>readOpen\<close> and \<open>readSeen\<close>.\<close>

definition waitTaskID :: "string \<Rightarrow> string" where
  "waitTaskID wake = ''wait:'' @ wake"

definition readAction :: "host \<Rightarrow> goal \<Rightarrow> wait \<Rightarrow> string \<Rightarrow> string \<Rightarrow> int \<Rightarrow> action" where
  "readAction h g w cause signal now =
     (let a = zero_action\<lparr>a_goal_id := g_id g, a_task_id := waitTaskID (w_wake w),
                a_kind := ReadSource, a_read_cause := cause, a_signal := signal,
                a_wait_source := w_source w, a_state := Queued,
                a_deadline := now + safety_sweep, a_goal_revision := g_revision g\<rparr>;
          a = a\<lparr>a_input_version := Some (inputVersion h g a)\<rparr>
      in a\<lparr>a_id := actionID h a\<rparr>)"

definition waitRead :: "action \<Rightarrow> string \<Rightarrow> string \<Rightarrow> bool" where
  "waitRead a goal wake \<longleftrightarrow>
     a_goal_id a = goal \<and> a_kind a = ReadSource \<and> a_task_id a = waitTaskID wake"

definition readOpen :: "action list \<Rightarrow> string \<Rightarrow> string \<Rightarrow> bool" where
  "readOpen as goal wake \<longleftrightarrow> list_ex (\<lambda>a. waitRead a goal wake \<and> a_state a \<noteq> Finished) as"

definition readSeen :: "action list \<Rightarrow> string \<Rightarrow> string \<Rightarrow> string \<Rightarrow> string \<Rightarrow> bool" where
  "readSeen as goal wake cause signal \<longleftrightarrow>
     list_ex (\<lambda>a. waitRead a goal wake \<and> a_read_cause a = cause \<and> a_signal a = signal) as"

text \<open>
  Model of \<open>queueDueRead\<close>: the read it appends to the plan, if any, and the wait it returns
  through the pointer.
\<close>

definition queueDueRead :: "host \<Rightarrow> state \<Rightarrow> goal \<Rightarrow> wait \<Rightarrow> int \<Rightarrow> action list \<times> wait" where
  "queueDueRead h s g w now =
     (if readOpen (st_actions s) (g_id g) (w_wake w) then ([], w)
      else if w_until w \<le> now \<and> expiryWait w \<and> \<not> w_deadline_read w \<and>
              \<not> readSeen (st_actions s) (g_id g) (w_wake w) ''deadline'' []
      then ([readAction h g w ''deadline'' [] now], w\<lparr>w_deadline_read := True\<rparr>)
      else if w_pending_signal w \<noteq> [] \<and>
              \<not> readSeen (st_actions s) (g_id g) (w_wake w) ''signal'' (w_pending_signal w)
      then ([readAction h g w ''signal'' (w_pending_signal w) now], w\<lparr>w_pending_signal := []\<rparr>)
      else ([], w))"

text \<open>Model of \<open>holdRecordedWaits\<close>.\<close>

definition holds_wait :: "wait \<Rightarrow> int \<Rightarrow> bool" where
  "holds_wait w now \<longleftrightarrow> w_recorded w \<and> namedWait w \<and> \<not> (w_until w \<le> now \<and> \<not> expiryWait w)"

definition holdRecordedWaits :: "host \<Rightarrow> state \<Rightarrow> goal \<Rightarrow> int \<Rightarrow> plan \<Rightarrow> plan \<times> bool" where
  "holdRecordedWaits h s g now p =
     fold (\<lambda>w (p, held).
             if \<not> holds_wait w now then (p, held)
             else let (reads, w) = queueDueRead h s g (w\<lparr>w_goal_id := g_id g\<rparr>) now
                  in (p\<lparr>pl_actions := pl_actions p @ reads, pl_waits := pl_waits p @ [w]\<rparr>, True))
       (g_waits g) (p, False)"

section \<open>The result of a read\<close>

text \<open>Model of \<open>applyWaitRead\<close> and \<open>finishFailedSourceRead\<close>.\<close>

definition wait_of_read :: "goal \<Rightarrow> string \<Rightarrow> wait option" where
  "wait_of_read g wake = first_such (\<lambda>w. w_recorded w \<and> w_wake w = wake) (g_waits g)"

fun remove_first :: "('a \<Rightarrow> bool) \<Rightarrow> 'a list \<Rightarrow> 'a list" where
  "remove_first p [] = []"
| "remove_first p (x # xs) = (if p x then xs else x # remove_first p xs)"

definition expire_goal :: "wait \<Rightarrow> goal \<Rightarrow> goal" where
  "expire_goal w g =
     (let g = (if g_decision_row g = []
               then g\<lparr>g_decision_row := expiryRow w,
                      g_attention_id := ''goal:'' @ g_id g @ '':wait:'' @ w_wake w\<rparr>
               else g\<lparr>g_decision_row := g_decision_row g @ [CHR 0x0A, CHR 0x0A] @ expiryRow w\<rparr>)
      in g\<lparr>g_blocked_reason := g_decision_row g, g_state := GoalBlocked\<rparr>)"

definition applyWaitRead :: "goal \<Rightarrow> action \<Rightarrow> observation \<Rightarrow> goal_error + goal" where
  "applyWaitRead g a ob =
     (case o_source_open ob of
        None \<Rightarrow> Inl ErrInvalid
      | Some opened \<Rightarrow>
          if a_read_cause a \<noteq> ''signal'' \<and> a_read_cause a \<noteq> ''deadline'' then Inl ErrInvalid
          else let wake = trim_prefix (a_task_id a) ''wait:''
               in case wait_of_read g wake of
                    None \<Rightarrow> Inl ErrConflict
                  | Some w \<Rightarrow>
                      if opened \<and> a_read_cause a \<noteq> ''deadline'' then Inr g
                      else let g = (if opened then expire_goal w g else g);
                               g = queueClear w g
                           in Inr (g\<lparr>g_waits :=
                                 remove_first (\<lambda>w. w_recorded w \<and> w_wake w = wake) (g_waits g)\<rparr>))"

definition finishFailedSourceRead :: "goal \<Rightarrow> action \<Rightarrow> goal_error + goal" where
  "finishFailedSourceRead g a =
     (if a_read_cause a \<noteq> ''deadline'' then Inr g
      else applyWaitRead g a (zero_observation\<lparr>o_source_open := Some True\<rparr>))"

text \<open>The callbacks of \<open>dropClearTodo\<close> and \<open>markWait\<close> on the stored goal.\<close>

definition drop_clear_todo :: "string \<Rightarrow> goal \<Rightarrow> goal_error + goal" where
  "drop_clear_todo todo g =
     (if first_such (\<lambda>c. cw_todo_id c = todo) (g_clear_todos g) = None then Inl ErrNoChange
      else Inr (g\<lparr>g_clear_todos := remove_first (\<lambda>c. cw_todo_id c = todo) (g_clear_todos g)\<rparr>))"

definition mark_wait :: "string \<Rightarrow> (wait \<Rightarrow> wait) \<Rightarrow> goal \<Rightarrow> goal_error + goal" where
  "mark_wait wake mark g =
     (if \<not> list_ex (\<lambda>w. w_recorded w \<and> w_wake w = wake) (g_waits g) then Inl ErrNoChange
      else Inr (g\<lparr>g_waits :=
             map (\<lambda>w. if w_recorded w \<and> w_wake w = wake then mark w else w) (g_waits g)\<rparr>))"

section \<open>What a plan leaves to happen\<close>

text \<open>Model of \<open>pending\<close>, \<open>goalHasWork\<close> and \<open>goalHeld\<close> (next.go).\<close>

definition pending :: "action list \<Rightarrow> string \<Rightarrow> string \<Rightarrow> bool" where
  "pending as goal task \<longleftrightarrow>
     list_ex (\<lambda>a. a_goal_id a = goal \<and> a_task_id a = task \<and> a_state a \<noteq> Finished) as"

definition goalHasWork :: "plan \<Rightarrow> action list \<Rightarrow> string \<Rightarrow> bool" where
  "goalHasWork p as i \<longleftrightarrow>
     list_ex (\<lambda>a. a_goal_id a = i) (pl_actions p) \<or>
     list_ex (\<lambda>a. a_goal_id a = i \<and> a_state a \<noteq> Finished) as \<or>
     list_ex (\<lambda>q. q_goal_id q = i) (pl_queues p) \<or>
     has (pl_close p) i \<or> has (pl_block p) i"

definition goalHeld :: "plan \<Rightarrow> action list \<Rightarrow> string \<Rightarrow> bool" where
  "goalHeld p as i \<longleftrightarrow>
     goalHasWork p as i \<or> list_ex (\<lambda>w. w_goal_id w = i) (pl_waits p)"

section \<open>Lemmas\<close>

lemma trim_prefix_waitTaskID [simp]: "trim_prefix (waitTaskID wake) ''wait:'' = wake"
  by (simp add: waitTaskID_def trim_prefix_def has_prefix_def)

lemma queueClear_frame [simp]:
  "g_waits (queueClear w g) = g_waits g" "g_id (queueClear w g) = g_id g"
  "g_state (queueClear w g) = g_state g" "g_decision_row (queueClear w g) = g_decision_row g"
  "g_tasks (queueClear w g) = g_tasks g"
  by (simp_all add: queueClear_def)

lemma expire_goal_frame [simp]:
  "g_waits (expire_goal w g) = g_waits g" "g_id (expire_goal w g) = g_id g"
  "g_tasks (expire_goal w g) = g_tasks g" "g_state (expire_goal w g) = GoalBlocked"
  by (simp_all add: expire_goal_def Let_def)

lemma plannedWaits_fresh:
  "check_wakes ws seen \<Longrightarrow> distinct (map w_wake ws) \<and> w_wake ` set ws \<inter> set seen = {} \<and>
     list_all validRecordedWait ws"
  by (induction ws seen rule: check_wakes.induct) auto

lemma remove_first_subset: "set (remove_first p xs) \<subseteq> set xs"
  by (induction xs) auto

lemma filter_remove_first:
  "filter p (remove_first p xs) = tl (filter p xs)"
  by (induction xs) auto

text \<open>A settled deadline read takes the wait off the goal: with unique wakes none is left.\<close>

text \<open>
  C31: The deadline read of an outside wait removes the wait from its goal, whether the source is
  open or closed.
\<close>

lemma applyWaitRead_settles:
  assumes "applyWaitRead g a ob = Inr g'" and "a_task_id a = waitTaskID wake"
    and "a_read_cause a = ''deadline''"
    and "distinct (map w_wake (filter w_recorded (g_waits g)))"
  shows "wait_of_read g' wake = None"
proof -
  let ?P = "\<lambda>w. w_recorded w \<and> w_wake w = wake"
  obtain w where w: "g_waits g' = remove_first ?P (g_waits g)"
    using assms(1-3) by (auto simp: applyWaitRead_def Let_def split: option.splits if_splits)
  have "length (filter ?P ws) \<le> 1" if "distinct (map w_wake (filter w_recorded ws))" for ws
    using that by (induction ws) (auto simp: filter_empty_conv image_iff split: if_splits)
  then have "length (filter ?P (g_waits g)) \<le> 1" using assms(4) by blast
  then have "filter ?P (g_waits g') = []"
    unfolding w filter_remove_first by (cases "filter ?P (g_waits g)") auto
  then show ?thesis by (auto simp: wait_of_read_def first_such_None filter_empty_conv)
qed

end
