(* ===== verification/GoalDerive.thy ===== *)
theory GoalDerive
  imports GoalGraph GoalSlots GoalWaits
begin

text \<open>
  Derive (next.go): the deterministic pass from the committed state to a plan. The local
  variables that the closures of the code share (the plan, the reservations, the holds, the
  merge slots, the running goals, the ready candidates, the occupied areas) are one record
  that each phase receives and returns.
\<close>

section \<open>The variables of a pass\<close>

record candidate =
  cd_goal :: goal
  cd_task :: task
  cd_kind :: action_kind
  cd_depth :: int
  cd_rank :: int

record hold =
  hd_goal :: string
  hd_person :: string
  hd_reason :: string

record pass =
  ps_plan :: plan
  ps_reservations :: "action list"
  ps_holds :: "hold list"
  ps_merge_slots :: "string list"
  ps_running :: "string list gomap"
  ps_ready :: "candidate list"
  ps_occupied :: "(string \<times> task) list"

text \<open>Model of \<open>goalRank\<close>, and of the key that \<open>mergeSlots\<close> uses.\<close>

definition goalRank :: "goal \<Rightarrow> int" where
  "goalRank g = (if g_rank g < 0 then 0 else g_rank g)"

definition merge_slot :: "task \<Rightarrow> string" where
  "merge_slot t = t_repository t @ [CHR 0x00] @ t_base t"

text \<open>The closures \<open>queue\<close>, \<open>wait\<close> and \<open>add\<close>.\<close>

definition queue_goal :: "goal \<Rightarrow> string \<Rightarrow> pass \<Rightarrow> pass" where
  "queue_goal g reason ps =
     (if list_ex (\<lambda>k. hd_goal k = g_id g) (ps_holds ps) then ps
      else ps\<lparr>ps_holds := ps_holds ps @
                [\<lparr>hd_goal = g_id g, hd_person = g_person g, hd_reason = reason\<rparr>]\<rparr>)"

definition plain_wait :: "string \<Rightarrow> string \<Rightarrow> string \<Rightarrow> string \<Rightarrow> int \<Rightarrow> wait" where
  "plain_wait goal task reason wake until =
     \<lparr>w_goal_id = goal, w_task_id = task, w_reason = reason, w_wake = wake, w_until = until,
      w_recorded = False, w_recommendation = [], w_draft = [], w_todo_id = [], w_who = [],
      w_since = [], w_next_check = [], w_source = [], w_pending_signal = [],
      w_deadline_read = False, w_linked = False, w_armed = False\<rparr>"

definition add_wait :: "goal \<Rightarrow> string \<Rightarrow> string \<Rightarrow> string \<Rightarrow> int \<Rightarrow> pass \<Rightarrow> pass" where
  "add_wait g task reason wake now ps =
     ps\<lparr>ps_plan := (ps_plan ps)\<lparr>pl_waits := pl_waits (ps_plan ps) @
          [plain_wait (g_id g) task reason wake (now + safety_sweep)]\<rparr>\<rparr>"

text \<open>The attempts of settled worker history under the same goal and task id.\<close>

definition spent_attempt :: "action list \<Rightarrow> goal \<Rightarrow> task \<Rightarrow> int \<Rightarrow> int" where
  "spent_attempt as g t n =
     fold (\<lambda>old n.
             if a_goal_id old = g_id g \<and> a_task_id old = t_id t \<and> workerAction (a_kind old) \<and>
                a_epoch old \<noteq> 0 \<and> a_receipt old \<noteq> None \<and> \<not> settledRefusal old
             then max n (a_attempt old) else n) as n"

definition planned_action ::
  "host \<Rightarrow> state \<Rightarrow> goal \<Rightarrow> task \<Rightarrow> action_kind \<Rightarrow> string \<Rightarrow> string \<Rightarrow> int \<Rightarrow> action" where
  "planned_action h s g t kind revision node now =
     (let a = zero_action\<lparr>a_step_kind := t_kind t, a_goal_id := g_id g, a_task_id := t_id t,
                a_kind := kind, a_attempt := t_attempt t, a_revision := revision,
                a_node_id := node, a_state := Queued, a_deadline := now + safety_sweep\<rparr>;
          a = (if workerAction kind
               then a\<lparr>a_attempt := wrap64 (spent_attempt (st_actions s) g t (t_attempt t) + 1),
                      a_resources := (if stepKind (t_kind t) \<noteq> WaitStep then t_resources t
                                      else zero_resources)\<rparr>
               else a);
          a = (if kind = ContinueWorker then a\<lparr>a_handle := t_thread_handle t\<rparr> else a);
          a = a\<lparr>a_goal_revision := g_revision g\<rparr>;
          a = (if kind = PlanGoal then a\<lparr>a_record_revision := g_record_revision g\<rparr> else a);
          a = a\<lparr>a_input_version := Some (inputVersion h g a)\<rparr>
      in a\<lparr>a_id := actionID h a\<rparr>)"

definition plan_action :: "action \<Rightarrow> pass \<Rightarrow> pass" where
  "plan_action a ps = ps\<lparr>ps_plan := (ps_plan ps)\<lparr>pl_actions := pl_actions (ps_plan ps) @ [a]\<rparr>\<rparr>"

definition add_action ::
  "host \<Rightarrow> state \<Rightarrow> goal \<Rightarrow> task \<Rightarrow> action_kind \<Rightarrow> string \<Rightarrow> string \<Rightarrow> int \<Rightarrow> pass \<Rightarrow> pass" where
  "add_action h s g t kind revision node now ps =
     (let a = planned_action h s g t kind revision node now
      in (plan_action a ps)\<lparr>ps_reservations := ps_reservations ps @ [a]\<rparr>)"

section \<open>Admission of the state\<close>

text \<open>The goals in id order with their target revision, and the run limit of every person.\<close>

definition derive_goals :: "host \<Rightarrow> state \<Rightarrow> goal list" where
  "derive_goals h s =
     sort_key g_id (map (\<lambda>g. g\<lparr>g_target_revision := targetRevision h g\<rparr>) (st_goals s))"

definition derive_limits :: "state \<Rightarrow> goal list \<Rightarrow> node list \<Rightarrow> string list gomap \<Rightarrow> int \<Rightarrow> limit_state gomap" where
  "derive_limits s goals nodes running now =
     fold (\<lambda>g m.
             if mhas m (g_person g) then m
             else mput (g_person g)
                    (runLimitFor (mget no_limit (st_limits s) (g_person g)) nodes now
                       (int (length (mget [] running (g_person g))))) m)
       goals []"

text \<open>The scan: goals are checked, pending merges take their slot, unsettled work its area.\<close>

definition merge_pending :: "state \<Rightarrow> goal \<Rightarrow> task \<Rightarrow> bool" where
  "merge_pending s g t \<longleftrightarrow>
     list_ex (\<lambda>a. a_goal_id a = g_id g \<and> a_task_id a = t_id t \<and> a_kind a = Merge \<and>
                  a_state a \<noteq> Finished) (st_actions s)"

definition take_slot :: "task \<Rightarrow> pass \<Rightarrow> pass" where
  "take_slot t ps = ps\<lparr>ps_merge_slots := merge_slot t # ps_merge_slots ps\<rparr>"

definition occupy :: "goal \<Rightarrow> task \<Rightarrow> pass \<Rightarrow> pass" where
  "occupy g t ps = ps\<lparr>ps_occupied := ps_occupied ps @ [(g_id g, t)]\<rparr>"

definition scan_task :: "state \<Rightarrow> goal \<Rightarrow> task \<Rightarrow> pass \<Rightarrow> pass" where
  "scan_task s g t ps =
     (let busy = merge_pending s g t;
          ps = (if busy then take_slot t ps else ps)
      in if t_stage t \<in> {TaskReady, TaskDone, TaskMerged, TaskQAFailed} then ps
         else if g_state g = GoalStopped \<and> t_effects_settled t \<and> \<not> busy then ps
         else occupy g t ps)"

definition definition_key :: "goal \<Rightarrow> string" where
  "definition_key g = ''definition:'' @ g_record_revision g"

definition quarantined :: "goal \<Rightarrow> bool" where
  "quarantined g \<longleftrightarrow> g_definition_pending g \<and> g_assessed_failure g = definition_key g"

definition scan_goal :: "state \<Rightarrow> goal \<Rightarrow> pass \<Rightarrow> goal_error + pass" where
  "scan_goal s g ps =
     (if \<not> validateGoalState g (g_definition_pending g) \<and> \<not> quarantined g then Inl ErrInvalid
      else Inr (fold (scan_task s g) (g_tasks g) ps))"

section \<open>One goal\<close>

text \<open>A pending definition: the correction barrier, then one planning turn.\<close>

definition unsettled :: "state \<Rightarrow> goal \<Rightarrow> action list" where
  "unsettled s g =
     filter (\<lambda>a. a_goal_id a = g_id g \<and> a_task_id a \<noteq> [] \<and> a_kind a \<noteq> PlanGoal \<and>
                 a_state a \<noteq> Finished) (st_actions s)"

definition derive_correction :: "host \<Rightarrow> state \<Rightarrow> int \<Rightarrow> goal \<Rightarrow> pass \<Rightarrow> pass" where
  "derive_correction h s now g ps =
     (if g_assessed_failure g = definition_key g
      then add_wait g [] ''person'' ''goal.record.changed'' now ps
      else if unsettled s g \<noteq> []
      then fold (\<lambda>a. add_wait g (a_task_id a) ''unknown_effect'' ''effect.observed'' now)
             (unsettled s g) ps
      else if \<not> pending (st_actions s) (g_id g) []
      then add_action h s g zero_task PlanGoal (g_record_revision g) [] now ps
      else ps)"

text \<open>One task: an action or a wait, or the kind of worker step it is ready for.\<close>

definition task_or_zero :: "goal \<Rightarrow> string \<Rightarrow> task" where
  "task_or_zero g i = (case goalTask g i of None \<Rightarrow> zero_task | Some t \<Rightarrow> t)"

definition merge_ready :: "task \<Rightarrow> bool" where
  "merge_ready t \<longleftrightarrow>
     pr_head (t_pr t) = t_head t \<and> proves (pr_checks (t_pr t)) (t_head t) \<and>
     proves (pr_review (t_pr t)) (t_head t) \<and> proves (pr_verified (t_pr t)) (t_head t) \<and>
     pr_open_p0p1 (t_pr t) = 0 \<and> pr_mergeable (t_pr t)"

definition deps_landed :: "goal \<Rightarrow> task \<Rightarrow> bool" where
  "deps_landed g t \<longleftrightarrow> list_all (\<lambda>i. stepLanded (task_or_zero g i)) (t_depends_on t)"

definition derive_delivered :: "host \<Rightarrow> state \<Rightarrow> int \<Rightarrow> goal \<Rightarrow> task \<Rightarrow> pass \<Rightarrow> pass" where
  "derive_delivered h s now g t ps =
     (if merge_ready t
      then if merge_slot t \<in> set (ps_merge_slots ps)
           then add_wait g (t_id t) ''merge_slot'' ''merge.landed'' now ps
           else take_slot t (add_action h s g t Merge (t_head t) [] now ps)
      else if pr_observed_at (t_pr t) = 0 \<or> safety_sweep \<le> wrap64 (now - pr_observed_at (t_pr t))
      then add_action h s g t InspectPR (t_head t) [] now ps
      else add_wait g (t_id t) ''ci_review'' ''pull_request.changed'' now ps)"

text \<open>
  The stage switch: \<open>Inl\<close> is the pass after a wait or an action (\<open>continue\<close>), \<open>Inr\<close> the
  worker kind that makes the task a candidate; None is the error of the default branch.
\<close>

definition derive_stage :: "host \<Rightarrow> state \<Rightarrow> int \<Rightarrow> goal \<Rightarrow> task \<Rightarrow> pass \<Rightarrow> (pass + action_kind) option" where
  "derive_stage h s now g t ps =
     (case t_stage t of
        TaskReady \<Rightarrow>
          if deps_landed g t then Some (Inr Assign)
          else Some (Inl (add_wait g (t_id t) ''dependency'' ''step.landed'' now ps))
      | TaskBuilding \<Rightarrow> Some (Inl (add_wait g (t_id t) ''worker'' ''worker.changed'' now ps))
      | TaskDelivered \<Rightarrow> Some (Inl (derive_delivered h s now g t ps))
      | TaskConflicted \<Rightarrow>
          if 1 \<le> t_conflicts t
          then Some (Inl (add_wait g (t_id t) ''person'' ''decision.resolved'' now ps))
          else Some (Inr RepairConflict)
      | TaskNoReceipt \<Rightarrow> Some (Inr ContinueWorker)
      | TaskWorkerLost \<Rightarrow>
          if \<not> t_effects_settled t
          then Some (Inl (add_wait g (t_id t) ''unknown_effect'' ''effect.observed'' now ps))
          else if 1 \<le> t_recoveries t
          then Some (Inl (add_wait g (t_id t) ''person'' ''decision.resolved'' now ps))
          else Some (Inr Resume)
      | TaskMerged \<Rightarrow>
          Some (Inl (if \<not> proves (t_merge t) (p_revision (t_merge t))
                     then add_wait g (t_id t) ''merge_evidence'' ''merge.landed'' now ps
                     else add_action h s g t RunQA (p_revision (t_merge t)) [] now ps))
      | TaskDone \<Rightarrow>
          Some (Inl (if \<not> proves (t_merge t) (p_revision (t_merge t))
                     then add_wait g (t_id t) ''merge_evidence'' ''merge.landed'' now ps
                     else add_action h s g t RunQA (p_revision (t_merge t)) [] now ps))
      | TaskQAFailed \<Rightarrow>
          Some (Inl (if t_repaired_by t \<noteq> []
                     then add_wait g (t_id t) ''repair'' ''qa.completed'' now ps
                     else if t_repair_asked t
                     then add_wait g (t_id t) ''person'' ''decision.resolved'' now ps
                     else add_action h s g t PlanGoal (p_revision (t_merge t)) [] now ps))
      | TaskNeedsPerson \<Rightarrow>
          Some (Inl (add_wait g (t_id t) ''person'' ''decision.resolved'' now ps))
      | StageOther x \<Rightarrow> None)"

definition derive_task ::
  "host \<Rightarrow> state \<Rightarrow> int \<Rightarrow> goal \<Rightarrow> task \<Rightarrow> pass \<times> (string \<rightharpoonup> int) \<Rightarrow> goal_error + pass \<times> (string \<rightharpoonup> int)" where
  "derive_task h s now g t pm =
     (if pending (st_actions s) (g_id g) (t_id t) \<or> taskDone t then Inr pm
      else case derive_stage h s now g t (fst pm) of
        None \<Rightarrow> Inl ErrInvalid
      | Some (Inl ps) \<Rightarrow> Inr (ps, snd pm)
      | Some (Inr kind) \<Rightarrow>
          let (d, m) = step_depth (Suc (length (g_tasks g))) (task_deps (g_tasks g)) (t_id t) (snd pm)
          in Inr ((fst pm)\<lparr>ps_ready := ps_ready (fst pm) @
                    [\<lparr>cd_goal = g, cd_task = t, cd_kind = kind, cd_depth = d, cd_rank = goalRank g\<rparr>]\<rparr>, m))"

text \<open>
  The checks after every task is done: target, deployment, verification, then the criteria
  of the current round. \<open>add\<close> is not used for the last two: their actions hold no
  reservation and carry a failure or a criterion.
\<close>

definition assessment :: "host \<Rightarrow> goal \<Rightarrow> string \<Rightarrow> string \<Rightarrow> int \<Rightarrow> action" where
  "assessment h g revision failure now =
     (let a = zero_action\<lparr>a_goal_id := g_id g, a_kind := PlanGoal, a_revision := revision,
                a_goal_revision := g_revision g, a_record_revision := g_record_revision g,
                a_failure_key := failure, a_state := Queued, a_deadline := now + safety_sweep\<rparr>;
          a = a\<lparr>a_input_version := Some (inputVersion h g a)\<rparr>
      in a\<lparr>a_id := actionID h a\<rparr>)"

definition criterion_action :: "host \<Rightarrow> goal \<Rightarrow> criterion \<Rightarrow> int \<Rightarrow> action" where
  "criterion_action h g c now =
     (let a = zero_action\<lparr>a_goal_id := g_id g, a_kind := CheckCriterion,
                a_revision := criterionRevision h g c, a_criterion_id := c_id c,
                a_check := Some (c_check c), a_goal_revision := g_revision g,
                a_check_round := g_check_round g, a_state := Queued,
                a_deadline := now + safety_sweep\<rparr>;
          a = a\<lparr>a_input_version := Some (inputVersion h g a)\<rparr>
      in a\<lparr>a_id := actionID h a\<rparr>)"

definition block_goal :: "goal \<Rightarrow> pass \<Rightarrow> pass" where
  "block_goal g ps = ps\<lparr>ps_plan := (ps_plan ps)\<lparr>pl_block := pl_block (ps_plan ps) @ [g_id g]\<rparr>\<rparr>"

definition close_goal :: "goal \<Rightarrow> pass \<Rightarrow> pass" where
  "close_goal g ps = ps\<lparr>ps_plan := (ps_plan ps)\<lparr>pl_close := pl_close (ps_plan ps) @ [g_id g]\<rparr>\<rparr>"

definition assess :: "host \<Rightarrow> goal \<Rightarrow> string \<Rightarrow> string \<Rightarrow> int \<Rightarrow> pass \<Rightarrow> pass" where
  "assess h g revision failure now ps =
     (if g_assessed_failure g = failure then block_goal g ps
      else plan_action (assessment h g revision failure now) ps)"

definition failed_criterion :: "host \<Rightarrow> goal \<Rightarrow> criterion option" where
  "failed_criterion h g =
     first_such (\<lambda>c. ck_kind (c_check c) \<noteq> CitationEvidence \<and>
                     list_ex (\<lambda>e. currentEvidence h g c e \<and> \<not> e_passed e) (g_checks g))
       (goalCriteria g)"

definition derive_criteria :: "host \<Rightarrow> int \<Rightarrow> goal \<Rightarrow> pass \<Rightarrow> pass" where
  "derive_criteria h now g ps =
     (let g = (if g_check_round g = 0 then g\<lparr>g_check_round := 1\<rparr> else g)
      in case failed_criterion h g of
           Some c \<Rightarrow>
             assess h g [] (int_decimal (g_revision g) @ '':'' @ int_decimal (g_check_round g)
                            @ '':'' @ c_id c) now ps
         | None \<Rightarrow>
             (case first_such (\<lambda>c. \<not> criterionMet h g c \<and> \<not> citationUnresolved h g c) (goalCriteria g) of
                Some c \<Rightarrow> plan_action (criterion_action h g c now) ps
              | None \<Rightarrow>
                  if list_ex (\<lambda>c. \<not> criterionMet h g c \<and> citationUnresolved h g c) (goalCriteria g)
                  then add_wait g [] ''citation'' ''evidence.target_changed'' now ps
                  else close_goal g ps))"

definition derive_finish :: "host \<Rightarrow> state \<Rightarrow> int \<Rightarrow> goal \<Rightarrow> bool \<Rightarrow> pass \<Rightarrow> pass" where
  "derive_finish h s now g outsideWait ps =
     (if g_tasks g = [] \<or> \<not> list_all taskDone (g_tasks g) \<or> pending (st_actions s) (g_id g) [] \<or>
         outsideWait \<or> g_decision_row g \<noteq> [] then ps
      else if g_target_revision g = [] then add_wait g [] ''merge_evidence'' ''merge.landed'' now ps
      else if g_service_target g \<noteq> [] \<and> \<not> proves (g_deployment g) (g_target_revision g)
      then add_action h s g zero_task Deploy (g_target_revision g) [] now ps
      else if \<not> proves (g_verification g) (g_target_revision g)
      then if fails (g_verification g) (g_target_revision g)
           then assess h g (g_target_revision g)
                  (''verify:'' @ int_decimal (g_revision g) @ '':'' @ g_target_revision g) now ps
           else add_action h s g zero_task Verify (g_target_revision g) [] now ps
      else derive_criteria h now g ps)"

definition goal_final :: "goal \<Rightarrow> bool" where
  "goal_final g \<longleftrightarrow> g_state g = GoalDone \<or> g_state g = GoalStopped"

definition derive_goal :: "host \<Rightarrow> state \<Rightarrow> int \<Rightarrow> goal \<Rightarrow> pass \<Rightarrow> goal_error + pass" where
  "derive_goal h s now g ps =
     (if goal_final g \<or> g_paused g then Inr ps
      else if g_definition_pending g then Inr (derive_correction h s now g ps)
      else let (p, outsideWait) = holdRecordedWaits h s g now (ps_plan ps)
           in bind_result
                (fold_result (derive_task h s now g) (sort_key t_id (g_tasks g))
                   (ps\<lparr>ps_plan := p\<rparr>, Map.empty))
                (\<lambda>(ps, _). Inr (derive_finish h s now g outsideWait ps)))"

section \<open>Placement\<close>

definition deadline_key :: "goal \<Rightarrow> int" where
  "deadline_key g = (if g_deadline g = 0 then max_int64 else g_deadline g)"

definition candidate_key :: "candidate \<Rightarrow> int \<times> int \<times> int \<times> int \<times> string \<times> string" where
  "candidate_key c =
     (cd_rank c, deadline_key (cd_goal c), cd_depth c, g_created_at (cd_goal c),
      g_id (cd_goal c), t_id (cd_task c))"

definition areas_conflict :: "host \<Rightarrow> goal \<Rightarrow> task \<Rightarrow> string \<times> task \<Rightarrow> bool" where
  "areas_conflict h g t occ =
     (case occ of (goal, held) \<Rightarrow>
        \<not> (goal = g_id g \<and> t_id held = t_id t) \<and> stepKind (t_kind held) \<noteq> WaitStep \<and>
        t_area held \<noteq> [] \<and> t_area t \<noteq> [] \<and> t_repository held = t_repository t \<and>
        h_overlap h (t_area held) (t_area t))"

text \<open>The loop over the hosts: the best one so far, its score, and whether it is personal.\<close>

definition eligible_node :: "action_kind \<Rightarrow> task \<Rightarrow> int \<Rightarrow> node \<Rightarrow> bool" where
  "eligible_node kind t now n \<longleftrightarrow>
     mget False (n_workers n) (t_worker t) \<and> mget 0 (n_quota_reset n) (t_worker t) \<le> now \<and>
     \<not> (kind \<noteq> Assign \<and> t_node_id t \<noteq> [] \<and> n_id n \<noteq> t_node_id t)"

definition better_node ::
  "action_kind \<Rightarrow> task \<Rightarrow> action list \<Rightarrow> int \<Rightarrow> node \<Rightarrow> string \<times> f64 \<times> bool \<Rightarrow> string \<times> f64 \<times> bool" where
  "better_node kind t reservations now n b =
     (case b of (best, score, personal) \<Rightarrow>
        if \<not> eligible_node kind t now n then b
        else let slots = Slots n reservations (t_resources t) now;
                 rank = f_div (f_mul (f_of_int slots) (r_cpu (t_resources t))) (n_cpu_cores n)
             in if 0 < slots \<and>
                   (best = [] \<or> personal \<and> \<not> n_for_person n \<or>
                    personal = n_for_person n \<and> f_less score rank)
                then (n_id n, rank, n_for_person n) else b)"

definition best_node :: "action_kind \<Rightarrow> task \<Rightarrow> action list \<Rightarrow> int \<Rightarrow> node list \<Rightarrow> string" where
  "best_node kind t reservations now nodes =
     fst (fold (better_node kind t reservations now) nodes ([], FFin (- 1), True))"

definition quota_blocked :: "task \<Rightarrow> int \<Rightarrow> node list \<Rightarrow> bool" where
  "quota_blocked t now nodes \<longleftrightarrow>
     list_ex (\<lambda>n. mget False (n_workers n) (t_worker t)) nodes \<and>
     \<not> list_ex (\<lambda>n. mget False (n_workers n) (t_worker t) \<and>
                    mget 0 (n_quota_reset n) (t_worker t) \<le> now) nodes"

definition zero_limit :: limit_state where
  "zero_limit = \<lparr>ls_reason = [], ls_current = 0, ls_automatic = False\<rparr>"

definition person_limit :: "pass \<Rightarrow> goal \<Rightarrow> limit_state" where
  "person_limit ps g = mget zero_limit (pl_run_limits (ps_plan ps)) (g_person g)"

definition over_limit :: "action_kind \<Rightarrow> goal \<Rightarrow> pass \<Rightarrow> bool" where
  "over_limit kind g ps \<longleftrightarrow>
     workerAction kind \<and> g_id g \<notin> set (mget [] (ps_running ps) (g_person g)) \<and>
     ls_current (person_limit ps g) \<le> int (length (mget [] (ps_running ps) (g_person g)))"

definition start_worker ::
  "host \<Rightarrow> state \<Rightarrow> int \<Rightarrow> goal \<Rightarrow> task \<Rightarrow> action_kind \<Rightarrow> string \<Rightarrow> pass \<Rightarrow> pass" where
  "start_worker h s now g t kind node ps =
     (let ps = add_action h s g t kind (t_head t) node now ps;
          ps = (if workerAction kind
                then ps\<lparr>ps_running := mark_goal (g_person g) (g_id g) (ps_running ps)\<rparr> else ps)
      in occupy g t ps)"

definition place :: "host \<Rightarrow> state \<Rightarrow> int \<Rightarrow> node list \<Rightarrow> candidate \<Rightarrow> pass \<Rightarrow> pass" where
  "place h s now nodes c ps =
     (let g = cd_goal c; t = cd_task c; kind = cd_kind c;
          ps = (if kind = Assign
                then ps\<lparr>ps_plan := (ps_plan ps)\<lparr>pl_frontier := pl_frontier (ps_plan ps) @
                       [\<lparr>f_goal_id = g_id g, f_step_id = t_id t, f_kind = stepKind (t_kind t)\<rparr>]\<rparr>\<rparr>
                else ps)
      in if stepKind (t_kind t) = WaitStep then add_action h s g t kind [] [] now ps
         else if over_limit kind g ps
         then add_wait g (t_id t) ''run_limit'' ''run_limit.changed'' now
                (queue_goal g (ls_reason (person_limit ps g)) ps)
         else if list_ex (areas_conflict h g t) (ps_occupied ps)
         then add_wait g (t_id t) ''area'' ''merge.landed'' now ps
         else let best = best_node kind t (ps_reservations ps) now nodes
              in if best = [] then
                   if quota_blocked t now nodes
                   then add_wait g (t_id t) ''worker_quota'' ''quota.changed'' now
                          (queue_goal g reason_quota ps)
                   else add_wait g (t_id t) ''host_capacity'' ''node.changed'' now
                          (queue_goal g reason_load ps)
                 else start_worker h s now g t kind best ps)"

section \<open>Queues and liveness\<close>

definition queue_places :: "pass \<Rightarrow> queue_place list" where
  "queue_places ps =
     fst (fold (\<lambda>k (qs, places).
                  if hd_goal k \<in> set (mget [] (ps_running ps) (hd_person k)) then (qs, places)
                  else let n = mget 0 places (hd_person k) + 1
                       in (qs @ [\<lparr>q_goal_id = hd_goal k, q_reason = hd_reason k, q_place = n\<rparr>],
                           mput (hd_person k) n places))
            (ps_holds ps) ([], []))"

definition derive_liveness :: "host \<Rightarrow> state \<Rightarrow> int \<Rightarrow> goal \<Rightarrow> pass \<Rightarrow> pass" where
  "derive_liveness h s now g ps =
     (if goal_final g \<or> g_paused g \<or> g_definition_pending g then ps
      else if g_decision_row g \<noteq> [] \<and> \<not> goalHasWork (ps_plan ps) (st_actions s) (g_id g)
      then ps\<lparr>ps_plan := (ps_plan ps)\<lparr>pl_rows := pl_rows (ps_plan ps) @ [g_id g]\<rparr>\<rparr>
      else if goalHeld (ps_plan ps) (st_actions s) (g_id g) then ps
      else if g_manager_turns g = 0
      then let a = planned_action h s g zero_task PlanGoal [] [] now
           in (plan_action (a\<lparr>a_open_criteria := openCriteria h g\<rparr>) ps)
                \<lparr>ps_reservations := ps_reservations ps @ [a]\<rparr>
      else ps\<lparr>ps_plan := (ps_plan ps)\<lparr>pl_orphans := pl_orphans (ps_plan ps) @ [g_id g]\<rparr>\<rparr>)"

section \<open>The pass\<close>

definition initial_pass :: "host \<Rightarrow> state \<Rightarrow> int \<Rightarrow> pass" where
  "initial_pass h s now =
     (let goals = derive_goals h s; nodes = sort_key n_id (st_nodes s);
          running = inProgressGoals (st_actions s) (personOf goals)
      in \<lparr>ps_plan = empty_plan\<lparr>pl_run_limits := derive_limits s goals nodes running now\<rparr>,
          ps_reservations = st_actions s, ps_holds = [], ps_merge_slots = [],
          ps_running = running, ps_ready = [], ps_occupied = []\<rparr>)"

definition place_all :: "host \<Rightarrow> state \<Rightarrow> int \<Rightarrow> pass \<Rightarrow> pass" where
  "place_all h s now ps =
     fold (place h s now (sort_key n_id (st_nodes s))) (sort_key candidate_key (ps_ready ps)) ps"

definition finish_pass :: "host \<Rightarrow> state \<Rightarrow> int \<Rightarrow> pass \<Rightarrow> pass" where
  "finish_pass h s now ps =
     (let ps = ps\<lparr>ps_plan := (ps_plan ps)\<lparr>pl_queues := queue_places ps\<rparr>\<rparr>
      in fold (derive_liveness h s now) (derive_goals h s) ps)"

definition Derive_pass :: "host \<Rightarrow> state \<Rightarrow> int \<Rightarrow> goal_error + pass" where
  "Derive_pass h s now =
     bind_result (fold_result (scan_goal s) (derive_goals h s) (initial_pass h s now))
       (\<lambda>ps. bind_result (fold_result (derive_goal h s now) (derive_goals h s) ps)
         (\<lambda>ps. Inr (finish_pass h s now (place_all h s now ps))))"

text \<open>Model of \<open>Derive\<close>.\<close>

definition Derive :: "host \<Rightarrow> state \<Rightarrow> int \<Rightarrow> goal_error + plan" where
  "Derive h s now = bind_result (Derive_pass h s now) (\<lambda>ps. Inr (ps_plan ps))"

end
