(* ===== verification/GoalMoves.thy ===== *)
theory GoalMoves
  imports GoalDerive
begin

text \<open>
  The abstract specification of a derivation pass: the moves it may make, each with the
  condition under which it is allowed, and the refinement that Derive makes only such
  moves. The properties of the plan are invariants of the moves.
\<close>

section \<open>Conditions\<close>

definition live_goal :: "host \<Rightarrow> state \<Rightarrow> goal \<Rightarrow> bool" where
  "live_goal h s g \<longleftrightarrow> g \<in> set (derive_goals h s) \<and> \<not> goal_final g \<and> \<not> g_paused g"

definition open_goal :: "host \<Rightarrow> state \<Rightarrow> goal \<Rightarrow> bool" where
  "open_goal h s g \<longleftrightarrow> live_goal h s g \<and> \<not> g_definition_pending g"

definition open_task :: "host \<Rightarrow> state \<Rightarrow> goal \<Rightarrow> task \<Rightarrow> bool" where
  "open_task h s g t \<longleftrightarrow>
     open_goal h s g \<and> t \<in> set (g_tasks g) \<and> \<not> pending (st_actions s) (g_id g) (t_id t) \<and> \<not> taskDone t"

text \<open>The worker kind a task is ready for.\<close>

definition worker_ready :: "goal \<Rightarrow> task \<Rightarrow> action_kind \<Rightarrow> bool" where
  "worker_ready g t k \<longleftrightarrow>
     k = Assign \<and> t_stage t = TaskReady \<and> deps_landed g t \<or>
     k = RepairConflict \<and> t_stage t = TaskConflicted \<and> t_conflicts t < 1 \<or>
     k = ContinueWorker \<and> t_stage t = TaskNoReceipt \<or>
     k = Resume \<and> t_stage t = TaskWorkerLost \<and> t_effects_settled t \<and> t_recoveries t < 1"

text \<open>The reads and judgments a task is ready for, with the revision they are about.\<close>

definition task_action :: "task \<Rightarrow> action_kind \<Rightarrow> string \<Rightarrow> bool" where
  "task_action t k revision \<longleftrightarrow>
     k = InspectPR \<and> t_stage t = TaskDelivered \<and> revision = t_head t \<or>
     k = RunQA \<and> t_stage t \<in> {TaskMerged, TaskDone} \<and> proves (t_merge t) revision \<or>
     k = PlanGoal \<and> t_stage t = TaskQAFailed \<and> t_repaired_by t = [] \<and> \<not> t_repair_asked t \<and>
       revision = p_revision (t_merge t)"

definition all_landed :: "host \<Rightarrow> state \<Rightarrow> goal \<Rightarrow> bool" where
  "all_landed h s g \<longleftrightarrow>
     open_goal h s g \<and> g_tasks g \<noteq> [] \<and> list_all taskDone (g_tasks g) \<and>
     \<not> pending (st_actions s) (g_id g) [] \<and> g_decision_row g = [] \<and> g_target_revision g \<noteq> []"

definition deployed :: "goal \<Rightarrow> bool" where
  "deployed g \<longleftrightarrow> g_service_target g = [] \<or> proves (g_deployment g) (g_target_revision g)"

definition verified :: "host \<Rightarrow> state \<Rightarrow> goal \<Rightarrow> bool" where
  "verified h s g \<longleftrightarrow> all_landed h s g \<and> deployed g \<and> proves (g_verification g) (g_target_revision g)"

definition finish_action :: "goal \<Rightarrow> action_kind \<Rightarrow> bool" where
  "finish_action g k \<longleftrightarrow>
     k = Deploy \<and> \<not> deployed g \<or>
     k = Verify \<and> deployed g \<and> \<not> proves (g_verification g) (g_target_revision g)"

definition first_round :: "goal \<Rightarrow> goal" where
  "first_round g = (if g_check_round g = 0 then g\<lparr>g_check_round := 1\<rparr> else g)"

section \<open>The moves\<close>

inductive pass_move :: "host \<Rightarrow> state \<Rightarrow> int \<Rightarrow> pass \<Rightarrow> pass \<Rightarrow> bool" for h s now where
  wait: "live_goal h s g \<Longrightarrow> pass_move h s now ps (add_wait g i reason wake now ps)"
| hold: "\<lbrakk>open_goal h s g; w \<in> set (g_waits g); holds_wait w now;
          queueDueRead h s g (w\<lparr>w_goal_id := g_id g\<rparr>) now = (reads, w')\<rbrakk> \<Longrightarrow>
         pass_move h s now ps
           (ps\<lparr>ps_plan := (ps_plan ps)\<lparr>pl_actions := pl_actions (ps_plan ps) @ reads,
                                     pl_waits := pl_waits (ps_plan ps) @ [w']\<rparr>\<rparr>)"
| correct: "\<lbrakk>live_goal h s g; g_definition_pending g; unsettled s g = []; \<not> pending (st_actions s) (g_id g) []\<rbrakk>
         \<Longrightarrow> pass_move h s now ps (add_action h s g zero_task PlanGoal (g_record_revision g) [] now ps)"
| act: "\<lbrakk>open_task h s g t; task_action t k revision\<rbrakk> \<Longrightarrow>
         pass_move h s now ps (add_action h s g t k revision [] now ps)"
| merge: "\<lbrakk>open_task h s g t; t_stage t = TaskDelivered; merge_ready t;
           merge_slot t \<notin> set (ps_merge_slots ps)\<rbrakk> \<Longrightarrow>
         pass_move h s now ps (take_slot t (add_action h s g t Merge (t_head t) [] now ps))"
| candidate: "\<lbrakk>open_task h s g t; worker_ready g t k\<rbrakk> \<Longrightarrow>
         pass_move h s now ps (ps\<lparr>ps_ready := ps_ready ps @
           [\<lparr>cd_goal = g, cd_task = t, cd_kind = k, cd_depth = d, cd_rank = goalRank g\<rparr>]\<rparr>)"
| finish: "\<lbrakk>all_landed h s g; finish_action g k\<rbrakk> \<Longrightarrow>
         pass_move h s now ps (add_action h s g zero_task k (g_target_revision g) [] now ps)"
| assess: "\<lbrakk>all_landed h s g; deployed g; g' = g \<or> g' = first_round g\<rbrakk> \<Longrightarrow>
         pass_move h s now ps (plan_action (assessment h g' revision failure now) ps)"
| block: "\<lbrakk>all_landed h s g; deployed g\<rbrakk> \<Longrightarrow> pass_move h s now ps (block_goal g ps)"
| check: "\<lbrakk>verified h s g; c \<in> set (goalCriteria g); \<not> criterionMet h (first_round g) c\<rbrakk> \<Longrightarrow>
         pass_move h s now ps (plan_action (criterion_action h (first_round g) c now) ps)"
| close: "\<lbrakk>verified h s g; \<forall>c \<in> set (goalCriteria g). criterionMet h (first_round g) c\<rbrakk> \<Longrightarrow>
         pass_move h s now ps (close_goal g ps)"
| frontier: "c \<in> set (ps_ready ps) \<Longrightarrow>
         pass_move h s now ps (ps\<lparr>ps_plan := (ps_plan ps)\<lparr>pl_frontier := pl_frontier (ps_plan ps) @ [f]\<rparr>\<rparr>)"
| queue: "\<lbrakk>c \<in> set (ps_ready ps); g_id (cd_goal c) \<noteq> []\<rbrakk> \<Longrightarrow>
         pass_move h s now ps (queue_goal (cd_goal c) reason ps)"
| wait_step: "\<lbrakk>c \<in> set (ps_ready ps); stepKind (t_kind (cd_task c)) = WaitStep\<rbrakk> \<Longrightarrow>
         pass_move h s now ps (add_action h s (cd_goal c) (cd_task c) (cd_kind c) [] [] now ps)"
| start: "\<lbrakk>c \<in> set (ps_ready ps); stepKind (t_kind (cd_task c)) \<noteq> WaitStep;
           \<not> over_limit (cd_kind c) (cd_goal c) ps;
           \<forall>occ \<in> set (ps_occupied ps). \<not> areas_conflict h (cd_goal c) (cd_task c) occ;
           n \<in> set (st_nodes s); eligible_node (cd_kind c) (cd_task c) now n;
           0 < Slots n (ps_reservations ps) (t_resources (cd_task c)) now\<rbrakk> \<Longrightarrow>
         pass_move h s now ps (start_worker h s now (cd_goal c) (cd_task c) (cd_kind c) (n_id n) ps)"
| queues: "pass_move h s now ps (ps\<lparr>ps_plan := (ps_plan ps)\<lparr>pl_queues := queue_places ps\<rparr>\<rparr>)"
| row: "\<lbrakk>open_goal h s g; g_decision_row g \<noteq> []\<rbrakk> \<Longrightarrow>
         pass_move h s now ps (ps\<lparr>ps_plan := (ps_plan ps)\<lparr>pl_rows := pl_rows (ps_plan ps) @ [g_id g]\<rparr>\<rparr>)"
| manager: "\<lbrakk>open_goal h s g; \<not> goalHeld (ps_plan ps) (st_actions s) (g_id g); g_manager_turns g = 0;
            a = planned_action h s g zero_task PlanGoal [] [] now\<rbrakk> \<Longrightarrow>
         pass_move h s now ps ((plan_action (a\<lparr>a_open_criteria := cs\<rparr>) ps)
                                \<lparr>ps_reservations := ps_reservations ps @ [a]\<rparr>)"
| orphan: "\<lbrakk>open_goal h s g; \<not> goalHeld (ps_plan ps) (st_actions s) (g_id g); g_manager_turns g \<noteq> 0\<rbrakk> \<Longrightarrow>
         pass_move h s now ps (ps\<lparr>ps_plan := (ps_plan ps)\<lparr>pl_orphans := pl_orphans (ps_plan ps) @ [g_id g]\<rparr>\<rparr>)"

abbreviation pass_moves :: "host \<Rightarrow> state \<Rightarrow> int \<Rightarrow> pass \<Rightarrow> pass \<Rightarrow> bool" where
  "pass_moves h s now \<equiv> (pass_move h s now)\<^sup>*\<^sup>*"

text \<open>Invariants of the moves hold along a whole pass.\<close>

lemma pass_moves_invariant:
  assumes "pass_moves h s now ps ps'" and "P ps"
    and "\<And>ps ps'. \<lbrakk>pass_move h s now ps ps'; P ps\<rbrakk> \<Longrightarrow> P ps'"
  shows "P ps'"
  using assms by (induction rule: rtranclp_induct) auto

lemma pass_moves_fold:
  assumes "\<And>x ps. x \<in> set xs \<Longrightarrow> Q ps \<Longrightarrow> pass_moves h s now ps (f x ps) \<and> Q (f x ps)" and "Q ps"
  shows "pass_moves h s now ps (fold f xs ps) \<and> Q (fold f xs ps)"
  using assms by (induction xs arbitrary: ps) (auto intro: rtranclp_trans)

section \<open>Derive makes only these moves\<close>

lemmas move_intros = pass_move.intros [THEN r_into_rtranclp [where r = "pass_move h s now" for h s now]]

lemma pending_filter: "pending as g t \<longleftrightarrow> (\<exists>a \<in> set as. a_goal_id a = g \<and> a_task_id a = t \<and> a_state a \<noteq> Finished)"
  by (auto simp: pending_def list_ex_iff)

lemma derive_correction_moves:
  assumes "live_goal h s g" and "g_definition_pending g"
  shows "pass_moves h s now ps (derive_correction h s now g ps)"
proof -
  have "pass_moves h s now ps (fold (\<lambda>a. add_wait g (a_task_id a) r w now) as ps)" for as r w
    using assms(1)
    by (induction as arbitrary: ps) (auto intro: move_intros(1) converse_rtranclp_into_rtranclp pass_move.wait)
  then show ?thesis
    using assms unfolding derive_correction_def
    by (auto intro: move_intros(1) move_intros(3))
qed

lemma derive_delivered_moves:
  assumes "open_task h s g t" and "t_stage t = TaskDelivered"
  shows "pass_moves h s now ps (derive_delivered h s now g t ps)"
proof -
  have "live_goal h s g" using assms(1) by (simp add: open_task_def open_goal_def)
  then show ?thesis
    using assms unfolding derive_delivered_def
    by (auto intro!: move_intros(1) move_intros(5) move_intros(4) simp: task_action_def)
qed

lemma derive_stage_moves:
  assumes "open_task h s g t"
  shows "derive_stage h s now g t ps = Some (Inl ps') \<Longrightarrow> pass_moves h s now ps ps'"
    and "derive_stage h s now g t ps = Some (Inr k) \<Longrightarrow> worker_ready g t k"
proof -
  have live: "live_goal h s g" using assms by (simp add: open_task_def open_goal_def)
  show "derive_stage h s now g t ps = Some (Inl ps') \<Longrightarrow> pass_moves h s now ps ps'"
    using assms live unfolding derive_stage_def
    by (auto split: task_stage.splits if_splits
        intro!: move_intros(1) move_intros(4) derive_delivered_moves simp: task_action_def)
  show "derive_stage h s now g t ps = Some (Inr k) \<Longrightarrow> worker_ready g t k"
    unfolding derive_stage_def worker_ready_def by (auto split: task_stage.splits if_splits)
qed

lemma derive_task_moves:
  assumes "open_goal h s g" and "t \<in> set (g_tasks g)" and "derive_task h s now g t pm = Inr pm'"
  shows "pass_moves h s now (fst pm) (fst pm')"
proof (cases "pending (st_actions s) (g_id g) (t_id t) \<or> taskDone t")
  case True
  with assms(3) show ?thesis by (simp add: derive_task_def)
next
  case False
  then have t: "open_task h s g t" using assms(1,2) by (simp add: open_task_def)
  show ?thesis
  proof (cases "derive_stage h s now g t (fst pm)")
    case None
    with False assms(3) show ?thesis by (simp add: derive_task_def)
  next
    case (Some r)
    show ?thesis
    proof (cases r)
      case (Inl ps)
      with False assms(3) Some derive_stage_moves(1) [OF t] show ?thesis
        by (auto simp: derive_task_def)
    next
      case (Inr k)
      with False assms(3) Some derive_stage_moves(2) [OF t] t show ?thesis
        by (auto simp: derive_task_def intro!: move_intros(6) split: prod.splits)
    qed
  qed
qed

lemma fold_result_moves:
  assumes "\<And>x y y'. x \<in> set xs \<Longrightarrow> f x y = Inr y' \<Longrightarrow> pass_moves h s now (pr y) (pr y')"
    and "fold_result f xs y = Inr y'"
  shows "pass_moves h s now (pr y) (pr y')"
  using assms
proof (induction xs arbitrary: y)
  case (Cons x xs)
  then obtain z where "f x y = Inr z" "fold_result f xs z = Inr y'"
    by (auto simp: bind_result_eq_Inr)
  with Cons.IH [of z] Cons.prems(1) show ?case by (meson list.set_intros rtranclp_trans)
qed simp

lemma holdRecordedWaits_moves:
  assumes "open_goal h s g" and "holdRecordedWaits h s g now (ps_plan ps) = (p, b)"
  shows "pass_moves h s now ps (ps\<lparr>ps_plan := p\<rparr>)"
proof -
  let ?f = "\<lambda>w (p, held). if \<not> holds_wait w now then (p, held)
             else let (reads, w) = queueDueRead h s g (w\<lparr>w_goal_id := g_id g\<rparr>) now
                  in (p\<lparr>pl_actions := pl_actions p @ reads, pl_waits := pl_waits p @ [w]\<rparr>, True)"
  have "pass_moves h s now (ps\<lparr>ps_plan := fst y\<rparr>) (ps\<lparr>ps_plan := fst (fold ?f ws y)\<rparr>)"
    if "set ws \<subseteq> set (g_waits g)" for ws y
    using that
  proof (induction ws arbitrary: y)
    case (Cons w ws)
    obtain p0 b0 where y: "y = (p0, b0)" by force
    obtain reads w' where q: "queueDueRead h s g (w\<lparr>w_goal_id := g_id g\<rparr>) now = (reads, w')" by force
    have "pass_moves h s now (ps\<lparr>ps_plan := fst y\<rparr>) (ps\<lparr>ps_plan := fst (?f w y)\<rparr>)"
      using Cons.prems pass_move.hold [OF assms(1) _ _ q, of "ps\<lparr>ps_plan := p0\<rparr>"] q y
      by (auto intro: r_into_rtranclp)
    moreover have "pass_moves h s now (ps\<lparr>ps_plan := fst (?f w y)\<rparr>) (ps\<lparr>ps_plan := fst (fold ?f ws (?f w y))\<rparr>)"
      using Cons.prems by (intro Cons.IH) simp
    ultimately show ?case
      unfolding fold_simps by (rule rtranclp_trans)
  qed simp
  from this [of "g_waits g" "(ps_plan ps, False)"] assms(2) show ?thesis
    by (simp add: holdRecordedWaits_def)
qed

lemma first_round_simps [simp]:
  "goalCriteria (first_round g) = goalCriteria g" "g_id (first_round g) = g_id g"
  by (simp_all add: first_round_def goalCriteria_def)

lemma derive_criteria_moves:
  assumes "verified h s g"
  shows "pass_moves h s now ps (derive_criteria h now g ps)"
proof -
  have landed: "all_landed h s g" "deployed g" and live: "live_goal h s g"
    using assms by (simp_all add: verified_def all_landed_def open_goal_def)
  have assess: "pass_moves h s now ps (assess h (first_round g) rv failure now ps)" for rv failure
    unfolding assess_def using landed move_intros(9) [OF landed, of now ps] move_intros(8) [OF landed]
    by (auto simp: block_goal_def)
  have wait: "pass_moves h s now ps (add_wait (first_round g) i r w now ps)" for i r w
    using move_intros(1) [OF live, of now ps] by (simp add: add_wait_def)
  have close: "pass_moves h s now ps (close_goal (first_round g) ps)"
    if "\<forall>c \<in> set (goalCriteria g). criterionMet h (first_round g) c \<or> citationUnresolved h (first_round g) c"
      "\<forall>c \<in> set (goalCriteria g). criterionMet h (first_round g) c \<or> \<not> citationUnresolved h (first_round g) c"
    using move_intros(11) [OF assms, of now ps] that by (auto simp: close_goal_def)
  show ?thesis
    unfolding derive_criteria_def Let_def first_round_def [symmetric]
    using assess wait close move_intros(10) [OF assms, of _ now ps]
    by (auto split: option.splits simp: first_such_None list_ex_iff dest!: first_such_Some)
qed

lemma derive_finish_moves:
  assumes "open_goal h s g"
  shows "pass_moves h s now ps (derive_finish h s now g out ps)"
proof (cases "g_tasks g = [] \<or> \<not> list_all taskDone (g_tasks g) \<or> pending (st_actions s) (g_id g) [] \<or>
         out \<or> g_decision_row g \<noteq> []")
  case True
  then show ?thesis by (auto simp: derive_finish_def)
next
  case False
  have live: "live_goal h s g" using assms by (simp add: open_goal_def)
  show ?thesis
  proof (cases "g_target_revision g = []")
    case True
    with False show ?thesis by (auto simp: derive_finish_def intro: move_intros(1) [OF live])
  next
    case target: False
    have landed: "all_landed h s g" using False assms target by (simp add: all_landed_def)
    show ?thesis
    proof (cases "deployed g")
      case False
      then have "derive_finish h s now g out ps = add_action h s g zero_task Deploy (g_target_revision g) [] now ps"
        using \<open>\<not> (g_tasks g = [] \<or> _)\<close> target by (auto simp: derive_finish_def deployed_def)
      with False show ?thesis by (simp add: move_intros(7) [OF landed] finish_action_def)
    next
      case True
      have "pass_moves h s now ps (assess h g rv failure now ps)" for rv failure
        unfolding assess_def using move_intros(9) [OF landed True] move_intros(8) [OF landed True] by auto
      moreover have "pass_moves h s now ps (add_action h s g zero_task Verify (g_target_revision g) [] now ps)"
        if "\<not> proves (g_verification g) (g_target_revision g)"
        using that True by (intro move_intros(7) [OF landed]) (simp add: finish_action_def)
      moreover have "pass_moves h s now ps (derive_criteria h now g ps)"
        if "proves (g_verification g) (g_target_revision g)"
        using that True landed by (intro derive_criteria_moves) (simp add: verified_def)
      ultimately show ?thesis
        using False target True by (auto simp: derive_finish_def deployed_def)
    qed
  qed
qed

lemma derive_goal_moves:
  assumes "g \<in> set (derive_goals h s)" and "derive_goal h s now g ps = Inr ps'"
  shows "pass_moves h s now ps ps'"
proof (cases "goal_final g \<or> g_paused g")
  case True
  with assms(2) show ?thesis by (simp add: derive_goal_def)
next
  case False
  then have live: "live_goal h s g" using assms(1) by (simp add: live_goal_def)
  show ?thesis
  proof (cases "g_definition_pending g")
    case True
    with False assms(2) derive_correction_moves [OF live] show ?thesis
      by (auto simp: derive_goal_def)
  next
    case defined: False
    with live have g: "open_goal h s g" by (simp add: open_goal_def)
    obtain p out where w: "holdRecordedWaits h s g now (ps_plan ps) = (p, out)" by force
    obtain pm where pm: "fold_result (derive_task h s now g) (sort_key t_id (g_tasks g))
        (ps\<lparr>ps_plan := p\<rparr>, Map.empty) = Inr pm"
      and ps': "ps' = derive_finish h s now g out (fst pm)"
      using assms(2) False defined w
      by (auto simp: derive_goal_def bind_result_eq_Inr split: prod.splits)
    have "pass_moves h s now (ps\<lparr>ps_plan := p\<rparr>) (fst pm)"
      using fold_result_moves [where pr = fst, OF _ pm] derive_task_moves [OF g] by force
    then show ?thesis
      using holdRecordedWaits_moves [OF g w] derive_finish_moves [OF g] ps'
      by (meson rtranclp_trans)
  qed
qed

section \<open>Placement\<close>

text \<open>The best host is eligible and has a free slot; no answer means that no host does.\<close>

definition chosen :: "action_kind \<Rightarrow> task \<Rightarrow> action list \<Rightarrow> int \<Rightarrow> node list \<Rightarrow> string \<Rightarrow> bool" where
  "chosen kind t rs now nodes i \<longleftrightarrow>
     (\<exists>n \<in> set nodes. n_id n = i \<and> eligible_node kind t now n \<and> 0 < Slots n rs (t_resources t) now)"

lemma better_node_cases:
  "better_node kind t rs now n b = b \<or>
   fst (better_node kind t rs now n b) = n_id n \<and> eligible_node kind t now n \<and>
     0 < Slots n rs (t_resources t) now"
  by (cases b) (auto simp: better_node_def Let_def)

lemma best_node_spec:
  assumes "best_node kind t rs now nodes \<noteq> []"
  shows "chosen kind t rs now nodes (best_node kind t rs now nodes)"
proof -
  let ?P = "\<lambda>b :: string \<times> f64 \<times> bool. fst b \<noteq> [] \<longrightarrow> chosen kind t rs now nodes (fst b)"
  have "?P (fold (better_node kind t rs now) nodes ([], FFin (- 1), True))"
  proof (rule fold_invariant_in [where P = ?P])
    fix n b
    assume n: "n \<in> set nodes" and b: "?P b"
    show "?P (better_node kind t rs now n b)"
      using better_node_cases [of kind t rs now n b]
    proof
      assume "fst (better_node kind t rs now n b) = n_id n \<and> eligible_node kind t now n \<and>
        0 < Slots n rs (t_resources t) now"
      with n show ?thesis by (auto simp: chosen_def)
    qed (use b in simp)
  qed simp
  with assms show ?thesis by (simp add: best_node_def)
qed

lemma place_moves:
  assumes "c \<in> set (ps_ready ps)" and "g_id (cd_goal c) \<noteq> []" and "live_goal h s (cd_goal c)"
    and "set nodes \<subseteq> set (st_nodes s)"
  shows "pass_moves h s now ps (place h s now nodes c ps) \<and>
         ps_ready (place h s now nodes c ps) = ps_ready ps"
proof -
  let ?g = "cd_goal c" and ?t = "cd_task c" and ?k = "cd_kind c"
  define ps1 where "ps1 = (if ?k = Assign
       then ps\<lparr>ps_plan := (ps_plan ps)\<lparr>pl_frontier := pl_frontier (ps_plan ps) @
              [\<lparr>f_goal_id = g_id ?g, f_step_id = t_id ?t, f_kind = stepKind (t_kind ?t)\<rparr>]\<rparr>\<rparr> else ps)"
  have m1: "pass_moves h s now ps ps1" and c1: "c \<in> set (ps_ready ps1)" "ps_ready ps1 = ps_ready ps"
    using assms(1) by (auto simp: ps1_def intro: move_intros(12))
  have held: "pass_moves h s now ps1 (add_wait ?g i r w now (queue_goal ?g rs ps1))" for i r w rs
    using move_intros(13) [OF c1(1) assms(2)] move_intros(1) [OF assms(3)] by (meson rtranclp_trans)
  have start: "pass_moves h s now ps1 (start_worker h s now ?g ?t ?k b ps1)"
    if "stepKind (t_kind ?t) \<noteq> WaitStep" "\<not> over_limit ?k ?g ps1"
      "\<not> list_ex (areas_conflict h ?g ?t) (ps_occupied ps1)"
      "b = best_node ?k ?t (ps_reservations ps1) now nodes" "b \<noteq> []" for b
  proof -
    from that(4,5) best_node_spec obtain n where n: "n \<in> set nodes" "n_id n = b"
      "eligible_node ?k ?t now n" "0 < Slots n (ps_reservations ps1) (t_resources ?t) now"
      unfolding chosen_def by metis
    then have "n \<in> set (st_nodes s)" using assms(4) by auto
    with move_intros(15) [OF c1(1) that(1,2) _ _ n(3,4)] that(3) n(2) show ?thesis
      by (auto simp: list_ex_iff)
  qed
  have eq: "place h s now nodes c ps =
      (if stepKind (t_kind ?t) = WaitStep then add_action h s ?g ?t ?k [] [] now ps1
       else if over_limit ?k ?g ps1
       then add_wait ?g (t_id ?t) ''run_limit'' ''run_limit.changed'' now
              (queue_goal ?g (ls_reason (person_limit ps1 ?g)) ps1)
       else if list_ex (areas_conflict h ?g ?t) (ps_occupied ps1)
       then add_wait ?g (t_id ?t) ''area'' ''merge.landed'' now ps1
       else let best = best_node ?k ?t (ps_reservations ps1) now nodes
            in if best = [] then
                 if quota_blocked ?t now nodes
                 then add_wait ?g (t_id ?t) ''worker_quota'' ''quota.changed'' now
                        (queue_goal ?g reason_quota ps1)
                 else add_wait ?g (t_id ?t) ''host_capacity'' ''node.changed'' now
                        (queue_goal ?g reason_load ps1)
               else start_worker h s now ?g ?t ?k best ps1)"
    by (simp add: place_def ps1_def Let_def)
  have m2: "pass_moves h s now ps1 (place h s now nodes c ps)"
    unfolding eq Let_def
    using move_intros(14) [OF c1(1)] move_intros(1) [OF assms(3), of now ps1] held start by auto
  have "ps_ready (place h s now nodes c ps) = ps_ready ps"
    unfolding eq using c1(2)
    by (simp add: Let_def add_wait_def queue_goal_def add_action_def plan_action_def start_worker_def occupy_def)
  with rtranclp_trans [OF m1 m2] show ?thesis by simp
qed

lemma derive_liveness_moves:
  assumes "g \<in> set (derive_goals h s)"
  shows "pass_moves h s now ps (derive_liveness h s now g ps)"
proof (cases "goal_final g \<or> g_paused g \<or> g_definition_pending g")
  case True
  then show ?thesis by (simp add: derive_liveness_def)
next
  case False
  then have g: "open_goal h s g" using assms by (simp add: open_goal_def live_goal_def)
  show ?thesis
    using False move_intros(17) [OF g, of now ps] move_intros(18) [OF g _ _ refl, of ps now]
      move_intros(19) [OF g, of ps now]
    by (auto simp: derive_liveness_def Let_def)
qed

text \<open>Every candidate of the pass is a live goal's open task, ready for its worker kind.\<close>

definition candidates_ok :: "host \<Rightarrow> state \<Rightarrow> pass \<Rightarrow> bool" where
  "candidates_ok h s ps \<longleftrightarrow>
     (\<forall>c \<in> set (ps_ready ps).
        open_task h s (cd_goal c) (cd_task c) \<and> worker_ready (cd_goal c) (cd_task c) (cd_kind c))"

lemmas op_defs = add_wait_def queue_goal_def add_action_def plan_action_def start_worker_def
  occupy_def take_slot_def block_goal_def close_goal_def

lemma candidates_ok_move:
  "pass_move h s now ps ps' \<Longrightarrow> candidates_ok h s ps \<Longrightarrow> candidates_ok h s ps'"
  by (induction rule: pass_move.induct) (auto simp: candidates_ok_def op_defs Let_def)

lemma candidates_ok_moves:
  "pass_moves h s now ps ps' \<Longrightarrow> candidates_ok h s ps \<Longrightarrow> candidates_ok h s ps'"
  by (rule pass_moves_invariant) (auto intro: candidates_ok_move)

lemma place_all_moves:
  assumes "candidates_ok h s ps" and "\<forall>g \<in> set (derive_goals h s). g_id g \<noteq> []"
  shows "pass_moves h s now ps (place_all h s now ps)"
proof -
  have c: "live_goal h s (cd_goal c) \<and> g_id (cd_goal c) \<noteq> []" if "c \<in> set (ps_ready ps)" for c
    using that assms by (auto simp: candidates_ok_def open_task_def open_goal_def live_goal_def)
  have "pass_moves h s now q (place h s now (sort_key n_id (st_nodes s)) c q) \<and>
        ps_ready (place h s now (sort_key n_id (st_nodes s)) c q) = ps_ready ps"
    if "c \<in> set (sort_key candidate_key (ps_ready ps))" "ps_ready q = ps_ready ps" for c q
    using that c place_moves [of c q h s "sort_key n_id (st_nodes s)" now] by auto
  then show ?thesis
    unfolding place_all_def
    by (intro pass_moves_fold [where Q = "\<lambda>q. ps_ready q = ps_ready ps", THEN conjunct1]) auto
qed

section \<open>The refinement\<close>

text \<open>The pass before the moves: what the scan of the goals leaves.\<close>

definition scanned :: "host \<Rightarrow> state \<Rightarrow> int \<Rightarrow> pass \<Rightarrow> bool" where
  "scanned h s now ps \<longleftrightarrow>
     fold_result (scan_goal s) (derive_goals h s) (initial_pass h s now) = Inr ps"

lemma scan_goal_frame:
  assumes "scan_goal s g ps = Inr ps'"
  shows "ps_plan ps' = ps_plan ps \<and> ps_reservations ps' = ps_reservations ps \<and>
         ps_ready ps' = ps_ready ps \<and> ps_running ps' = ps_running ps \<and> ps_holds ps' = ps_holds ps"
proof -
  have "ps_plan (fold (scan_task s g) ts ps) = ps_plan ps \<and>
      ps_reservations (fold (scan_task s g) ts ps) = ps_reservations ps \<and>
      ps_ready (fold (scan_task s g) ts ps) = ps_ready ps \<and>
      ps_running (fold (scan_task s g) ts ps) = ps_running ps \<and>
      ps_holds (fold (scan_task s g) ts ps) = ps_holds ps" for ts
    by (induction ts arbitrary: ps) (auto simp: scan_task_def Let_def take_slot_def occupy_def)
  with assms show ?thesis by (auto simp: scan_goal_def split: if_splits)
qed

lemma scanned_frame:
  assumes "scanned h s now ps"
  shows "ps_plan ps = ps_plan (initial_pass h s now)" "ps_reservations ps = st_actions s"
    "ps_ready ps = []" "ps_running ps = ps_running (initial_pass h s now)" "ps_holds ps = []"
proof -
  let ?P = "\<lambda>ps. ps_plan ps = ps_plan (initial_pass h s now) \<and> ps_reservations ps = st_actions s \<and>
    ps_ready ps = [] \<and> ps_running ps = ps_running (initial_pass h s now) \<and> ps_holds ps = []"
  have "?P ps"
  proof (rule fold_result_invariant [where P = ?P])
    show "fold_result (scan_goal s) (derive_goals h s) (initial_pass h s now) = Inr ps"
      using assms by (simp add: scanned_def)
    show "?P (initial_pass h s now)" by (simp add: initial_pass_def Let_def)
  qed (auto dest: scan_goal_frame)
  then show "ps_plan ps = ps_plan (initial_pass h s now)" "ps_reservations ps = st_actions s"
    "ps_ready ps = []" "ps_running ps = ps_running (initial_pass h s now)" "ps_holds ps = []" by auto
qed

lemma scanned_valid:
  assumes "scanned h s now ps" and "g \<in> set (derive_goals h s)"
  shows "validateGoalState g (g_definition_pending g) \<or> quarantined g"
proof -
  have "fold_result (scan_goal s) gs p = Inr q \<Longrightarrow> g \<in> set gs \<Longrightarrow>
      validateGoalState g (g_definition_pending g) \<or> quarantined g" for gs p q
    by (induction gs arbitrary: p) (auto simp: bind_result_eq_Inr scan_goal_def split: if_splits)
  with assms show ?thesis unfolding scanned_def by blast
qed

theorem Derive_refines:
  assumes "Derive_pass h s now = Inr ps" and "\<forall>g \<in> set (st_goals s). g_id g \<noteq> []"
  shows "\<exists>ps0. scanned h s now ps0 \<and> pass_moves h s now ps0 ps"
proof -
  obtain ps0 ps1 where s0: "scanned h s now ps0"
    and s1: "fold_result (derive_goal h s now) (derive_goals h s) ps0 = Inr ps1"
    and fin: "ps = finish_pass h s now (place_all h s now ps1)"
    using assms(1) by (auto simp: Derive_pass_def bind_result_eq_Inr scanned_def)
  have ids: "\<forall>g \<in> set (derive_goals h s). g_id g \<noteq> []"
    using assms(2) by (auto simp: derive_goals_def)
  have m1: "pass_moves h s now ps0 ps1"
    using fold_result_moves [where pr = id, OF _ s1] derive_goal_moves by force
  have "candidates_ok h s ps1"
    using candidates_ok_moves [OF m1] scanned_frame(3) [OF s0] by (simp add: candidates_ok_def)
  then have m2: "pass_moves h s now ps1 (place_all h s now ps1)"
    using ids by (rule place_all_moves)
  let ?q = "place_all h s now ps1"
  have "pass_moves h s now ?q (?q\<lparr>ps_plan := (ps_plan ?q)\<lparr>pl_queues := queue_places ?q\<rparr>\<rparr>)"
    by (rule move_intros(16))
  also have "pass_moves h s now \<dots> ps"
    unfolding fin finish_pass_def Let_def
    by (rule pass_moves_fold [where Q = "\<lambda>_. True", THEN conjunct1])
      (auto intro: derive_liveness_moves)
  finally show ?thesis using s0 m1 m2 by (meson rtranclp_trans)
qed

end
