(* ===== verification/GoalPlan.thy ===== *)
theory GoalPlan
  imports GoalMoves
begin

text \<open>
  What a plan guarantees: why each action is in it, at most one merge per base branch, host
  capacity, the run limit of a person, disjoint areas, closing only a proven goal, and that
  no open goal is left without anything to happen. Each is an invariant of the moves of
  \<open>GoalMoves\<close>.
\<close>

section \<open>Why an action is planned\<close>

inductive explained :: "host \<Rightarrow> state \<Rightarrow> int \<Rightarrow> action \<Rightarrow> bool" for h s now where
  read: "\<lbrakk>open_goal h s g; w \<in> set (g_waits g); a = readAction h g (w\<lparr>w_goal_id := g_id g\<rparr>) cause signal now\<rbrakk>
         \<Longrightarrow> explained h s now a"
| correct: "\<lbrakk>live_goal h s g; g_definition_pending g; unsettled s g = []; \<not> pending (st_actions s) (g_id g) []\<rbrakk>
         \<Longrightarrow> explained h s now (planned_action h s g zero_task PlanGoal (g_record_revision g) [] now)"
| act: "\<lbrakk>open_task h s g t; task_action t k revision\<rbrakk>
         \<Longrightarrow> explained h s now (planned_action h s g t k revision [] now)"
| merge: "\<lbrakk>open_task h s g t; t_stage t = TaskDelivered; merge_ready t\<rbrakk>
         \<Longrightarrow> explained h s now (planned_action h s g t Merge (t_head t) [] now)"
| worker: "\<lbrakk>open_task h s g t; worker_ready g t k\<rbrakk>
         \<Longrightarrow> explained h s now (planned_action h s g t k revision node now)"
| finish: "\<lbrakk>all_landed h s g; finish_action g k\<rbrakk>
         \<Longrightarrow> explained h s now (planned_action h s g zero_task k (g_target_revision g) [] now)"
| assess: "\<lbrakk>all_landed h s g; deployed g; g' = g \<or> g' = first_round g\<rbrakk>
         \<Longrightarrow> explained h s now (assessment h g' revision failure now)"
| check: "\<lbrakk>verified h s g; c \<in> set (goalCriteria g); \<not> criterionMet h (first_round g) c\<rbrakk>
         \<Longrightarrow> explained h s now (criterion_action h (first_round g) c now)"
| manager: "\<lbrakk>open_goal h s g; g_manager_turns g = 0; a = planned_action h s g zero_task PlanGoal [] [] now\<rbrakk>
         \<Longrightarrow> explained h s now (a\<lparr>a_open_criteria := cs\<rparr>)"

lemma planned_action_fields [simp]:
  "a_goal_id (planned_action h s g t k r n now) = g_id g"
  "a_task_id (planned_action h s g t k r n now) = t_id t"
  "a_kind (planned_action h s g t k r n now) = k"
  "a_revision (planned_action h s g t k r n now) = r"
  "a_node_id (planned_action h s g t k r n now) = n"
  "a_state (planned_action h s g t k r n now) = Queued"
  "a_step_kind (planned_action h s g t k r n now) = t_kind t"
  by (simp_all add: planned_action_def Let_def)

lemma planned_action_resources:
  "workerAction k \<Longrightarrow> stepKind (t_kind t) \<noteq> WaitStep \<Longrightarrow>
     a_resources (planned_action h s g t k r n now) = t_resources t"
  by (simp add: planned_action_def Let_def)

lemma other_action_fields [simp]:
  "a_goal_id (assessment h g r f now) = g_id g" "a_kind (assessment h g r f now) = PlanGoal"
  "a_state (assessment h g r f now) = Queued" "a_task_id (assessment h g r f now) = []"
  "a_goal_id (criterion_action h g c now) = g_id g" "a_kind (criterion_action h g c now) = CheckCriterion"
  "a_state (criterion_action h g c now) = Queued" "a_task_id (criterion_action h g c now) = []"
  "a_goal_id (readAction h g w cause sig now) = g_id g" "a_kind (readAction h g w cause sig now) = ReadSource"
  "a_state (readAction h g w cause sig now) = Queued"
  by (simp_all add: assessment_def criterion_action_def readAction_def Let_def zero_action_def)

lemma queueDueRead_reads:
  "queueDueRead h s g w now = (reads, w') \<Longrightarrow> a \<in> set reads \<Longrightarrow> \<exists>cause sig. a = readAction h g w cause sig now"
  by (auto simp: queueDueRead_def split: if_splits) blast+

definition plan_explained :: "host \<Rightarrow> state \<Rightarrow> int \<Rightarrow> pass \<Rightarrow> bool" where
  "plan_explained h s now ps \<longleftrightarrow> (\<forall>a \<in> set (pl_actions (ps_plan ps)). explained h s now a)"

lemma plan_explained_move:
  assumes "pass_move h s now ps ps'" and "candidates_ok h s ps" and "plan_explained h s now ps"
  shows "plan_explained h s now ps'"
  using assms
proof (induction rule: pass_move.induct)
  case (hold g w reads w' ps)
  then show ?case
    by (auto simp: plan_explained_def dest!: queueDueRead_reads intro: explained.read)
next
  case (wait_step c ps)
  then show ?case
    by (auto simp: plan_explained_def candidates_ok_def op_defs Let_def intro: explained.worker)
next
  case (start c ps n)
  then show ?case
    by (auto simp: plan_explained_def candidates_ok_def op_defs Let_def intro: explained.worker)
qed (auto simp: plan_explained_def op_defs Let_def intro: explained.intros)

lemma pass_moves_explained:
  assumes "pass_moves h s now ps ps'" and "candidates_ok h s ps" and "plan_explained h s now ps"
  shows "candidates_ok h s ps' \<and> plan_explained h s now ps'"
  using assms(1)
  by (rule pass_moves_invariant)
    (use assms(2,3) in \<open>auto intro: candidates_ok_move plan_explained_move\<close>)

text \<open>The states the journal can hold: one goal per id, named goals, one host per id.\<close>

definition keyed_state :: "state \<Rightarrow> bool" where
  "keyed_state s \<longleftrightarrow>
     distinct (map g_id (st_goals s)) \<and> [] \<notin> set (map g_id (st_goals s)) \<and>
     distinct (map n_id (st_nodes s))"

lemma keyed_goal_unique:
  assumes "keyed_state s" and "g \<in> set (derive_goals h s)" and "g' \<in> set (derive_goals h s)"
    and "g_id g = g_id g'"
  shows "g = g'"
proof -
  have "distinct (map g_id (map (\<lambda>g. g\<lparr>g_target_revision := targetRevision h g\<rparr>) (st_goals s)))"
    using assms(1) by (simp add: keyed_state_def o_def)
  then have "distinct (map g_id (derive_goals h s))"
    unfolding derive_goals_def distinct_map [of g_id] by (simp only: distinct_sort set_sort)
  with assms(2-4) show ?thesis by (meson distinct_map inj_onD)
qed

lemma Derive_cases:
  assumes "Derive h s now = Inr p" and "keyed_state s"
  obtains ps0 ps where "scanned h s now ps0" "pass_moves h s now ps0 ps" "p = ps_plan ps"
    "Derive_pass h s now = Inr ps"
proof -
  obtain ps where ps: "Derive_pass h s now = Inr ps" "p = ps_plan ps"
    using assms(1) by (auto simp: Derive_def bind_result_eq_Inr)
  have "\<forall>g \<in> set (st_goals s). g_id g \<noteq> []"
    using assms(2) by (force simp: keyed_state_def)
  from Derive_refines [OF ps(1) this] ps that show ?thesis by blast
qed

lemma initial_plan [simp]: "pl_actions (ps_plan (initial_pass h s now)) = []"
  "pl_close (ps_plan (initial_pass h s now)) = []" "pl_waits (ps_plan (initial_pass h s now)) = []"
  by (simp_all add: initial_pass_def Let_def empty_plan_def)

lemma Derive_explained:
  assumes "Derive h s now = Inr p" and "keyed_state s" and "a \<in> set (pl_actions p)"
  shows "explained h s now a"
proof -
  obtain ps0 ps where d: "scanned h s now ps0" "pass_moves h s now ps0 ps" "p = ps_plan ps"
    using Derive_cases [OF assms(1,2)] by metis
  have "plan_explained h s now ps"
    using pass_moves_explained [OF d(2)] scanned_frame [OF d(1)]
    by (simp add: candidates_ok_def plan_explained_def)
  with d(3) assms(3) show ?thesis by (simp add: plan_explained_def)
qed

section \<open>Consequences\<close>

lemma explained_live:
  "explained h s now a \<Longrightarrow> \<exists>g. live_goal h s g \<and> a_goal_id a = g_id g \<and> a_state a = Queued"
  by (induction rule: explained.induct)
    (auto simp: open_task_def open_goal_def verified_def all_landed_def)

lemma deps_landed_iff:
  "deps_landed g t \<longleftrightarrow> (\<forall>d \<in> set (t_depends_on t). \<exists>u. goalTask g d = Some u \<and> stepLanded u)"
proof -
  have "\<not> stepLanded zero_task"
    by (simp add: stepLanded_def zero_task_def proves_def no_proof_def)
  then show ?thesis
    by (fastforce simp: deps_landed_def list_all_iff task_or_zero_def split: option.splits)
qed

lemma explained_worker:
  assumes "explained h s now a" and "workerAction (a_kind a)"
  shows "\<exists>g t. open_task h s g t \<and> worker_ready g t (a_kind a) \<and> a_goal_id a = g_id g \<and>
               a_task_id a = t_id t \<and> a_step_kind a = t_kind t"
  using assms
  by (induction rule: explained.induct) (auto simp: task_action_def finish_action_def)

lemma explained_merge:
  assumes "explained h s now a" and "a_kind a = Merge"
  shows "\<exists>g t. open_task h s g t \<and> t_stage t = TaskDelivered \<and> merge_ready t \<and> a_goal_id a = g_id g \<and>
               a_task_id a = t_id t \<and> a_revision a = t_head t"
  using assms
  by (induction rule: explained.induct) (auto simp: task_action_def finish_action_def worker_ready_def)

lemma explained_lifecycle:
  assumes "explained h s now a" and "a_kind a \<in> {Deploy, Verify, CheckCriterion}"
  shows "\<exists>g. all_landed h s g \<and> a_goal_id a = g_id g \<and>
             (a_kind a \<noteq> Deploy \<longrightarrow> deployed g) \<and>
             (a_kind a = CheckCriterion \<longrightarrow> proves (g_verification g) (g_target_revision g))"
  using assms
  by (induction rule: explained.induct)
    (auto simp: task_action_def finish_action_def worker_ready_def verified_def)

lemma explained_pending:
  assumes "explained h s now a" and "live_goal h s g" and "g_definition_pending g"
    and "a_goal_id a = g_id g" and "keyed_state s"
  shows "a_kind a = PlanGoal \<and> unsettled s g = []"
proof -
  have uniq: "g' = g" if "live_goal h s g'" "g_id g' = g_id g" for g'
    using that assms(2,5) keyed_goal_unique unfolding live_goal_def by blast
  from assms(1,3,4) show ?thesis
    by (induction rule: explained.induct)
      (auto simp: open_task_def open_goal_def verified_def all_landed_def dest!: uniq)
qed

section \<open>Merge slots\<close>

definition is_merge :: "action \<Rightarrow> bool" where
  "is_merge a \<longleftrightarrow> a_kind a = Merge"

definition merge_of :: "host \<Rightarrow> state \<Rightarrow> int \<Rightarrow> goal \<times> task \<Rightarrow> action" where
  "merge_of h s now gt = planned_action h s (fst gt) (snd gt) Merge (t_head (snd gt)) [] now"

text \<open>The planned merges, oldest first, hold distinct slots that were free before the pass.\<close>

definition merges_ok :: "host \<Rightarrow> state \<Rightarrow> int \<Rightarrow> string list \<Rightarrow> pass \<Rightarrow> bool" where
  "merges_ok h s now slots0 ps \<longleftrightarrow>
     (\<exists>gts. filter is_merge (pl_actions (ps_plan ps)) = map (merge_of h s now) gts \<and>
        (\<forall>(g, t) \<in> set gts. open_task h s g t) \<and>
        ps_merge_slots ps = rev (map (merge_slot \<circ> snd) gts) @ slots0 \<and>
        distinct (map (merge_slot \<circ> snd) gts) \<and>
        (\<forall>(g, t) \<in> set gts. merge_slot t \<notin> set slots0))"

lemma merges_ok_other:
  assumes "merges_ok h s now slots ps"
    and "filter is_merge (pl_actions (ps_plan ps')) = filter is_merge (pl_actions (ps_plan ps))"
    and "ps_merge_slots ps' = ps_merge_slots ps"
  shows "merges_ok h s now slots ps'"
  using assms by (simp add: merges_ok_def)

lemma queueDueRead_merge: "queueDueRead h s g w now = (reads, w') \<Longrightarrow> filter is_merge reads = []"
  by (auto simp: filter_empty_conv is_merge_def dest!: queueDueRead_reads)

lemma worker_ready_kinds: "worker_ready g t k \<Longrightarrow> workerAction k"
  by (auto simp: worker_ready_def)

lemma not_merge_kinds:
  "worker_ready g t k \<Longrightarrow> k \<noteq> Merge" "task_action t k r \<Longrightarrow> k \<noteq> Merge" "finish_action g k \<Longrightarrow> k \<noteq> Merge"
  by (auto simp: worker_ready_def task_action_def finish_action_def)

lemma merges_ok_move:
  assumes "pass_move h s now ps ps'" and "candidates_ok h s ps" and "merges_ok h s now slots ps"
  shows "merges_ok h s now slots ps'"
  using assms
proof (induction rule: pass_move.induct)
  case (merge g t ps)
  then obtain gts where gts: "filter is_merge (pl_actions (ps_plan ps)) = map (merge_of h s now) gts"
    "\<forall>(g, t) \<in> set gts. open_task h s g t"
    "ps_merge_slots ps = rev (map (merge_slot \<circ> snd) gts) @ slots"
    "distinct (map (merge_slot \<circ> snd) gts)" "\<forall>(g, t) \<in> set gts. merge_slot t \<notin> set slots"
    by (auto simp: merges_ok_def)
  let ?gts = "gts @ [(g, t)]"
  have "merge_slot t \<notin> set (map (merge_slot \<circ> snd) gts)" "merge_slot t \<notin> set slots"
    using merge(4) gts(3) by auto
  moreover have "filter is_merge (pl_actions (ps_plan (take_slot t (add_action h s g t Merge (t_head t) [] now ps))))
      = map (merge_of h s now) ?gts"
    using gts(1) by (simp add: op_defs Let_def is_merge_def merge_of_def)
  moreover have "ps_merge_slots (take_slot t (add_action h s g t Merge (t_head t) [] now ps))
      = rev (map (merge_slot \<circ> snd) ?gts) @ slots"
    using gts(3) by (simp add: op_defs Let_def)
  ultimately show ?case
    using gts(2,4,5) merge(1) unfolding merges_ok_def by (intro exI [of _ ?gts]) simp
next
  case (hold g w reads w' ps)
  from hold(6) show ?case
    by (rule merges_ok_other) (use queueDueRead_merge [OF hold(4)] in simp_all)
next
  case (wait_step c ps)
  then show ?case
    by (intro merges_ok_other [OF wait_step(4)])
      (auto simp: op_defs Let_def is_merge_def candidates_ok_def dest: not_merge_kinds(1))
next
  case (start c ps n)
  then show ?case
    by (intro merges_ok_other [OF start(9)])
      (auto simp: op_defs Let_def is_merge_def candidates_ok_def dest: not_merge_kinds(1))
qed (erule merges_ok_other, auto simp: op_defs Let_def is_merge_def dest: not_merge_kinds)+

lemma pass_moves_merges:
  assumes "pass_moves h s now ps ps'" and "candidates_ok h s ps" and "merges_ok h s now slots ps"
  shows "merges_ok h s now slots ps'"
proof -
  have "candidates_ok h s ps' \<and> merges_ok h s now slots ps'"
    using assms(1) by (rule pass_moves_invariant)
      (use assms(2,3) in \<open>auto intro: candidates_ok_move merges_ok_move\<close>)
  then show ?thesis by simp
qed

text \<open>The scan takes the slot of every merge that is still open.\<close>

lemma scan_task_merge_slots:
  "ps_merge_slots (scan_task s g t ps) =
     (if merge_pending s g t then merge_slot t # ps_merge_slots ps else ps_merge_slots ps)"
  by (simp add: scan_task_def Let_def take_slot_def occupy_def)

lemma scan_slots_mono:
  "set (ps_merge_slots ps) \<subseteq> set (ps_merge_slots (fold (scan_task s g) ts ps))"
proof (induction ts arbitrary: ps)
  case (Cons t ts)
  have "set (ps_merge_slots ps) \<subseteq> set (ps_merge_slots (scan_task s g t ps))"
    by (auto simp: scan_task_merge_slots)
  with Cons [of "scan_task s g t ps"] show ?case by simp
qed simp

lemma scan_task_slots:
  "t \<in> set ts \<Longrightarrow> merge_pending s g t \<Longrightarrow> merge_slot t \<in> set (ps_merge_slots (fold (scan_task s g) ts ps))"
proof (induction ts arbitrary: ps)
  case (Cons u ts)
  show ?case
  proof (cases "t = u")
    case True
    then have "merge_slot t \<in> set (ps_merge_slots (scan_task s g u ps))"
      using Cons.prems(2) by (simp add: scan_task_merge_slots)
    then show ?thesis using scan_slots_mono by fastforce
  qed (use Cons in simp)
qed simp

lemma scanned_slots:
  assumes "scanned h s now ps" and "g \<in> set (derive_goals h s)" and "t \<in> set (g_tasks g)"
    and "merge_pending s g t"
  shows "merge_slot t \<in> set (ps_merge_slots ps)"
proof -
  have mono: "fold_result (scan_goal s) gs p = Inr q \<Longrightarrow> set (ps_merge_slots p) \<subseteq> set (ps_merge_slots q)" for gs p q
  proof (induction gs arbitrary: p)
    case (Cons x gs)
    then obtain r where "scan_goal s x p = Inr r" "fold_result (scan_goal s) gs r = Inr q"
      by (auto simp: bind_result_eq_Inr)
    with Cons.IH scan_slots_mono show ?case by (fastforce simp: scan_goal_def split: if_splits)
  qed simp
  have "fold_result (scan_goal s) gs p = Inr q \<Longrightarrow> g \<in> set gs \<Longrightarrow> merge_slot t \<in> set (ps_merge_slots q)" for gs p q
  proof (induction gs arbitrary: p)
    case (Cons x gs)
    then obtain r where r: "scan_goal s x p = Inr r" "fold_result (scan_goal s) gs r = Inr q"
      by (auto simp: bind_result_eq_Inr)
    show ?case
    proof (cases "g = x")
      case True
      then have "merge_slot t \<in> set (ps_merge_slots r)"
        using r(1) scan_task_slots [OF assms(3,4)] by (auto simp: scan_goal_def split: if_splits)
      then show ?thesis using mono [OF r(2)] by auto
    qed (use Cons r in auto)
  qed simp
  with assms(1,2) show ?thesis unfolding scanned_def by blast
qed

text \<open>
  C3: A plan starts at most one merge for each repository and base, only for open tasks, and never
  one for a slot that an unfinished merge already holds.
\<close>

lemma Derive_merges:
  assumes "Derive h s now = Inr p" and "keyed_state s"
  shows "\<exists>gts. filter is_merge (pl_actions p) = map (merge_of h s now) gts \<and>
           (\<forall>(g, t) \<in> set gts. open_task h s g t) \<and> distinct (map (merge_slot \<circ> snd) gts) \<and>
           (\<forall>(g, t) \<in> set gts. \<forall>g' \<in> set (derive_goals h s). \<forall>t' \<in> set (g_tasks g').
              merge_pending s g' t' \<longrightarrow> merge_slot t' \<noteq> merge_slot t)"
proof -
  obtain ps0 ps where d: "scanned h s now ps0" "pass_moves h s now ps0 ps" "p = ps_plan ps"
    using Derive_cases [OF assms(1,2)] by metis
  have "merges_ok h s now (ps_merge_slots ps0) ps"
    using pass_moves_merges [OF d(2)] scanned_frame [OF d(1)]
    by (simp add: candidates_ok_def merges_ok_def)
  then obtain gts where gts: "filter is_merge (pl_actions p) = map (merge_of h s now) gts"
    "\<forall>(g, t) \<in> set gts. open_task h s g t" "distinct (map (merge_slot \<circ> snd) gts)"
    "\<forall>(g, t) \<in> set gts. merge_slot t \<notin> set (ps_merge_slots ps0)"
    using d(3) unfolding merges_ok_def by (elim exE conjE) simp
  have "\<forall>(g, t) \<in> set gts. \<forall>g' \<in> set (derive_goals h s). \<forall>t' \<in> set (g_tasks g').
      merge_pending s g' t' \<longrightarrow> merge_slot t' \<noteq> merge_slot t"
  proof clarify
    fix g t g' t'
    assume gt: "(g, t) \<in> set gts" and g': "g' \<in> set (derive_goals h s)" "t' \<in> set (g_tasks g')"
      and m: "merge_pending s g' t'" "merge_slot t' = merge_slot t"
    from scanned_slots [OF d(1) g' m(1)] m(2) have "merge_slot t \<in> set (ps_merge_slots ps0)" by simp
    with gts(4) gt show False by auto
  qed
  with gts(1-3) show ?thesis by (intro exI [of _ gts] conjI)
qed

end
