(* ===== verification/GoalPlacement.thy ===== *)
theory GoalPlacement
  imports GoalPlan
begin

text \<open>
  Placement and closing: the reservations a plan adds stay within each host's installed
  caps, the goals of a person that hold a run slot stay within the limit of the pass, the
  steps that run at once have disjoint areas, a goal closes only when everything it promised
  is proven, and every open goal is left with something that will happen.
\<close>

section \<open>Reservations\<close>

lemma reserves_planned:
  "reserves (planned_action h s g t k r n now) \<longleftrightarrow> workerAction k \<and> stepKind (t_kind t) \<noteq> WaitStep"
  by (simp add: reserves_def)

lemma reserves_other [simp]:
  "\<not> reserves (assessment h g r f now)" "\<not> reserves (criterion_action h g c now)"
  "\<not> reserves (readAction h g w cause sig now)"
  by (simp_all add: reserves_def)

lemma queueDueRead_reserves: "queueDueRead h s g w now = (reads, w') \<Longrightarrow> filter reserves reads = []"
  by (auto simp: filter_empty_conv dest!: queueDueRead_reads)

lemma not_worker_kinds: "task_action t k r \<Longrightarrow> \<not> workerAction k" "finish_action g k \<Longrightarrow> \<not> workerAction k"
  by (auto simp: task_action_def finish_action_def)

lemma stage_kind_zero [simp]: "t_kind zero_task = StepUnset"
  by (simp add: zero_task_def)

lemma reserves_open_criteria [simp]: "reserves (a\<lparr>a_open_criteria := cs\<rparr>) = reserves a"
  by (simp add: reserves_def)

text \<open>
  Everything but the start of a worker leaves the reserving actions, the running goals and
  the occupied areas alone.
\<close>

definition same_reservations :: "pass \<Rightarrow> pass \<Rightarrow> bool" where
  "same_reservations ps ps' \<longleftrightarrow>
     filter reserves (ps_reservations ps') = filter reserves (ps_reservations ps) \<and>
     filter reserves (pl_actions (ps_plan ps')) = filter reserves (pl_actions (ps_plan ps)) \<and>
     ps_running ps' = ps_running ps \<and> ps_occupied ps' = ps_occupied ps \<and>
     pl_run_limits (ps_plan ps') = pl_run_limits (ps_plan ps)"

lemma pass_move_reservations:
  assumes "pass_move h s now ps ps'" and "candidates_ok h s ps"
  shows "same_reservations ps ps' \<or>
     (\<exists>c n. c \<in> set (ps_ready ps) \<and> stepKind (t_kind (cd_task c)) \<noteq> WaitStep \<and>
        \<not> over_limit (cd_kind c) (cd_goal c) ps \<and>
        (\<forall>occ \<in> set (ps_occupied ps). \<not> areas_conflict h (cd_goal c) (cd_task c) occ) \<and>
        n \<in> set (st_nodes s) \<and> eligible_node (cd_kind c) (cd_task c) now n \<and>
        0 < Slots n (ps_reservations ps) (t_resources (cd_task c)) now \<and>
        ps' = start_worker h s now (cd_goal c) (cd_task c) (cd_kind c) (n_id n) ps)"
  using assms
proof (induction rule: pass_move.induct)
  case (hold g w reads w' ps)
  then show ?case by (auto simp: same_reservations_def dest: queueDueRead_reserves)
next
  case (start c ps n)
  then show ?case by blast
qed (simp_all add: same_reservations_def op_defs Let_def reserves_planned not_worker_kinds)

lemma start_worker_fields:
  fixes h s g now i
  assumes "workerAction k" and "stepKind (t_kind t) \<noteq> WaitStep"
  defines "a \<equiv> planned_action h s g t k (t_head t) i now"
  shows "ps_reservations (start_worker h s now g t k i ps) = ps_reservations ps @ [a]"
    "pl_actions (ps_plan (start_worker h s now g t k i ps)) = pl_actions (ps_plan ps) @ [a]"
    "ps_running (start_worker h s now g t k i ps) = mark_goal (g_person g) (g_id g) (ps_running ps)"
    "ps_occupied (start_worker h s now g t k i ps) = ps_occupied ps @ [(g_id g, t)]"
    "pl_run_limits (ps_plan (start_worker h s now g t k i ps)) = pl_run_limits (ps_plan ps)"
    "reserves a" "a_resources a = t_resources t"
  using assms(1,2) by (simp_all add: a_def op_defs Let_def reserves_planned planned_action_resources)

text \<open>
  An invariant about reservations needs to be checked for the start of a worker only.
\<close>

lemma pass_moves_reservations:
  assumes "pass_moves h s now ps0 ps1" and "candidates_ok h s ps0" and "P ps0"
    and same: "\<And>ps ps'. \<lbrakk>same_reservations ps ps'; P ps\<rbrakk> \<Longrightarrow> P ps'"
    and start: "\<And>ps (c :: candidate) n. \<lbrakk>P ps; open_task h s (cd_goal c) (cd_task c);
        worker_ready (cd_goal c) (cd_task c) (cd_kind c);
        stepKind (t_kind (cd_task c)) \<noteq> WaitStep; \<not> over_limit (cd_kind c) (cd_goal c) ps;
        \<forall>occ \<in> set (ps_occupied ps). \<not> areas_conflict h (cd_goal c) (cd_task c) occ;
        n \<in> set (st_nodes s); eligible_node (cd_kind c) (cd_task c) now n;
        0 < Slots n (ps_reservations ps) (t_resources (cd_task c)) now\<rbrakk>
      \<Longrightarrow> P (start_worker h s now (cd_goal c) (cd_task c) (cd_kind c) (n_id n) ps)"
  shows "P ps1"
proof -
  have "candidates_ok h s ps1 \<and> P ps1"
    using assms(1)
  proof (rule pass_moves_invariant)
    show "candidates_ok h s ps0 \<and> P ps0" using assms(2,3) by simp
    fix ps ps'
    assume m: "pass_move h s now ps ps'" and p: "candidates_ok h s ps \<and> P ps"
    from pass_move_reservations [OF m conjunct1 [OF p]] have "P ps'"
    proof (elim disjE exE conjE)
      assume "same_reservations ps ps'"
      then show ?thesis using same p by blast
    next
      fix c n
      assume c: "c \<in> set (ps_ready ps)" and rest: "stepKind (t_kind (cd_task c)) \<noteq> WaitStep"
        "\<not> over_limit (cd_kind c) (cd_goal c) ps"
        "\<forall>occ \<in> set (ps_occupied ps). \<not> areas_conflict h (cd_goal c) (cd_task c) occ"
        "n \<in> set (st_nodes s)" "eligible_node (cd_kind c) (cd_task c) now n"
        "0 < Slots n (ps_reservations ps) (t_resources (cd_task c)) now"
        "ps' = start_worker h s now (cd_goal c) (cd_task c) (cd_kind c) (n_id n) ps"
      from p c have "open_task h s (cd_goal c) (cd_task c)"
        "worker_ready (cd_goal c) (cd_task c) (cd_kind c)"
        by (auto simp: candidates_ok_def)
      from start [OF conjunct2 [OF p] this rest(1-6)] rest(7) show ?thesis by simp
    qed
    then show "candidates_ok h s ps' \<and> P ps'" using candidates_ok_move [OF m] p by blast
  qed
  then show ?thesis by simp
qed

lemma carried_filter: "carried n as = filter (\<lambda>a. a_node_id a = n_id n) (filter reserves as)"
  by (auto simp: carried_def intro: filter_cong)

section \<open>Host capacity\<close>

definition node_room :: "state \<Rightarrow> node \<Rightarrow> pass \<Rightarrow> bool" where
  "node_room s n ps \<longleftrightarrow>
     carried n (ps_reservations ps) = carried n (st_actions s) @ carried n (pl_actions (ps_plan ps)) \<and>
     (carried n (pl_actions (ps_plan ps)) \<noteq> [] \<longrightarrow>
        memory_of (carried n (st_actions s @ pl_actions (ps_plan ps))) \<le> n_memory_limit_mb n \<and>
        disk_of (carried n (st_actions s @ pl_actions (ps_plan ps))) \<le> n_disk_limit_mb n)"

definition sums_fit :: "state \<Rightarrow> node \<Rightarrow> bool" where
  "sums_fit s n \<longleftrightarrow>
     memory_of (carried n (st_actions s)) < 2 ^ 63 \<and> disk_of (carried n (st_actions s)) < 2 ^ 63 \<and>
     n_memory_limit_mb n < 2 ^ 63 \<and> n_disk_limit_mb n < 2 ^ 63"

lemma disk_of_append [simp]: "disk_of (as @ bs) = disk_of as + disk_of bs"
  by (simp add: disk_of_def)

text \<open>
  C1: A planning pass never overcommits a host: after it, the memory and disk of every reservation
  the host carries, old and newly planned, stay within the host's limits.
\<close>

lemma Derive_capacity:
  assumes "Derive h s now = Inr p" and "keyed_state s" and "n \<in> set (st_nodes s)"
    and "sums_fit s n" and "carried n (pl_actions p) \<noteq> []"
  shows "memory_of (carried n (st_actions s @ pl_actions p)) \<le> n_memory_limit_mb n \<and>
         disk_of (carried n (st_actions s @ pl_actions p)) \<le> n_disk_limit_mb n"
proof -
  obtain ps0 ps where d: "scanned h s now ps0" "pass_moves h s now ps0 ps" "p = ps_plan ps"
    using Derive_cases [OF assms(1,2)] by metis
  have "node_room s n ps"
    using d(2)
  proof (rule pass_moves_reservations)
    show "candidates_ok h s ps0" "node_room s n ps0"
      using scanned_frame [OF d(1)] by (simp_all add: candidates_ok_def node_room_def carried_def)
  next
    fix q q'
    assume "same_reservations q q'" and "node_room s n q"
    moreover from this have "carried n (ps_reservations q') = carried n (ps_reservations q)"
      "carried n (pl_actions (ps_plan q')) = carried n (pl_actions (ps_plan q))"
      by (simp_all only: same_reservations_def carried_filter)
    ultimately show "node_room s n q'" by (simp add: node_room_def)
  next
    fix q m and c :: candidate
    assume room: "node_room s n q" and w: "worker_ready (cd_goal c) (cd_task c) (cd_kind c)"
      and k: "stepKind (t_kind (cd_task c)) \<noteq> WaitStep" and m: "m \<in> set (st_nodes s)"
      and slots: "0 < Slots m (ps_reservations q) (t_resources (cd_task c)) now"
    let ?a = "planned_action h s (cd_goal c) (cd_task c) (cd_kind c) (t_head (cd_task c)) (n_id m) now"
    note f = start_worker_fields [OF worker_ready_kinds [OF w] k]
    show "node_room s n (start_worker h s now (cd_goal c) (cd_task c) (cd_kind c) (n_id m) q)"
    proof (cases "m = n")
      case False
      then have "n_id m \<noteq> n_id n"
        using assms(2,3) m by (auto simp: keyed_state_def distinct_map inj_on_def)
      then have "carried n [?a] = []" by (simp add: carried_def)
      then show ?thesis using room f(1,2) by (simp add: node_room_def)
    next
      case True
      then have a: "carried n [?a] = [?a]" using f(6) by (simp add: carried_def)
      have "memory_of (carried n (ps_reservations q)) < 2 ^ 63 \<and> disk_of (carried n (ps_reservations q)) < 2 ^ 63"
        using room assms(4) by (auto simp: node_room_def sums_fit_def)
      then have "memory_of (carried n (ps_reservations q)) + r_memory_mb (t_resources (cd_task c)) \<le> n_memory_limit_mb n \<and>
          disk_of (carried n (ps_reservations q)) + r_disk_mb (t_resources (cd_task c)) \<le> n_disk_limit_mb n"
        using Slots_fits [OF slots] assms(4) True by (simp add: sums_fit_def)
      then show ?thesis using room f(1,2,7) a by (simp add: node_room_def)
    qed
  qed
  with d(3) assms(5) show ?thesis by (simp add: node_room_def)
qed

section \<open>The run limit\<close>

text \<open>The goals of a person whose worker step holds a run slot.\<close>

definition running_goals :: "state \<Rightarrow> string \<Rightarrow> action list \<Rightarrow> string set" where
  "running_goals s person as =
     {a_goal_id a | a. a \<in> set as \<and> reserves a \<and> a_task_id a \<noteq> [] \<and>
        (\<exists>g \<in> set (st_goals s). g_id g = a_goal_id a \<and> g_person g = person)}"

lemma personOf_get:
  assumes "distinct (map g_id gs)"
  shows "map_of (personOf gs) i = map_of (map (\<lambda>g. (g_id g, g_person g)) gs) i"
proof -
  have "map_of (fold (\<lambda>g m. mput (g_id g) (g_person g) m) gs m) i =
      (case map_of (map (\<lambda>g. (g_id g, g_person g)) gs) i of None \<Rightarrow> map_of m i | Some v \<Rightarrow> Some v)" for m
    using assms
  proof (induction gs arbitrary: m)
    case (Cons g gs)
    have "map_of (map (\<lambda>g. (g_id g, g_person g)) gs) (g_id g) = None"
      using Cons.prems by (auto simp: map_of_eq_None_iff image_image)
    with Cons show ?case by (auto simp: go_map split: option.splits)
  qed simp
  then show ?thesis by (simp add: personOf_def split: option.splits)
qed

lemma personOf_eq:
  assumes "distinct (map g_id gs)" and "p \<noteq> []"
  shows "mget [] (personOf gs) i = p \<longleftrightarrow> (\<exists>g \<in> set gs. g_id g = i \<and> g_person g = p)"
proof (cases "map_of (map (\<lambda>g. (g_id g, g_person g)) gs) i")
  case None
  then have "i \<notin> g_id ` set gs" by (simp add: map_of_eq_None_iff image_image)
  moreover have "mget [] (personOf gs) i = []"
    using None by (simp add: mget_def personOf_get [OF assms(1)])
  ultimately show ?thesis using assms(2) by auto
next
  case (Some v)
  then obtain g where g: "g \<in> set gs" "g_id g = i" "g_person g = v"
    by (auto dest!: map_of_SomeD)
  have "g' = g" if "g' \<in> set gs" "g_id g' = i" for g'
    using that g assms(1) by (auto simp: distinct_map inj_on_def)
  moreover have "mget [] (personOf gs) i = v"
    using Some by (simp add: mget_def personOf_get [OF assms(1)])
  ultimately show ?thesis using g by metis
qed

lemma inProgressGoals_set:
  assumes "p \<noteq> []"
  shows "set (mget [] (inProgressGoals as pm) p) =
         {a_goal_id a | a. a \<in> set as \<and> reserves a \<and> a_task_id a \<noteq> [] \<and> mget [] pm (a_goal_id a) = p}"
proof -
  let ?f = "\<lambda>a out. if \<not> reserves a \<or> a_task_id a = [] then out
                     else let person = mget [] pm (a_goal_id a)
                          in if person = [] then out else mark_goal person (a_goal_id a) out"
  have "set (mget [] (fold ?f as m) p) = set (mget [] m p) \<union>
      {a_goal_id a | a. a \<in> set as \<and> reserves a \<and> a_task_id a \<noteq> [] \<and> mget [] pm (a_goal_id a) = p}" for m
  proof (induction as arbitrary: m)
    case (Cons a as)
    have "set (mget [] (?f a m) p) = set (mget [] m p) \<union>
        (if reserves a \<and> a_task_id a \<noteq> [] \<and> mget [] pm (a_goal_id a) = p then {a_goal_id a} else {})"
      using assms by (auto simp: Let_def mget_mark_goal)
    then show ?case using Cons [of "?f a m"] by auto
  qed simp
  then show ?thesis by (simp add: inProgressGoals_def)
qed

lemma derive_goals_person:
  "(\<exists>g \<in> set (derive_goals h s). g_id g = i \<and> g_person g = p) \<longleftrightarrow>
   (\<exists>g \<in> set (st_goals s). g_id g = i \<and> g_person g = p)"
  by (auto simp: derive_goals_def)

lemma distinct_derive_goals: "keyed_state s \<Longrightarrow> distinct (map g_id (derive_goals h s))"
proof -
  assume "keyed_state s"
  then have "distinct (map g_id (map (\<lambda>g. g\<lparr>g_target_revision := targetRevision h g\<rparr>) (st_goals s)))"
    by (simp add: keyed_state_def o_def)
  then show ?thesis
    unfolding derive_goals_def distinct_map [of g_id] by (simp only: distinct_sort set_sort)
qed

lemma initial_running:
  assumes "keyed_state s" and "p \<noteq> []"
  shows "set (mget [] (ps_running (initial_pass h s now)) p) = running_goals s p (st_actions s)"
  using personOf_eq [OF distinct_derive_goals [OF assms(1)] assms(2)]
  by (simp add: initial_pass_def Let_def inProgressGoals_set [OF assms(2)] running_goals_def
      derive_goals_person)

lemma running_goals_append:
  "running_goals s p (as @ bs) = running_goals s p as \<union> running_goals s p bs"
  by (auto simp: running_goals_def)

lemma running_goals_filter: "running_goals s p (filter reserves as) = running_goals s p as"
  by (auto simp: running_goals_def)

definition limit_ok :: "state \<Rightarrow> string \<Rightarrow> int \<Rightarrow> pass \<Rightarrow> bool" where
  "limit_ok s p limit ps \<longleftrightarrow>
     distinct (mget [] (ps_running ps) p) \<and>
     set (mget [] (ps_running ps) p) = running_goals s p (st_actions s @ pl_actions (ps_plan ps)) \<and>
     ls_current (mget zero_limit (pl_run_limits (ps_plan ps)) p) = limit \<and>
     int (length (mget [] (ps_running ps) p)) \<le> max (int (card (running_goals s p (st_actions s)))) limit"

lemma open_task_valid:
  assumes "scanned h s now ps0" and "open_task h s g t"
  shows "t_id t \<noteq> [] \<and> g_person g \<noteq> [] \<and> validStepWork t"
proof -
  have "validateGoalState g False"
    using scanned_valid [OF assms(1), of g] assms(2)
    by (auto simp: open_task_def open_goal_def live_goal_def quarantined_def)
  then have "g_person g \<noteq> []" "validStepWork t"
    using assms(2) by (auto simp: validateGoalState_def open_task_def list_all_iff)
  then show ?thesis by (simp add: validStepWork_def split: if_splits)
qed

text \<open>
  C7: The goals of a person that hold a run slot after a pass are at most the applied run limit,
  or the number that already held one when that is larger.
\<close>

lemma Derive_run_limit:
  assumes "Derive h s now = Inr p" and "keyed_state s" and "person \<noteq> []"
  shows "int (card (running_goals s person (st_actions s @ pl_actions p))) \<le>
         max (int (card (running_goals s person (st_actions s))))
             (ls_current (mget zero_limit (pl_run_limits p) person))"
proof -
  obtain ps0 ps where d: "scanned h s now ps0" "pass_moves h s now ps0 ps" "p = ps_plan ps"
    using Derive_cases [OF assms(1,2)] by metis
  let ?L = "ls_current (mget zero_limit (pl_run_limits (ps_plan ps0)) person)"
  have "limit_ok s person ?L ps"
    using d(2)
  proof (rule pass_moves_reservations)
    have "distinct (mget [] (ps_running ps0) person)"
      using scanned_frame(4) [OF d(1)] inProgressGoals_distinct by (simp add: initial_pass_def Let_def)
    then show "candidates_ok h s ps0" "limit_ok s person ?L ps0"
      using scanned_frame [OF d(1)] initial_running [OF assms(2,3), of h now] distinct_card
      by (fastforce simp: candidates_ok_def limit_ok_def)+
  next
    fix q q'
    assume "same_reservations q q'" and "limit_ok s person ?L q"
    then show "limit_ok s person ?L q'"
      using running_goals_filter [of s person "pl_actions (ps_plan q')"]
        running_goals_filter [of s person "pl_actions (ps_plan q)"]
      by (simp add: same_reservations_def limit_ok_def running_goals_append)
  next
    fix q m and c :: candidate
    assume ok: "limit_ok s person ?L q" and t: "open_task h s (cd_goal c) (cd_task c)"
      and w: "worker_ready (cd_goal c) (cd_task c) (cd_kind c)"
      and k: "stepKind (t_kind (cd_task c)) \<noteq> WaitStep" and lim: "\<not> over_limit (cd_kind c) (cd_goal c) q"
    let ?g = "cd_goal c"
    let ?a = "planned_action h s ?g (cd_task c) (cd_kind c) (t_head (cd_task c)) (n_id m) now"
    let ?q = "start_worker h s now ?g (cd_task c) (cd_kind c) (n_id m) q"
    note f = start_worker_fields [OF worker_ready_kinds [OF w] k]
    have g: "?g \<in> set (derive_goals h s)"
      using t by (simp add: open_task_def open_goal_def live_goal_def)
    have run: "running_goals s person [?a] = (if g_person ?g = person then {g_id ?g} else {})"
    proof -
      have "(\<exists>x \<in> set (st_goals s). g_id x = g_id ?g \<and> g_person x = person) \<longleftrightarrow> g_person ?g = person"
        using derive_goals_person [of h s "g_id ?g" person] g keyed_goal_unique [OF assms(2) _ g] by blast
      then show ?thesis
        using f(6) open_task_valid [OF d(1) t] by (auto simp: running_goals_def)
    qed
    have all: "running_goals s person (st_actions s @ pl_actions (ps_plan ?q)) =
        running_goals s person (st_actions s @ pl_actions (ps_plan q)) \<union> running_goals s person [?a]"
      by (simp add: f(2) running_goals_append Un_assoc)
    show "limit_ok s person ?L ?q"
      using ok lim worker_ready_kinds [OF w] run
      unfolding limit_ok_def all f(3,5) over_limit_def person_limit_def mget_mark_goal by auto
  qed
  then have ok: "limit_ok s person ?L ps" .
  then have "int (card (running_goals s person (st_actions s @ pl_actions p))) \<le>
      max (int (card (running_goals s person (st_actions s)))) ?L"
    using distinct_card d(3) unfolding limit_ok_def by metis
  moreover have "?L = ls_current (mget zero_limit (pl_run_limits p) person)"
    using ok d(3) by (simp add: limit_ok_def)
  ultimately show ?thesis by simp
qed

section \<open>Disjoint areas\<close>

text \<open>
  The areas held after the pass: those of unsettled steps from the scan, then one per
  started worker, each without conflict with all before it.
\<close>

definition area_free :: "host \<Rightarrow> string \<times> task \<Rightarrow> string \<times> task \<Rightarrow> bool" where
  "area_free h held new \<longleftrightarrow>
     (fst held = fst new \<and> t_id (snd held) = t_id (snd new)) \<or> stepKind (t_kind (snd held)) = WaitStep \<or>
     t_area (snd held) = [] \<or> t_area (snd new) = [] \<or> t_repository (snd held) \<noteq> t_repository (snd new) \<or>
     \<not> h_overlap h (t_area (snd held)) (t_area (snd new))"

lemma area_free_conflict: "\<not> areas_conflict h g t occ \<longleftrightarrow> area_free h occ (g_id g, t)"
  by (auto simp: areas_conflict_def area_free_def split: prod.splits)

definition step_of :: "action \<Rightarrow> string \<times> string" where
  "step_of a = (a_goal_id a, a_task_id a)"

definition areas_ok :: "host \<Rightarrow> (string \<times> task) list \<Rightarrow> pass \<Rightarrow> bool" where
  "areas_ok h occ0 ps \<longleftrightarrow>
     (\<exists>new. ps_occupied ps = occ0 @ new \<and>
        map (\<lambda>(g, t). (g, t_id t)) new = map step_of (filter reserves (pl_actions (ps_plan ps))) \<and>
        (\<forall>o0 \<in> set occ0. \<forall>o1 \<in> set new. area_free h o0 o1) \<and> sorted_wrt (area_free h) new)"

text \<open>The areas the scan leaves occupied: unsettled work, stopped goals included.\<close>

definition holds_area :: "state \<Rightarrow> goal \<Rightarrow> task \<Rightarrow> bool" where
  "holds_area s g t \<longleftrightarrow>
     t_stage t \<notin> {TaskReady, TaskDone, TaskMerged, TaskQAFailed} \<and>
     \<not> (g_state g = GoalStopped \<and> t_effects_settled t \<and> \<not> merge_pending s g t)"

definition held_areas :: "host \<Rightarrow> state \<Rightarrow> (string \<times> task) list" where
  "held_areas h s =
     concat (map (\<lambda>g. map (\<lambda>t. (g_id g, t)) (filter (holds_area s g) (g_tasks g))) (derive_goals h s))"

lemma scan_fold_occupied:
  "ps_occupied (fold (scan_task s g) ts ps) = ps_occupied ps @ map (\<lambda>t. (g_id g, t)) (filter (holds_area s g) ts)"
  by (induction ts arbitrary: ps)
    (auto simp: scan_task_def Let_def take_slot_def occupy_def holds_area_def)

lemma scanned_occupied:
  assumes "scanned h s now ps"
  shows "ps_occupied ps = held_areas h s"
proof -
  have "fold_result (scan_goal s) gs p = Inr q \<Longrightarrow> ps_occupied q = ps_occupied p @
      concat (map (\<lambda>g. map (\<lambda>t. (g_id g, t)) (filter (holds_area s g) (g_tasks g))) gs)" for gs p q
  proof (induction gs arbitrary: p)
    case (Cons g gs)
    then obtain r where "scan_goal s g p = Inr r" "fold_result (scan_goal s) gs r = Inr q"
      by (auto simp: bind_result_eq_Inr)
    moreover have "ps_occupied r = ps_occupied p @ map (\<lambda>t. (g_id g, t)) (filter (holds_area s g) (g_tasks g))"
      using calculation(1) by (auto simp: scan_goal_def scan_fold_occupied split: if_splits)
    ultimately show ?case using Cons.IH [of r] by simp
  qed simp
  with assms show ?thesis by (force simp: scanned_def held_areas_def initial_pass_def Let_def)
qed


section \<open>Closing and liveness\<close>

definition closes_ok :: "host \<Rightarrow> state \<Rightarrow> pass \<Rightarrow> bool" where
  "closes_ok h s ps \<longleftrightarrow>
     (\<forall>i \<in> set (pl_close (ps_plan ps)). \<exists>g. g_id g = i \<and> verified h s g \<and>
        (\<forall>c \<in> set (goalCriteria g). criterionMet h (first_round g) c))"

lemma closes_ok_move: "pass_move h s now ps ps' \<Longrightarrow> closes_ok h s ps \<Longrightarrow> closes_ok h s ps'"
  by (induction rule: pass_move.induct) (auto simp: closes_ok_def op_defs Let_def)

text \<open>
  C5: A plan closes a goal only when all tasks are done, the deployment and the verification are
  proved at the target revision, and every criterion, the code criteria included, is met by
  current passing evidence.
\<close>

lemma Derive_close:
  assumes "Derive h s now = Inr p" and "keyed_state s" and "i \<in> set (pl_close p)"
  shows "\<exists>g. g_id g = i \<and> verified h s g \<and> (\<forall>c \<in> set (goalCriteria g). criterionMet h (first_round g) c)"
proof -
  obtain ps0 ps where d: "scanned h s now ps0" "pass_moves h s now ps0 ps" "p = ps_plan ps"
    using Derive_cases [OF assms(1,2)] by metis
  have "closes_ok h s ps"
    using d(2) by (rule pass_moves_invariant)
      (use scanned_frame [OF d(1)] in \<open>auto simp: closes_ok_def intro: closes_ok_move [unfolded closes_ok_def, rule_format]\<close>)
  with d(3) assms(3) show ?thesis by (auto simp: closes_ok_def)
qed

text \<open>What a plan leaves for a goal: work, a wait, a decision row, or the orphan mark.\<close>

definition goal_covered :: "state \<Rightarrow> plan \<Rightarrow> string \<Rightarrow> bool" where
  "goal_covered s p i \<longleftrightarrow> goalHeld p (st_actions s) i \<or> i \<in> set (pl_rows p) \<or> i \<in> set (pl_orphans p)"

lemma liveness_covers:
  assumes "open_goal h s g"
  shows "goal_covered s (ps_plan (derive_liveness h s now g ps)) (g_id g)"
  using assms
  by (auto simp: derive_liveness_def open_goal_def live_goal_def goal_covered_def Let_def
      plan_action_def goalHeld_def goalHasWork_def)

lemma liveness_keeps:
  assumes "goal_covered s (ps_plan ps) i"
  shows "goal_covered s (ps_plan (derive_liveness h s now g ps)) i"
  using assms
  by (auto simp: derive_liveness_def goal_covered_def Let_def plan_action_def goalHeld_def goalHasWork_def)

text \<open>
  C9: No open goal is forgotten: after a pass it has an action, a wait, a queue place, a closing
  or blocking entry, a decision row, or it is reported as an orphan.
\<close>

lemma Derive_covers:
  assumes "Derive h s now = Inr p" and "open_goal h s g"
  shows "goal_covered s p (g_id g)"
proof -
  obtain ps1 where p: "p = ps_plan (finish_pass h s now ps1)"
    using assms(1) by (auto simp: Derive_def Derive_pass_def bind_result_eq_Inr)
  have "goal_covered s (ps_plan (fold (derive_liveness h s now) gs ps)) (g_id g)"
    if "g \<in> set gs \<or> goal_covered s (ps_plan ps) (g_id g)" for gs ps
    using that
  proof (induction gs arbitrary: ps)
    case (Cons x gs)
    then have "g \<in> set gs \<or> goal_covered s (ps_plan (derive_liveness h s now x ps)) (g_id g)"
      using liveness_covers [OF assms(2)] liveness_keeps by auto
    with Cons.IH show ?case by simp
  qed simp
  moreover have "g \<in> set (derive_goals h s)" using assms(2) by (simp add: open_goal_def live_goal_def)
  ultimately show ?thesis by (simp add: p finish_pass_def Let_def)
qed

end
