(* ===== verification/Journal.thy ===== *)
theory Journal
  imports GoalTypes
begin

text \<open>
  The durable journal of the work engine (internal/core/work/goal/journal.go): the
  transaction-local view, the atomic update that stores a transition with the records it
  changed, and the rebuild of the records from the transitions. The SQL tables are the rows
  of work\_events in sequence order and the rows of work\_records by key; a record body is a
  parameter, with the test \<open>json.Valid\<close> on it.
\<close>

section \<open>Records and transitions\<close>

record transition =
  tr_recorded_at :: string
  tr_id :: string
  tr_kind :: string
  tr_at :: int
  tr_data :: raw_message

record 'b jrecord =
  jr_kind :: string
  jr_id :: string
  jr_version :: int
  jr_body :: 'b

record 'b journal_entry =
  en_event :: transition
  en_changes :: "'b jrecord list"

text \<open>A row of work\_events: the indexed columns and the entry.\<close>

record 'b event_row =
  ev_id :: string
  ev_kind :: string
  ev_at :: int
  ev_entry :: "'b journal_entry"

record 'b db =
  db_events :: "'b event_row list"
  db_records :: "'b jrecord gomap"

record 'b view =
  vw_records :: "'b jrecord gomap"
  vw_changes :: "'b jrecord gomap"

text \<open>Model of \<open>key\<close> and \<open>validKey\<close>.\<close>

definition key :: "string \<Rightarrow> string \<Rightarrow> string" where
  "key kind i = kind @ [CHR 0x00] @ i"

definition validKey :: "string \<Rightarrow> string \<Rightarrow> bool" where
  "validKey kind i \<longleftrightarrow>
     (kind = ''goal'' \<or> kind = ''node'' \<or> kind = ''action'' \<or> kind = ''limit'') \<and>
     \<not> blank i \<and> CHR 0x00 \<notin> set i"

lemma key_inject:
  assumes "CHR 0x00 \<notin> set k" and "CHR 0x00 \<notin> set k'"
  shows "key k i = key k' i' \<longleftrightarrow> k = k' \<and> i = i'"
  using assms by (auto simp: key_def append_eq_append_conv2 Cons_eq_append_conv append_eq_Cons_conv)

lemma validKey_no_nul: "validKey k i \<Longrightarrow> CHR 0x00 \<notin> set k"
  by (auto simp: validKey_def)

section \<open>The view\<close>

text \<open>Model of \<open>View.Get\<close>, \<open>View.Records\<close> and \<open>View.Put\<close>.\<close>

definition Get :: "'b view \<Rightarrow> string \<Rightarrow> string \<Rightarrow> 'b jrecord option" where
  "Get v kind i = map_of (vw_records v) (key kind i)"

definition Records :: "'b view \<Rightarrow> string \<Rightarrow> 'b jrecord list" where
  "Records v kind = sort_key jr_id (filter (\<lambda>r. jr_kind r = kind) (map snd (vw_records v)))"

definition Put :: "('b \<Rightarrow> bool) \<Rightarrow> string \<Rightarrow> string \<Rightarrow> 'b \<Rightarrow> 'b view \<Rightarrow> goal_error + 'b view" where
  "Put jvalid kind i body v =
     (if \<not> validKey kind i \<or> \<not> jvalid body then Inl ErrInvalid
      else let k = key kind i; old = map_of (vw_records v) k
           in if map_option jr_body old = Some body then Inr v
              else let version = (case map_of (vw_changes v) k of
                                    Some c \<Rightarrow> jr_version c
                                  | None \<Rightarrow> (case old of None \<Rightarrow> 0 | Some r \<Rightarrow> jr_version r) + 1);
                       r = \<lparr>jr_kind = kind, jr_id = i, jr_version = version, jr_body = body\<rparr>
                   in Inr (v\<lparr>vw_records := mput k r (vw_records v),
                             vw_changes := mput k r (vw_changes v)\<rparr>))"

text \<open>Model of \<open>readView\<close>.\<close>

definition readView :: "'b db \<Rightarrow> 'b view" where
  "readView db = \<lparr>vw_records = db_records db, vw_changes = []\<rparr>"

text \<open>A callback of \<open>Update\<close> changes the view by successful \<open>Put\<close>s only.\<close>

inductive puts :: "('b \<Rightarrow> bool) \<Rightarrow> 'b view \<Rightarrow> 'b view \<Rightarrow> bool" for jvalid where
  none: "puts jvalid v v"
| more: "\<lbrakk>puts jvalid v u; Put jvalid kind i body u = Inr w\<rbrakk> \<Longrightarrow> puts jvalid v w"

section \<open>Update and Rebuild\<close>

text \<open>
  Model of \<open>Update\<close>. \<open>stamp\<close> is the clock text the transaction writes. The answer holds the
  callback's result, None when the transition was already committed.
\<close>

definition valid_transition :: "transition \<Rightarrow> bool" where
  "valid_transition ev \<longleftrightarrow>
     \<not> blank (tr_id ev) \<and> \<not> blank (tr_kind ev) \<and> 0 < tr_at ev \<and>
     (case tr_data ev of RawInvalid _ \<Rightarrow> False | _ \<Rightarrow> True)"

definition putRecord :: "'b jrecord \<Rightarrow> 'b jrecord gomap \<Rightarrow> 'b jrecord gomap" where
  "putRecord r m = mput (key (jr_kind r) (jr_id r)) r m"

definition commit_entry :: "string \<Rightarrow> transition \<Rightarrow> 'b view \<Rightarrow> 'b db \<Rightarrow> 'b db" where
  "commit_entry stamp ev v db =
     (let changes = map snd (vw_changes v);
          ev = ev\<lparr>tr_recorded_at := stamp\<rparr>
      in \<lparr>db_events = db_events db @
            [\<lparr>ev_id = tr_id ev, ev_kind = tr_kind ev, ev_at = tr_at ev,
              ev_entry = \<lparr>en_event = ev, en_changes = changes\<rparr>\<rparr>],
          db_records = fold putRecord changes (db_records db)\<rparr>)"

definition Update ::
  "string \<Rightarrow> transition \<Rightarrow> ('b view \<Rightarrow> goal_error + 'b view \<times> 'r) \<Rightarrow> 'b db \<Rightarrow> goal_error + 'r option \<times> 'b db" where
  "Update stamp event apply db =
     (if \<not> valid_transition event then Inl ErrInvalid
      else let event = event\<lparr>tr_recorded_at := []\<rparr>
           in case first_such (\<lambda>row. ev_id row = tr_id event) (db_events db) of
                Some row \<Rightarrow>
                  if (en_event (ev_entry row))\<lparr>tr_recorded_at := []\<rparr> = event then Inr (None, db)
                  else Inl ErrConflict
              | None \<Rightarrow>
                  bind_result (apply (readView db))
                    (\<lambda>(v, out). Inr (Some out, commit_entry stamp event v db)))"

text \<open>Model of \<open>Committed\<close>.\<close>

definition Committed :: "string \<Rightarrow> 'b db \<Rightarrow> goal_error + transition option" where
  "Committed i db =
     (case first_such (\<lambda>row. ev_id row = i) (db_events db) of
        None \<Rightarrow> Inr None
      | Some row \<Rightarrow>
          if tr_id (en_event (ev_entry row)) \<noteq> i then Inl ErrInvalid
          else Inr (Some (en_event (ev_entry row))))"

text \<open>Model of \<open>Rebuild\<close>.\<close>

definition replay_change ::
  "('b \<Rightarrow> bool) \<Rightarrow> 'b jrecord \<Rightarrow> 'b jrecord gomap \<Rightarrow> goal_error + 'b jrecord gomap" where
  "replay_change jvalid r m =
     (let k = key (jr_kind r) (jr_id r)
      in if \<not> validKey (jr_kind r) (jr_id r) \<or> \<not> jvalid (jr_body r) \<or>
            jr_version r \<noteq> (case map_of m k of None \<Rightarrow> 0 | Some r0 \<Rightarrow> jr_version r0) + 1
         then Inl ErrInvalid else Inr (mput k r m))"

definition replay_row ::
  "('b \<Rightarrow> bool) \<Rightarrow> 'b event_row \<Rightarrow> 'b jrecord gomap \<Rightarrow> goal_error + 'b jrecord gomap" where
  "replay_row jvalid row m =
     (let e = ev_entry row
      in if tr_id (en_event e) \<noteq> ev_id row \<or> tr_kind (en_event e) \<noteq> ev_kind row \<or>
            tr_at (en_event e) \<noteq> ev_at row
         then Inl ErrInvalid else fold_result (replay_change jvalid) (en_changes e) m)"

definition Rebuild :: "('b \<Rightarrow> bool) \<Rightarrow> 'b db \<Rightarrow> goal_error + 'b db" where
  "Rebuild jvalid db =
     bind_result (fold_result (replay_row jvalid) (db_events db) [])
       (\<lambda>m. Inr (db\<lparr>db_records := m\<rparr>))"

section \<open>The interface of a view\<close>

text \<open>
  What the engine relies on: a put is read back, other records keep their value, and a put
  is refused only for an invalid key. The lemmas lift this to a list of writes.
\<close>

locale record_view =
  fixes get :: "'v \<Rightarrow> string \<Rightarrow> string \<Rightarrow> 'b option"
    and put :: "string \<Rightarrow> string \<Rightarrow> 'b \<Rightarrow> 'v \<Rightarrow> 'e + 'v"
    and valid :: "string \<Rightarrow> string \<Rightarrow> bool"
  assumes put_get: "put k i b v = Inr w \<Longrightarrow> get w k i = Some b"
    and put_other: "\<lbrakk>put k i b v = Inr w; valid k' i'; (k', i') \<noteq> (k, i)\<rbrakk> \<Longrightarrow> get w k' i' = get v k' i'"
    and put_accepts: "valid k i \<Longrightarrow> \<exists>w. put k i b v = Inr w"
    and put_valid: "put k i b v = Inr w \<Longrightarrow> valid k i"
begin

definition put_all :: "(string \<times> string \<times> 'b) list \<Rightarrow> 'v \<Rightarrow> 'e + 'v" where
  "put_all ws v = fold_result (\<lambda>(k, i, b). put k i b) ws v"

lemma put_all_accepts:
  "\<forall>(k, i, b) \<in> set ws. valid k i \<Longrightarrow> \<exists>w. put_all ws v = Inr w"
proof (induction ws arbitrary: v)
  case (Cons x ws)
  obtain k i b where x: "x = (k, i, b)" by (cases x) auto
  then obtain u where "put k i b v = Inr u" using Cons.prems put_accepts [of k i b v] by auto
  with Cons x show ?case by (auto simp: put_all_def)
qed (simp add: put_all_def)

lemma put_all_other:
  "\<lbrakk>put_all ws v = Inr w; valid k i; \<forall>b. (k, i, b) \<notin> set ws\<rbrakk> \<Longrightarrow> get w k i = get v k i"
proof (induction ws arbitrary: v)
  case (Cons x ws)
  obtain k' i' b where x: "x = (k', i', b)" by (cases x) auto
  with Cons.prems(1) obtain u where u: "put k' i' b v = Inr u" "put_all ws u = Inr w"
    by (auto simp: put_all_def bind_result_eq_Inr)
  with Cons.prems x have "get u k i = get v k i" by (intro put_other) auto
  with Cons.IH [OF u(2)] Cons.prems show ?case by simp
qed (simp add: put_all_def)

lemma put_all_get:
  "\<lbrakk>put_all ws v = Inr w; (k, i, b) \<in> set ws; \<forall>b'. (k, i, b') \<in> set ws \<longrightarrow> b' = b\<rbrakk> \<Longrightarrow> get w k i = Some b"
proof (induction ws arbitrary: v)
  case (Cons x ws)
  obtain k' i' b1 where x: "x = (k', i', b1)" by (cases x) auto
  with Cons.prems(1) obtain u where u: "put k' i' b1 v = Inr u" "put_all ws u = Inr w"
    by (auto simp: put_all_def bind_result_eq_Inr)
  show ?case
  proof (cases "\<exists>b'. (k, i, b') \<in> set ws")
    case True
    then obtain b2 where b2: "(k, i, b2) \<in> set ws" ..
    then have "b2 = b" using spec [OF Cons.prems(3), of b2] by simp
    with b2 have here: "(k, i, b) \<in> set ws" by simp
    have "\<forall>b'. (k, i, b') \<in> set ws \<longrightarrow> b' = b"
      using Cons.prems(3) unfolding list.set by blast
    then show ?thesis by (rule Cons.IH [OF u(2) here])
  next
    case False
    with Cons.prems(2) x have eq: "k' = k" "i' = i" "b1 = b" by simp_all
    then show ?thesis
      using put_all_other [OF u(2), of k i] put_valid [OF u(1)] put_get [OF u(1)] False by simp
  qed
qed (simp add: put_all_def)

end

definition get_body :: "'b view \<Rightarrow> string \<Rightarrow> string \<Rightarrow> 'b option" where
  "get_body v kind i = map_option jr_body (Get v kind i)"

lemma Put_cases:
  assumes "Put jvalid kind i body v = Inr w"
  shows "validKey kind i \<and> jvalid body \<and>
    (w = v \<and> get_body v kind i = Some body \<or>
     (\<exists>r. w = v\<lparr>vw_records := mput (key kind i) r (vw_records v), vw_changes := mput (key kind i) r (vw_changes v)\<rparr> \<and>
          jr_kind r = kind \<and> jr_id r = i \<and> jr_body r = body \<and>
          jr_version r = (case map_of (vw_changes v) (key kind i) of
              Some c \<Rightarrow> jr_version c
            | None \<Rightarrow> (case map_of (vw_records v) (key kind i) of None \<Rightarrow> 0 | Some r \<Rightarrow> jr_version r) + 1)))"
  using assms by (auto simp: Put_def Let_def get_body_def Get_def split: if_splits)

interpretation jv: record_view get_body "Put (\<lambda>_. True)" validKey
proof
  fix k i b and v w :: "'a view"
  assume p: "Put (\<lambda>_. True) k i b v = Inr w"
  from Put_cases [OF p] show "get_body w k i = Some b"
    by (auto simp: get_body_def Get_def go_map)
  from Put_cases [OF p] show "validKey k i" by simp
  fix k' i'
  assume v: "validKey k' i'" and n: "(k', i') \<noteq> (k, i)"
  have "key k' i' \<noteq> key k i"
    using key_inject [of k' k i' i] validKey_no_nul [OF v] Put_cases [OF p] validKey_no_nul n by auto
  with Put_cases [OF p] show "get_body w k' i' = get_body v k' i'"
    by (auto simp: get_body_def Get_def go_map)
qed (auto simp: Put_def Let_def)

section \<open>Replaying the journal gives the records back\<close>

text \<open>A database the journal can produce: replaying its rows yields its records.\<close>

definition journal_ok :: "('b \<Rightarrow> bool) \<Rightarrow> 'b db \<Rightarrow> bool" where
  "journal_ok jvalid db \<longleftrightarrow> fold_result (replay_row jvalid) (db_events db) [] = Inr (db_records db)"

text \<open>What puts keep of a view over the committed records \<open>base\<close>.\<close>

definition change_ok :: "('b \<Rightarrow> bool) \<Rightarrow> 'b jrecord gomap \<Rightarrow> string \<Rightarrow> 'b jrecord \<Rightarrow> bool" where
  "change_ok jvalid base k r \<longleftrightarrow>
     validKey (jr_kind r) (jr_id r) \<and> jvalid (jr_body r) \<and> k = key (jr_kind r) (jr_id r) \<and>
     jr_version r = (case map_of base k of None \<Rightarrow> 0 | Some r0 \<Rightarrow> jr_version r0) + 1"

definition view_ok :: "('b \<Rightarrow> bool) \<Rightarrow> 'b jrecord gomap \<Rightarrow> 'b view \<Rightarrow> bool" where
  "view_ok jvalid base v \<longleftrightarrow>
     sorted_map (vw_changes v) \<and>
     (\<forall>(k, r) \<in> set (vw_changes v). change_ok jvalid base k r) \<and>
     (\<forall>k. map_of (vw_records v) k =
          (case map_of (vw_changes v) k of Some r \<Rightarrow> Some r | None \<Rightarrow> map_of base k))"

lemma sorted_map_distinct: "sorted_map m \<Longrightarrow> distinct (map fst m)"
  by (simp add: sorted_map_def strict_sorted_iff)

lemma set_mput:
  "sorted_map m \<Longrightarrow> set (mput k v m) \<subseteq> insert (k, v) {x \<in> set m. fst x \<noteq> k}"
proof (induction k v m rule: mput.induct)
  case (2 k v k' v' m)
  have srt: "sorted_map m" "\<forall>x \<in> set m. k' < fst x"
    using 2(2) by (auto simp: sorted_map_def)
  show ?case
  proof (cases "k = k'")
    case True
    with srt(2) show ?thesis by auto
  next
    case False
    with 2(1) srt show ?thesis by (auto dest: less_trans)
  qed
qed simp

lemma Put_view_ok:
  assumes "Put jvalid kind i body v = Inr w" and "view_ok jvalid base v"
  shows "view_ok jvalid base w"
  using Put_cases [OF assms(1)]
proof (elim conjE disjE exE)
  assume "w = v"
  then show ?thesis using assms(2) by simp
next
  fix r
  let ?k = "key kind i"
  assume valid: "validKey kind i" "jvalid body"
    and w: "w = v\<lparr>vw_records := mput ?k r (vw_records v), vw_changes := mput ?k r (vw_changes v)\<rparr>"
    and r: "jr_kind r = kind" "jr_id r = i" "jr_body r = body"
      "jr_version r = (case map_of (vw_changes v) ?k of
              Some c \<Rightarrow> jr_version c
            | None \<Rightarrow> (case map_of (vw_records v) ?k of None \<Rightarrow> 0 | Some r \<Rightarrow> jr_version r) + 1)"
  have ver: "jr_version r = (case map_of base ?k of None \<Rightarrow> 0 | Some r0 \<Rightarrow> jr_version r0) + 1"
  proof (cases "map_of (vw_changes v) ?k")
    case None
    then have "map_of (vw_records v) ?k = map_of base ?k" using assms(2) by (auto simp: view_ok_def)
    with None r(4) show ?thesis by simp
  next
    case (Some c)
    then have "(?k, c) \<in> set (vw_changes v)" by (rule map_of_SomeD)
    with assms(2) have "change_ok jvalid base ?k c" by (auto simp: view_ok_def)
    with Some r(4) show ?thesis by (simp add: change_ok_def)
  qed
  have new: "change_ok jvalid base ?k r"
    using valid r(1-3) ver by (simp add: change_ok_def)
  have srt: "sorted_map (vw_changes v)" using assms(2) by (simp add: view_ok_def)
  have "\<forall>(k, r) \<in> set (mput ?k r (vw_changes v)). change_ok jvalid base k r"
  proof clarify
    fix k' r'
    assume "(k', r') \<in> set (mput ?k r (vw_changes v))"
    with set_mput [OF srt, of ?k r] have "(k', r') = (?k, r) \<or> (k', r') \<in> set (vw_changes v)" by auto
    with new assms(2) show "change_ok jvalid base k' r'" by (auto simp: view_ok_def)
  qed
  then show ?thesis
    using assms(2) sorted_map_mput [OF srt] by (auto simp: view_ok_def w go_map)
qed

lemma puts_view_ok: "puts jvalid v w \<Longrightarrow> view_ok jvalid base v \<Longrightarrow> view_ok jvalid base w"
  by (induction rule: puts.induct) (auto intro: Put_view_ok)

lemma view_ok_start: "view_ok jvalid (db_records db) (readView db)"
  by (simp add: view_ok_def readView_def sorted_map_def)

text \<open>Replaying the changes of one commit on the records it started from.\<close>

lemma replay_changes:
  assumes "distinct (map fst ch)" and "\<forall>(k, r) \<in> set ch. change_ok jvalid m k r"
  shows "fold_result (replay_change jvalid) (map snd ch) m = Inr (fold putRecord (map snd ch) m)"
  using assms
proof (induction ch arbitrary: m)
  case (Cons x ch)
  obtain k r where x: "x = (k, r)" by force
  then have r: "change_ok jvalid m k r" using Cons.prems(2) by auto
  then have step: "replay_change jvalid r m = Inr (putRecord r m)"
    by (simp add: replay_change_def change_ok_def putRecord_def Let_def)
  have "\<forall>(k', r') \<in> set ch. change_ok jvalid (putRecord r m) k' r'"
  proof clarify
    fix k' r'
    assume e: "(k', r') \<in> set ch"
    with Cons.prems x have "change_ok jvalid m k' r'" "k' \<noteq> k"
      by (auto simp: image_iff)
    then show "change_ok jvalid (putRecord r m) k' r'"
      using r by (simp add: change_ok_def putRecord_def go_map)
  qed
  with Cons.IH [of "putRecord r m"] Cons.prems(1) step x show ?case by simp
qed simp

lemma first_such_snoc:
  "\<forall>x \<in> set xs. \<not> p x \<Longrightarrow> first_such p (xs @ [y]) = (if p y then Some y else None)"
  by (induction xs) auto

lemma Update_cases:
  assumes "Update stamp ev apply db = Inr (out, db')"
  shows "(out = None \<and> db' = db) \<or>
    (\<exists>v r. out = Some r \<and> apply (readView db) = Inr (v, r) \<and>
       db' = commit_entry stamp (ev\<lparr>tr_recorded_at := []\<rparr>) v db \<and>
       (\<forall>row \<in> set (db_events db). ev_id row \<noteq> tr_id ev))"
  using assms
  by (auto simp: Update_def Let_def bind_result_eq_Inr first_such_None split: if_splits option.splits)

definition put_only :: "('b \<Rightarrow> bool) \<Rightarrow> ('b view \<Rightarrow> goal_error + 'b view \<times> 'r) \<Rightarrow> bool" where
  "put_only jvalid apply \<longleftrightarrow> (\<forall>v w r. apply v = Inr (w, r) \<longrightarrow> puts jvalid v w)"

lemma Update_view_ok:
  assumes "journal_ok jvalid db" and v: "view_ok jvalid (db_records db) v"
  shows "journal_ok jvalid (commit_entry stamp ev v db)"
proof -
  have "fold_result (replay_change jvalid) (map snd (vw_changes v)) (db_records db) =
      Inr (fold putRecord (map snd (vw_changes v)) (db_records db))"
    using v by (intro replay_changes) (auto simp: view_ok_def sorted_map_distinct)
  then show ?thesis
    using assms(1)
    by (simp add: journal_ok_def commit_entry_def Let_def fold_result_append replay_row_def)
qed

lemma Update_journal_ok:
  assumes "Update stamp ev apply db = Inr (out, db')" and "journal_ok jvalid db"
    and "put_only jvalid apply"
  shows "journal_ok jvalid db'"
  using Update_cases [OF assms(1)]
proof (elim disjE exE conjE)
  assume "db' = db"
  then show ?thesis using assms(2) by simp
next
  fix v r
  assume a: "apply (readView db) = Inr (v, r)"
    and db': "db' = commit_entry stamp (ev\<lparr>tr_recorded_at := []\<rparr>) v db"
  have "view_ok jvalid (db_records db) v"
    using puts_view_ok [OF _ view_ok_start] a assms(3) unfolding put_only_def by blast
  with assms(2) show ?thesis unfolding db' by (rule Update_view_ok)
qed

lemma empty_journal_ok: "journal_ok jvalid \<lparr>db_events = [], db_records = []\<rparr>"
  by (simp add: journal_ok_def)

lemma Rebuild_restores: "journal_ok jvalid db \<Longrightarrow> Rebuild jvalid db = Inr db"
  by (simp add: Rebuild_def journal_ok_def)

text \<open>A committed transition is found under its id, and the same one again changes nothing.\<close>

text \<open>
  C27: Committing a transition again under the same identity runs no callback and leaves the
  database unchanged.
\<close>

lemma Update_again:
  assumes "Update stamp ev apply db = Inr (out, db')"
  shows "Update stamp' ev apply' db' = Inr (None, db')"
proof -
  have valid: "valid_transition ev" using assms by (auto simp: Update_def split: if_splits)
  let ?ev = "ev\<lparr>tr_recorded_at := []\<rparr>"
  from Update_cases [OF assms] show ?thesis
  proof (elim disjE exE conjE)
    assume "out = None" "db' = db"
    then show ?thesis
      using assms valid
      by (auto simp: Update_def Let_def bind_result_eq_Inr split: if_splits option.splits)
  next
    fix v r
    assume db': "db' = commit_entry stamp ?ev v db"
      and fresh: "\<forall>row \<in> set (db_events db). ev_id row \<noteq> tr_id ev"
    show ?thesis
      using valid fresh
      by (simp add: Update_def Let_def db' commit_entry_def first_such_snoc)
  qed
qed

end
