(* ===== verification/GoalStore.thy ===== *)
theory GoalStore
  imports GoalWaits Journal
begin

text \<open>
  The engine's access to the journal: typed records over the view, the canonical definition
  of a goal and how a stored goal is hydrated with it (definition.go), and the loads, puts
  and snapshot of engine.go.
\<close>

section \<open>Definitions\<close>

record goal_definition =
  df_service_repository :: string
  df_outcome :: string
  df_done :: string
  df_scope :: goal_scope
  df_assumptions :: "string list"
  df_asks :: "string list"
  df_person_tasks :: "string list"
  df_decisions :: "goal_decision list"
  df_criteria :: "criterion list"

record saved_definition =
  sv_definition :: goal_definition
  sv_revision :: string
  sv_text :: string

text \<open>
  What an engine knows: the host, its epoch, its clock and the definitions it has cached by
  record id and revision.
\<close>

record engine =
  en_host :: host
  en_epoch :: int
  en_now :: int
  en_definitions :: "string \<times> string \<Rightarrow> saved_definition option"

text \<open>Model of \<open>definition\<close> and \<open>applyDefinition\<close>.\<close>

definition goal_definition_of :: "goal \<Rightarrow> goal_definition" where
  "goal_definition_of g =
     \<lparr>df_service_repository = g_service_repository g, df_outcome = g_summary g,
      df_done = g_done g, df_scope = g_scope g, df_assumptions = g_assumptions g,
      df_asks = g_asks g, df_person_tasks = g_person_tasks g, df_decisions = g_decisions g,
      df_criteria = filter (\<lambda>c. \<not> code_id (c_id c)) (g_criteria g)\<rparr>"

definition applyDefinition :: "goal_definition \<Rightarrow> goal \<Rightarrow> goal" where
  "applyDefinition d g =
     (let g = g\<lparr>g_summary := df_outcome d, g_done := df_done d, g_scope := df_scope d,
                g_service_repository := df_service_repository d\<rparr>;
          g = g\<lparr>g_service_repository := serviceRepository g\<rparr>;
          g = g\<lparr>g_assumptions := df_assumptions d, g_asks := df_asks d,
                g_person_tasks := df_person_tasks d, g_decisions := df_decisions d,
                g_criteria := df_criteria d\<rparr>
      in g\<lparr>g_criteria := goalCriteria g\<rparr>)"

text \<open>Model of \<open>hydrate\<close>.\<close>

definition hydrate :: "engine \<Rightarrow> goal \<Rightarrow> goal_error + goal" where
  "hydrate e g =
     (case en_definitions e (g_record_id g, g_record_revision g) of
        None \<Rightarrow> Inl ErrConflict
      | Some saved \<Rightarrow>
          if sv_revision saved \<noteq> g_record_revision g then Inl ErrConflict
          else let g = restoreMergedRevisions g;
                   g = applyDefinition (sv_definition saved) g;
                   g = g\<lparr>g_target_revision := targetRevision (en_host e) g\<rparr>
               in Inr (g\<lparr>g_definition_text := sv_text saved\<rparr>))"

text \<open>Model of \<open>ProjectRecordID\<close> and \<open>GoalID\<close>: None is the answer false.\<close>

definition ProjectRecordID :: "string \<Rightarrow> string option" where
  "ProjectRecordID goalID =
     (if goalID = [] then None
      else if has_prefix goalID ''goal:'' \<and> drop 5 goalID \<noteq> [] then Some goalID
      else Some (''goal:'' @ goalID))"

definition GoalID :: "string \<Rightarrow> string option" where
  "GoalID i =
     (if i = [] then None
      else if has_prefix i ''goal:'' \<and> drop 5 i \<noteq> [] then Some (drop 5 i)
      else Some i)"

section \<open>Typed records\<close>

text \<open>The decoded bodies of the records; decoding a body of another kind fails.\<close>

datatype body =
    GoalBody goal | NodeBody node | ActionBody action | LimitBody run_limit_record

type_synonym goal_view = "body view"

text \<open>
  The fields of a goal that are not serialised (\<open>json:"-"\<close>): the canonical prose. A stored
  goal has none of them; \<open>hydrate\<close> restores them.
\<close>

definition stored :: "goal \<Rightarrow> goal" where
  "stored g = g\<lparr>g_definition_text := [], g_scope := \<lparr>sc_repositories = [], sc_includes = [], sc_excludes = []\<rparr>,
     g_assumptions := [], g_asks := [], g_person_tasks := [], g_decisions := [], g_criteria := [],
     g_summary := [], g_done := []\<rparr>"

definition put_body :: "string \<Rightarrow> string \<Rightarrow> body \<Rightarrow> goal_view \<Rightarrow> goal_error + goal_view" where
  "put_body = Put (\<lambda>_. True)"

definition put_goal :: "goal \<Rightarrow> goal_view \<Rightarrow> goal_error + goal_view" where
  "put_goal g = put_body ''goal'' (g_id g) (GoalBody (stored g))"

definition put_action :: "action \<Rightarrow> goal_view \<Rightarrow> goal_error + goal_view" where
  "put_action a = put_body ''action'' (a_id a) (ActionBody a)"

definition put_node :: "node \<Rightarrow> goal_view \<Rightarrow> goal_error + goal_view" where
  "put_node n = put_body ''node'' (n_id n) (NodeBody n)"

definition put_limit :: "string \<Rightarrow> run_limit_record \<Rightarrow> goal_view \<Rightarrow> goal_error + goal_view" where
  "put_limit person l = put_body ''limit'' person (LimitBody l)"

text \<open>Model of \<open>loadGoal\<close>, \<open>loadAction\<close>, \<open>actionsOf\<close> (waits.go) and \<open>snapshotView\<close>.\<close>

fun as_goal :: "body \<Rightarrow> goal_error + goal" where
  "as_goal (GoalBody g) = Inr g" | "as_goal _ = Inl ErrInvalid"

fun as_action :: "body \<Rightarrow> goal_error + action" where
  "as_action (ActionBody a) = Inr a" | "as_action _ = Inl ErrInvalid"

fun as_node :: "body \<Rightarrow> goal_error + node" where
  "as_node (NodeBody n) = Inr n" | "as_node _ = Inl ErrInvalid"

fun as_limit :: "body \<Rightarrow> goal_error + run_limit_record" where
  "as_limit (LimitBody l) = Inr l" | "as_limit _ = Inl ErrInvalid"

definition loadGoal :: "goal_view \<Rightarrow> string \<Rightarrow> goal_error + goal" where
  "loadGoal v i = (case Get v ''goal'' i of None \<Rightarrow> Inl ErrInvalid | Some r \<Rightarrow> as_goal (jr_body r))"

definition loadAction :: "goal_view \<Rightarrow> string \<Rightarrow> goal_error + action" where
  "loadAction v i = (case Get v ''action'' i of None \<Rightarrow> Inl ErrInvalid | Some r \<Rightarrow> as_action (jr_body r))"

fun map_result :: "('a \<Rightarrow> 'e + 'b) \<Rightarrow> 'a list \<Rightarrow> 'e + 'b list" where
  "map_result f [] = Inr []"
| "map_result f (x # xs) = bind_result (f x) (\<lambda>y. bind_result (map_result f xs) (\<lambda>ys. Inr (y # ys)))"

definition goalsOf :: "goal_view \<Rightarrow> goal_error + goal list" where
  "goalsOf v = map_result (\<lambda>r. as_goal (jr_body r)) (Records v ''goal'')"

definition nodesOf :: "goal_view \<Rightarrow> goal_error + node list" where
  "nodesOf v = map_result (\<lambda>r. as_node (jr_body r)) (Records v ''node'')"

definition actionsOf :: "goal_view \<Rightarrow> goal_error + action list" where
  "actionsOf v = map_result (\<lambda>r. as_action (jr_body r)) (Records v ''action'')"

definition limitsOf :: "goal_view \<Rightarrow> goal_error + run_limit gomap" where
  "limitsOf v =
     bind_result (map_result (\<lambda>r. bind_result (as_limit (jr_body r)) (\<lambda>l. Inr (jr_id r, lr_choice l)))
                    (Records v ''limit''))
       (\<lambda>ls. Inr (fold (\<lambda>(i, l) m. mput i l m) ls []))"

definition snapshotView :: "goal_view \<Rightarrow> goal_error + state" where
  "snapshotView v =
     bind_result (goalsOf v) (\<lambda>gs. bind_result (nodesOf v) (\<lambda>ns.
     bind_result (actionsOf v) (\<lambda>as. bind_result (limitsOf v) (\<lambda>ls.
     Inr \<lparr>st_goals = gs, st_nodes = ns, st_actions = as, st_limits = ls\<rparr>))))"

definition load_hydrated :: "engine \<Rightarrow> goal_view \<Rightarrow> string \<Rightarrow> goal_error + goal" where
  "load_hydrated e v i = bind_result (loadGoal v i) (hydrate e)"

text \<open>The snapshot with every goal hydrated, as Reconcile and Snapshot read it.\<close>

definition hydrated_snapshot :: "engine \<Rightarrow> goal_view \<Rightarrow> goal_error + state" where
  "hydrated_snapshot e v =
     bind_result (snapshotView v) (\<lambda>s.
     bind_result (map_result (hydrate e) (st_goals s)) (\<lambda>gs. Inr (s\<lparr>st_goals := gs\<rparr>)))"

section \<open>Lemmas\<close>

lemma stored_frame [simp]:
  "g_id (stored g) = g_id g" "g_state (stored g) = g_state g" "g_tasks (stored g) = g_tasks g"
  "g_revision (stored g) = g_revision g" "g_waits (stored g) = g_waits g"
  "g_paused (stored g) = g_paused g" "g_rank (stored g) = g_rank g" "g_person (stored g) = g_person g"
  "g_record_id (stored g) = g_record_id g" "g_record_revision (stored g) = g_record_revision g"
  "g_check_round (stored g) = g_check_round g" "g_checks (stored g) = g_checks g"
  by (simp_all add: stored_def)

lemma map_result_Inr:
  "map_result f xs = Inr ys \<longleftrightarrow> length ys = length xs \<and> (\<forall>i < length xs. f (xs ! i) = Inr (ys ! i))"
proof (induction xs arbitrary: ys)
  case (Cons x xs)
  show ?case
  proof (cases ys)
    case Nil
    then show ?thesis by (auto simp: bind_result_eq_Inr)
  next
    case (Cons y ys')
    have "map_result f (x # xs) = Inr (y # ys') \<longleftrightarrow> f x = Inr y \<and> map_result f xs = Inr ys'"
      by (auto simp: bind_result_eq_Inr)
    then show ?thesis using Cons.IH [of ys'] Cons by (auto simp: nth_Cons less_Suc_eq_0_disj split: nat.splits)
  qed
qed auto

lemma hydrate_frame:
  assumes "hydrate e g = Inr g'"
  shows "g_id g' = g_id g" "g_state g' = g_state g" "g_tasks g' = g_tasks g" "g_revision g' = g_revision g"
    "g_paused g' = g_paused g" "g_waits g' = g_waits g" "g_person g' = g_person g"
    "g_record_revision g' = g_record_revision g" "g_record_id g' = g_record_id g"
    "g_definition_pending g' = g_definition_pending g" "g_check_round g' = g_check_round g"
    "g_checks g' = g_checks g"
  using assms
  by (auto simp: hydrate_def applyDefinition_def restoreMergedRevisions_def Let_def
      split: option.splits if_splits)


lemma get_put_body [simp]:
  "put_body k i b v = Inr w \<Longrightarrow> get_body w k i = Some b"
  unfolding put_body_def by (rule jv.put_get)

lemma get_put_other:
  "\<lbrakk>put_body k i b v = Inr w; validKey k' i'; (k', i') \<noteq> (k, i)\<rbrakk> \<Longrightarrow> get_body w k' i' = get_body v k' i'"
  unfolding put_body_def by (rule jv.put_other)

lemma loadGoal_iff: "loadGoal v i = Inr g \<longleftrightarrow> get_body v ''goal'' i = Some (GoalBody g)"
  by (auto simp: loadGoal_def get_body_def split: option.splits) (metis as_goal.elims as_goal.simps(1) sum.sel(2) sum.distinct(1))+

lemma loadAction_iff: "loadAction v i = Inr a \<longleftrightarrow> get_body v ''action'' i = Some (ActionBody a)"
  by (auto simp: loadAction_def get_body_def split: option.splits) (metis as_action.elims as_action.simps(1) sum.sel(2) sum.distinct(1))+

end
