(* ===== verification/GoalRevise.thy ===== *)
theory GoalRevise
  imports GoalGraph GoalStore
begin

text \<open>
  How a goal changes its mind: the tasks a corrected plan invalidates (revisions.go), the
  reconciliation of the corrected plan (correction.go), partial research (research.go), the
  retirement of actions that a revision, a stop or a signal made obsolete (retire.go,
  command.go, evidence\_refresh.go), and the worker sessions that stay live (sessions.go).
\<close>

section \<open>Writes through a task pointer\<close>

definition modify_task :: "string \<Rightarrow> (task \<Rightarrow> task) \<Rightarrow> goal \<Rightarrow> goal" where
  "modify_task i f g = g\<lparr>g_tasks := update_first (\<lambda>t. t_id t = i) f (g_tasks g)\<rparr>"

lemma modify_task_frame [simp]:
  "g_id (modify_task i f g) = g_id g" "g_state (modify_task i f g) = g_state g"
  "g_revision (modify_task i f g) = g_revision g" "g_paused (modify_task i f g) = g_paused g"
  "g_record_id (modify_task i f g) = g_record_id g" "g_person (modify_task i f g) = g_person g"
  by (simp_all add: modify_task_def)

section \<open>Invalidated tasks\<close>

text \<open>
  Model of \<open>correctedTaskChanges\<close>. \<open>changed\<close> is the key set of the map. The outer loop
  repeats a pass until one adds nothing; every repetition adds a task, so the number of
  tasks and one more bound it.
\<close>

definition first_changes :: "task list \<Rightarrow> task list \<Rightarrow> string list" where
  "first_changes old new =
     map t_id (filter (\<lambda>t. case map_of (rev (map (\<lambda>n. (t_id n, n)) new)) (t_id t) of
                             None \<Rightarrow> True | Some n \<Rightarrow> \<not> sameTaskDefinition t n) old)"

definition invalidated :: "string list \<Rightarrow> task \<Rightarrow> bool" where
  "invalidated changed t \<longleftrightarrow>
     t_repaired_by t \<noteq> [] \<and> t_repaired_by t \<in> set changed \<or>
     list_ex (\<lambda>d. d \<in> set changed) (t_depends_on t)"

definition change_pass :: "task list \<Rightarrow> string list \<Rightarrow> string list \<times> bool" where
  "change_pass ts changed =
     fold (\<lambda>t (changed, again).
             if t_id t \<in> set changed then (changed, again)
             else if invalidated changed t then (t_id t # changed, True)
             else (changed, again)) ts (changed, False)"

primrec change_loop :: "nat \<Rightarrow> task list \<Rightarrow> string list \<Rightarrow> string list" where
  "change_loop 0 ts changed = changed"
| "change_loop (Suc n) ts changed =
     (let (changed, again) = change_pass ts changed
      in if again then change_loop n ts changed else changed)"

definition correctedTaskChanges :: "task list \<Rightarrow> task list \<Rightarrow> string list" where
  "correctedTaskChanges old new =
     change_loop (Suc (length (old @ new))) (old @ new) (first_changes old new)"

text \<open>The changes a task can inherit: along dependencies and along repairs.\<close>

inductive depends_on_change :: "task list \<Rightarrow> string set \<Rightarrow> string \<Rightarrow> bool" for ts base where
  base: "i \<in> base \<Longrightarrow> depends_on_change ts base i"
| dep: "\<lbrakk>t \<in> set ts; d \<in> set (t_depends_on t); depends_on_change ts base d\<rbrakk> \<Longrightarrow>
          depends_on_change ts base (t_id t)"
| repair: "\<lbrakk>t \<in> set ts; t_repaired_by t \<noteq> []; depends_on_change ts base (t_repaired_by t)\<rbrakk> \<Longrightarrow>
          depends_on_change ts base (t_id t)"

definition change_step :: "task \<Rightarrow> string list \<times> bool \<Rightarrow> string list \<times> bool" where
  "change_step t ca =
     (case ca of (changed, again) \<Rightarrow>
        if t_id t \<in> set changed then (changed, again)
        else if invalidated changed t then (t_id t # changed, True) else (changed, again))"

lemma change_pass_step: "change_pass ts changed = fold change_step ts (changed, False)"
  by (simp add: change_pass_def change_step_def [abs_def])

lemma change_step_mono: "set (fst ca) \<subseteq> set (fst (change_step t ca))"
  by (auto simp: change_step_def split: prod.splits)

lemma fold_change_mono: "set (fst ca) \<subseteq> set (fst (fold change_step ts ca))"
proof (induction ts arbitrary: ca)
  case (Cons t ts)
  from change_step_mono [of ca t] Cons [of "change_step t ca"] show ?case by simp
qed simp

text \<open>A pass that adds nothing found the changes closed; one that does adds a new task.\<close>

lemma fold_change_quiet:
  "\<not> snd (fold change_step ts ca) \<Longrightarrow>
     fold change_step ts ca = ca \<and> \<not> snd ca \<and>
     (\<forall>t \<in> set ts. invalidated (fst ca) t \<longrightarrow> t_id t \<in> set (fst ca))"
proof (induction ts arbitrary: ca)
  case (Cons t ts)
  have IH: "fold change_step ts (change_step t ca) = change_step t ca" "\<not> snd (change_step t ca)"
    "\<forall>u \<in> set ts. invalidated (fst (change_step t ca)) u \<longrightarrow> t_id u \<in> set (fst (change_step t ca))"
    using Cons.IH [of "change_step t ca"] Cons.prems by simp_all
  have "change_step t ca = ca \<and> (invalidated (fst ca) t \<longrightarrow> t_id t \<in> set (fst ca))"
    using IH(2) by (auto simp: change_step_def split: prod.splits if_splits)
  with IH show ?case by simp
qed auto

lemma fold_change_again:
  "\<lbrakk>snd (fold change_step ts ca); \<not> snd ca\<rbrakk> \<Longrightarrow>
     \<exists>t \<in> set ts. t_id t \<notin> set (fst ca) \<and> t_id t \<in> set (fst (fold change_step ts ca))"
proof (induction ts arbitrary: ca)
  case (Cons t ts)
  show ?case
  proof (cases "snd (change_step t ca)")
    case True
    then have "t_id t \<notin> set (fst ca)" "t_id t \<in> set (fst (change_step t ca))"
      using Cons.prems(2) by (auto simp: change_step_def split: prod.splits if_splits)
    with fold_change_mono [of "change_step t ca" ts] show ?thesis by auto
  next
    case False
    with Cons.IH [of "change_step t ca"] Cons.prems obtain u where
      "u \<in> set ts" "t_id u \<notin> set (fst (change_step t ca))"
      "t_id u \<in> set (fst (fold change_step ts (change_step t ca)))" by auto
    with change_step_mono [of ca t] show ?thesis by auto
  qed
qed simp

lemma fold_change_sound:
  "\<lbrakk>set ts \<subseteq> set all; \<forall>i \<in> set (fst ca). depends_on_change all base i\<rbrakk> \<Longrightarrow>
     \<forall>i \<in> set (fst (fold change_step ts ca)). depends_on_change all base i"
proof (induction ts arbitrary: ca)
  case (Cons t ts)
  have "\<forall>i \<in> set (fst (change_step t ca)). depends_on_change all base i"
    using Cons.prems
    by (auto simp: change_step_def invalidated_def list_ex_iff
        intro: depends_on_change.dep depends_on_change.repair split: prod.splits if_splits)
  with Cons show ?case by simp
qed simp

lemma change_loop_spec:
  assumes "card (t_id ` set ts - set changed) < n"
    and "\<forall>i \<in> set changed. depends_on_change ts base i" and "base \<subseteq> set changed"
  shows "set (change_loop n ts changed) = {i. depends_on_change ts base i}"
  using assms
proof (induction n arbitrary: changed)
  case (Suc n)
  obtain c again where p: "change_pass ts changed = (c, again)" by force
  have sound: "\<forall>i \<in> set c. depends_on_change ts base i"
    using fold_change_sound [of ts ts "(changed, False)" base] Suc.prems(2) p
    by (simp add: change_pass_step)
  have mono: "set changed \<subseteq> set c"
    using fold_change_mono [of "(changed, False)" ts] p by (simp add: change_pass_step)
  show ?case
  proof (cases again)
    case True
    then obtain t where t: "t \<in> set ts" "t_id t \<notin> set changed" "t_id t \<in> set c"
      using fold_change_again [of ts "(changed, False)"] p by (auto simp: change_pass_step)
    have "card (t_id ` set ts - set c) < card (t_id ` set ts - set changed)"
      using t mono by (intro psubset_card_mono) auto
    then have "card (t_id ` set ts - set c) < n" using Suc.prems(1) by simp
    from Suc.IH [OF this sound] mono Suc.prems(3) True p show ?thesis by auto
  next
    case False
    then have c: "c = changed" "\<forall>t \<in> set ts. invalidated changed t \<longrightarrow> t_id t \<in> set changed"
      using fold_change_quiet [of ts "(changed, False)"] p by (auto simp: change_pass_step)
    have "i \<in> set changed" if "depends_on_change ts base i" for i
      using that
    proof (induction rule: depends_on_change.induct)
      case (base i)
      then show ?case using Suc.prems(3) by auto
    next
      case (dep t d)
      then have "invalidated changed t" by (auto simp: invalidated_def list_ex_iff)
      with c(2) dep(1) show ?case by simp
    next
      case (repair t)
      then have "invalidated changed t" by (simp add: invalidated_def)
      with c(2) repair(1) show ?case by simp
    qed
    with False p c(1) sound show ?thesis by auto
  qed
qed simp

lemma unchanged_bound:
  "card (t_id ` set (old @ new) - base) < Suc (length (old @ new))"
proof -
  have "card (t_id ` set (old @ new) - base) \<le> card (t_id ` set (old @ new))"
    by (intro card_mono) auto
  also have "\<dots> \<le> length (old @ new)"
    using card_length [of "map t_id (old @ new)"] by (simp add: image_Un)
  finally show ?thesis by simp
qed

lemma changed_set:
  "set (correctedTaskChanges old new) =
     {i. depends_on_change (old @ new) (set (first_changes old new)) i}"
  unfolding correctedTaskChanges_def
  by (rule change_loop_spec [OF unchanged_bound]) (auto intro: depends_on_change.base)

section \<open>The corrected plan\<close>

text \<open>Model of \<open>blockCorrection\<close> and \<open>correctedLibraryTarget\<close>.\<close>

definition blockCorrection :: "string \<Rightarrow> goal \<Rightarrow> goal" where
  "blockCorrection reason g =
     g\<lparr>g_state := GoalBlocked, g_attention_id := ''goal:'' @ g_id g @ '':definition'',
       g_blocked_reason := reason, g_assessed_failure := ''definition:'' @ g_record_revision g\<rparr>"

fun library_target :: "string \<Rightarrow> string \<Rightarrow> task list \<Rightarrow> string" where
  "library_target current target [] = target"
| "library_target current target (t # ts) =
     (if \<not> proves (t_merge t) (p_revision (t_merge t)) then library_target current target ts
      else let revision = taskResultRevision t
           in if revision = current then revision
              else library_target current (if target = [] then revision else target) ts)"

definition correctedLibraryTarget :: "goal \<Rightarrow> string" where
  "correctedLibraryTarget g = library_target (g_target_revision g) [] (g_tasks g)"

text \<open>Model of \<open>applyCorrectionPlan\<close>: the checks of the list, then the reconciled goal.\<close>

definition repair_parent_ok :: "goal \<Rightarrow> task \<Rightarrow> bool" where
  "repair_parent_ok proposed t \<longleftrightarrow>
     t_repairs t = [] \<or>
     (case goalTask proposed (t_repairs t) of
        None \<Rightarrow> False
      | Some p \<Rightarrow> t_id p \<noteq> t_id t \<and> t_repository p = t_repository t \<and> t_base p = t_base t)"

fun correction_fault :: "goal \<Rightarrow> task list \<Rightarrow> string option" where
  "correction_fault proposed [] = None"
| "correction_fault proposed (t # ts) =
     (if \<not> freshTask t then Some ''The corrected plan needs tasks with fresh execution state.''
      else if \<not> repair_parent_ok proposed t
      then Some ''The corrected repair needs its original task in the plan.''
      else correction_fault proposed ts)"

definition retain_task :: "goal \<Rightarrow> string list \<Rightarrow> task \<Rightarrow> task" where
  "retain_task g changed t =
     (case goalTask g (t_id t) of
        None \<Rightarrow> t
      | Some old \<Rightarrow> if t_id t \<notin> set changed then old else t\<lparr>t_attempt := t_attempt old\<rparr>)"

definition link_repairs :: "goal \<Rightarrow> goal" where
  "link_repairs g =
     fold (\<lambda>t g. if t_repairs t \<noteq> [] then modify_task (t_repairs t) (\<lambda>p. p\<lparr>t_repaired_by := t_id t\<rparr>) g else g)
       (g_tasks g) g"

definition applyCorrectionPlan :: "goal \<Rightarrow> observation \<Rightarrow> goal" where
  "applyCorrectionPlan g ob =
     (if \<not> validServiceRepository g
      then blockCorrection ''The service needs a repository in the goal scope.'' g
      else let p = g\<lparr>g_tasks := o_tasks ob, g_definition_pending := False,
                     g_revision := wrap64 (g_revision g + 1),
                     g_manager_turns := wrap64 (g_manager_turns g + 1)\<rparr>
           in case correction_fault p (o_tasks ob) of
                Some reason \<Rightarrow> blockCorrection reason g
              | None \<Rightarrow>
                  let changed = correctedTaskChanges (g_tasks g) (o_tasks ob);
                      p = p\<lparr>g_tasks := map (retain_task g changed) (o_tasks ob)\<rparr>;
                      p = link_repairs p;
                      p = p\<lparr>g_criteria := goalCriteria p\<rparr>
                  in if \<not> validateGoal p
                     then blockCorrection
                            ''The corrected plan does not reconcile retained tasks with the goal scope.'' g
                     else let p = p\<lparr>g_checks := [], g_deployment := no_proof, g_verification := no_proof\<rparr>;
                              p = (if g_service_target p = []
                                   then p\<lparr>g_target_revision := correctedLibraryTarget p\<rparr> else p)
                          in p\<lparr>g_assessed_failure := [], g_attention_id := [], g_blocked_reason := [],
                               g_decision_row := [], g_state := GoalRunning\<rparr>)"

section \<open>Partial research\<close>

text \<open>Model of \<open>QuestionsHandled\<close> and \<open>openCovers\<close>.\<close>

definition marked_open :: "research_open list \<Rightarrow> string list" where
  "marked_open opens =
     map (\<lambda>x. trim_space (ro_question x))
       (filter (\<lambda>x. \<not> blank (ro_question x) \<and> \<not> blank (ro_reason x)) opens)"

definition QuestionsHandled :: "string list \<Rightarrow> string list \<Rightarrow> research_open list \<Rightarrow> string \<Rightarrow> bool" where
  "QuestionsHandled gap missing opens body =
     (let still = filter (\<lambda>q. q \<noteq> []) (map trim_space missing);
          marked = marked_open opens;
          listed = filter (\<lambda>q. q \<noteq> []) (map trim_space gap)
      in if list_ex (\<lambda>q. q \<notin> set marked \<and> (q \<in> set still \<or> \<not> contains_str body q)) listed then False
         else if listed \<noteq> [] then True
         else if blank body then False
         else list_all (\<lambda>q. q \<in> set marked) still)"

definition openCovers :: "string list \<Rightarrow> research_open list \<Rightarrow> bool" where
  "openCovers missing opens =
     (let have = map ro_question
            (filter (\<lambda>x. \<not> blank (ro_question x) \<and> \<not> blank (ro_reason x)) opens)
      in list_all (\<lambda>q. trim_space q \<in> set have) missing)"

text \<open>Model of \<open>landResearchResult\<close> and \<open>applyResearchPartial\<close>, on the task and its goal.\<close>

definition settle_task :: "task_stage \<Rightarrow> task \<Rightarrow> task" where
  "settle_task stage t = t\<lparr>t_stage := stage, t_effects_settled := True\<rparr>"

definition landResearchResult :: "goal \<Rightarrow> task \<Rightarrow> observation \<Rightarrow> research_partial \<Rightarrow> goal_error + goal" where
  "landResearchResult g t ob part =
     (let proof = o_proof ob;
          proof = (if p_revision proof = [] \<and> rp_material_id part \<noteq> []
                   then proof\<lparr>p_revision := rp_material_id part @ '':'' @ int_decimal (rp_material_revision part)\<rparr>
                   else proof);
          proof = (if p_ref proof = [] then proof\<lparr>p_ref := rp_material_id part\<rparr> else proof);
          proof = proof\<lparr>p_passed := True\<rparr>
      in if \<not> proves proof (p_revision proof) then Inl ErrInvalid
         else Inr ((modify_task (t_id t)
                (\<lambda>t. settle_task TaskDone (t\<lparr>t_result := proof, t_research_open := rp_open part\<rparr>)) g)
              \<lparr>g_evidence := g_evidence g @ [proof]\<rparr>))"

definition follow_up :: "background_brief \<Rightarrow> research_partial \<Rightarrow> background_brief" where
  "follow_up b part =
     b\<lparr>b_scope := join_with [CHR 0x0A] (rp_missing part),
       b_done := ''Answer what is missing, or mark it open with the reason the sources cannot answer it.'',
       b_follow_of := rp_run_id part, b_refs := [(rp_material_id part, rp_material_revision part)]\<rparr>"

definition applyResearchPartial :: "goal \<Rightarrow> task \<Rightarrow> observation \<Rightarrow> goal_error + goal" where
  "applyResearchPartial g t ob =
     (case (t_background t, o_partial ob) of
        (Some b, Some part) \<Rightarrow>
          if t_research_follow_up t = None then
            if rp_run_id part = [] \<or> rp_material_id part = [] \<or> rp_material_revision part < 1
            then Inl ErrInvalid
            else if rp_missing part = [] then
              if rp_unresolved part = []
              then Inr (modify_task (t_id t) (settle_task TaskNeedsPerson) g)
              else landResearchResult g t ob part
            else Inr (modify_task (t_id t)
                   (\<lambda>t. settle_task TaskReady
                      (t\<lparr>t_research_gap := rp_missing part,
                         t_research_follow_up := Some (follow_up b part), t_result := no_proof\<rparr>)) g)
          else if rp_missing part \<noteq> [] \<and> \<not> openCovers (rp_missing part) (rp_open part)
          then Inr (modify_task (t_id t) (settle_task TaskNeedsPerson) g)
          else landResearchResult g t ob part
      | _ \<Rightarrow> Inl ErrInvalid)"

section \<open>Restoring an award\<close>

text \<open>Model of \<open>restoreUndispatchedTask\<close> (engine.go) and \<open>restoreDeniedAssignment\<close>.\<close>

definition restoreUndispatchedTask :: "action \<Rightarrow> goal \<Rightarrow> goal" where
  "restoreUndispatchedTask a g =
     modify_task (a_task_id a)
       (\<lambda>t. let t = restoreWorkerAward a False True t
            in if a_kind a = PlanGoal then t\<lparr>t_repair_asked := False\<rparr> else t) g"

definition restoreDeniedAssignment :: "action \<Rightarrow> goal \<Rightarrow> goal" where
  "restoreDeniedAssignment a g =
     modify_task (a_task_id a)
       (\<lambda>t. if \<not> reserves a \<or> t_attempt t \<noteq> a_attempt a then t
            else restoreWorkerAward a True (a_kind a \<noteq> Assign) t) g"

definition retired :: "action \<Rightarrow> action" where
  "retired a = a\<lparr>a_state := Finished, a_superseded := True, a_retirement_reconciled := True\<rparr>"

definition clear_repair_asked :: "action \<Rightarrow> goal \<Rightarrow> goal" where
  "clear_repair_asked a g =
     (if a_kind a = PlanGoal
      then modify_task (a_task_id a)
             (\<lambda>t. if t_repaired_by t = [] then t\<lparr>t_repair_asked := False\<rparr> else t) g
      else g)"

definition revisionJudgment :: "action \<Rightarrow> bool" where
  "revisionJudgment a \<longleftrightarrow> a_kind a = PlanGoal \<or> a_kind a = CheckCriterion"

section \<open>Loops over the actions\<close>

text \<open>
  Each loop ranges over the actions as they were when it began; a body returns the action
  it writes, if any, and the goal it changed in memory.
\<close>

definition over_actions ::
  "(action \<Rightarrow> goal \<Rightarrow> (action \<times> goal) option) \<Rightarrow> goal_view \<times> goal \<Rightarrow> goal_error + goal_view \<times> goal" where
  "over_actions body vg =
     bind_result (actionsOf (fst vg))
       (\<lambda>as. fold_result
          (\<lambda>a (v, g). case body a g of
                        None \<Rightarrow> Inr (v, g)
                      | Some (b, g') \<Rightarrow> bind_result (put_action b v) (\<lambda>v. Inr (v, g')))
          as vg)"

text \<open>Model of \<open>retireUndispatchedActions\<close>.\<close>

definition undispatched_body :: "action \<Rightarrow> goal \<Rightarrow> (action \<times> goal) option" where
  "undispatched_body a g =
     (if a_goal_id a \<noteq> g_id g \<or> a_observe_action_id a \<noteq> [] \<or>
         (a_state a \<noteq> Queued \<and> a_state a \<noteq> AwaitingAuthorization) \<or>
         a_goal_revision a = g_revision g
      then None
      else Some (retired a, restoreUndispatchedTask a g))"

definition retireUndispatchedActions :: "goal_view \<times> goal \<Rightarrow> goal_error + goal_view \<times> goal" where
  "retireUndispatchedActions = over_actions undispatched_body"

text \<open>Model of \<open>retireStoppedActions\<close> (command.go).\<close>

definition stopped_body :: "int \<Rightarrow> action \<Rightarrow> goal \<Rightarrow> (action \<times> goal) option" where
  "stopped_body now a g =
     (if a_goal_id a \<noteq> g_id g then None
      else if a_state a = NeedsPerson
      then Some (if settledRefusal a then retired a else a\<lparr>a_state := Unknown, a_deadline := now\<rparr>, g)
      else if a_observe_action_id a \<noteq> [] \<or> a_state a \<noteq> Queued \<and> a_state a \<noteq> AwaitingAuthorization
      then None
      else Some (retired a, restoreUndispatchedTask a g))"

definition retireStoppedActions :: "int \<Rightarrow> goal_view \<times> goal \<Rightarrow> goal_error + goal_view \<times> goal" where
  "retireStoppedActions now = over_actions (stopped_body now)"

text \<open>Model of \<open>retireRevisedActions\<close>.\<close>

definition revised_body :: "int \<Rightarrow> action \<Rightarrow> goal \<Rightarrow> (action \<times> goal) option" where
  "revised_body now a g =
     (if a_goal_id a \<noteq> g_id g \<or> a_state a = Finished then None
      else let denied = a_state a = NeedsPerson \<and> (revisionJudgment a \<or> settledRefusal a);
               retire = a_state a = Queued \<or> revisionJudgment a \<or> denied;
               g = (if denied then restoreDeniedAssignment a g else g);
               a = (if a_state a = NeedsPerson \<and> \<not> denied
                    then a\<lparr>a_state := Unknown, a_deadline := now\<rparr> else a)
           in if \<not> retire then Some (a, g)
              else let asked = a_kind a = PlanGoal \<and>
                         (case goalTask g (a_task_id a) of None \<Rightarrow> False | Some t \<Rightarrow> t_repaired_by t = [])
                   in Some (a\<lparr>a_state := Finished, a_superseded := True,
                              a_retirement_reconciled := a_retirement_reconciled a \<or> asked\<rparr>,
                            if asked then modify_task (a_task_id a) (\<lambda>t. t\<lparr>t_repair_asked := False\<rparr>) g else g))"

definition retireRevisedActions :: "int \<Rightarrow> goal_view \<times> goal \<Rightarrow> goal_error + goal_view \<times> goal" where
  "retireRevisedActions now = over_actions (revised_body now)"

text \<open>Model of \<open>retireCorrectedTaskReceipts\<close> and \<open>retireEvidenceWaits\<close> (evidence\_refresh.go).\<close>

definition corrected_body :: "string \<Rightarrow> string list \<Rightarrow> action \<Rightarrow> goal \<Rightarrow> (action \<times> goal) option" where
  "corrected_body goalID changed a g =
     (if a_goal_id a \<noteq> goalID \<or> a_task_id a \<notin> set changed \<or> a_state a \<noteq> Finished then None
      else Some (a\<lparr>a_superseded := True, a_retirement_reconciled := True\<rparr>, g))"

definition evidence_body :: "host \<Rightarrow> action \<Rightarrow> goal \<Rightarrow> (action \<times> goal) option" where
  "evidence_body h a g =
     (if a_goal_id a \<noteq> g_id g \<or>
         (a_kind a \<noteq> CheckCriterion \<and> (a_kind a \<noteq> PlanGoal \<or> a_task_id a \<noteq> [])) \<or>
         (a_state a \<noteq> Queued \<and> a_state a \<noteq> AwaitingAuthorization) \<or> \<not> staleInputs h g a
      then None else Some (retired a, g))"

definition retireEvidenceWaits :: "host \<Rightarrow> goal_view \<times> goal \<Rightarrow> goal_error + goal_view \<times> goal" where
  "retireEvidenceWaits h = over_actions (evidence_body h)"

text \<open>Model of \<open>correctionEffectsPending\<close>.\<close>

definition effects_pending :: "action list \<Rightarrow> string \<Rightarrow> bool" where
  "effects_pending as goalID \<longleftrightarrow>
     list_ex (\<lambda>a. a_goal_id a = goalID \<and> a_task_id a \<noteq> [] \<and> a_kind a \<noteq> PlanGoal \<and> a_state a \<noteq> Finished) as"

text \<open>Model of \<open>retireReportedAction\<close>.\<close>

definition reported_retirement :: "host \<Rightarrow> goal \<Rightarrow> action \<Rightarrow> observation \<Rightarrow> action" where
  "reported_retirement h g a ob =
     (let a = a\<lparr>a_state := Finished, a_superseded := True\<rparr>
      in if \<not> a_retirement_reconciled a \<and> hasExternalEffect a \<and> \<not> currentActionTarget h g a \<and>
            \<not> effectSettled a ob
         then a\<lparr>a_state := Unknown, a_handle := (if o_handle ob \<noteq> [] then o_handle ob else a_handle a)\<rparr>
         else a)"

definition retireReportedAction ::
  "host \<Rightarrow> goal_view \<Rightarrow> goal \<Rightarrow> action \<Rightarrow> observation \<Rightarrow> goal_error + goal_view" where
  "retireReportedAction h v g a ob =
     (let clear = a_kind a = PlanGoal \<and> \<not> a_retirement_reconciled a \<and>
            (case goalTask g (a_task_id a) of None \<Rightarrow> False | Some t \<Rightarrow> t_repaired_by t = []);
          g = (if clear then modify_task (a_task_id a) (\<lambda>t. t\<lparr>t_repair_asked := False\<rparr>) g else g)
      in bind_result (if clear then put_goal g v else Inr v)
           (\<lambda>v. put_action (reported_retirement h g a ob) v))"

section \<open>Reconciling retired actions\<close>

text \<open>The read of an effect whose outcome is still open: it keeps the original effect key.\<close>

definition replacement_read :: "host \<Rightarrow> goal \<Rightarrow> action \<Rightarrow> observation \<Rightarrow> action" where
  "replacement_read h g a receipt =
     (let n = a\<lparr>a_observe_action_id := (if a_observe_action_id a = [] then a_id a else a_observe_action_id a),
                a_handle := (if o_handle receipt \<noteq> [] then o_handle receipt else a_handle a),
                a_superseded := False, a_retirement_reconciled := False, a_receipt := None,
                a_state := Queued, a_epoch := 0, a_observed_at := 0, a_observer_epoch := 0,
                a_goal_revision := g_revision g\<rparr>;
          n = n\<lparr>a_input_version := Some (inputVersion h g n)\<rparr>;
          n = n\<lparr>a_sequence := wrap64 (a_sequence n + 1)\<rparr>
      in n\<lparr>a_id := actionID h n\<rparr>)"

definition receipt_of :: "action \<Rightarrow> observation" where
  "receipt_of a = (case a_receipt a of None \<Rightarrow> zero_observation | Some r \<Rightarrow> r)"

text \<open>The body of the loop of \<open>reconcileRetired\<close>.\<close>

definition needs_retirement :: "action \<Rightarrow> bool" where
  "needs_retirement a \<longleftrightarrow> a_state a = Finished \<and> a_superseded a \<and> \<not> a_retirement_reconciled a"

definition reconcile_retired :: "engine \<Rightarrow> action \<Rightarrow> goal_view \<Rightarrow> goal_error + goal_view" where
  "reconcile_retired e a v =
     (let h = en_host e
      in if a_state a \<noteq> Queued \<and> \<not> needs_retirement a then Inr v
         else bind_result (load_hydrated e v (a_goal_id a)) (\<lambda>g.
           let a = (if a_state a = Queued \<and>
                       (changedInputs h g a \<or> a_observe_action_id a = [] \<and> \<not> currentActionTarget h g a)
                    then a\<lparr>a_state := Finished, a_superseded := True\<rparr> else a)
           in if \<not> needs_retirement a then Inr v
              else let undispatched = (a_epoch a = 0 \<and> a_observe_action_id a = [] \<or> settledRefusal a);
                       reread = (\<not> undispatched \<and> hasExternalEffect a \<and>
                         (currentActionTarget h g a \<or> \<not> effectSettled a (receipt_of a)));
                       g' = clear_repair_asked a (if undispatched then restoreDeniedAssignment a g else g)
                   in bind_result
                        (if reread then put_action (replacement_read h g a (receipt_of a)) v else Inr v)
                        (\<lambda>v. bind_result (put_action (a\<lparr>a_retirement_reconciled := True\<rparr>) v)
                               (put_goal g'))))"

definition reconcileRetired :: "engine \<Rightarrow> goal_view \<Rightarrow> goal_error + goal_view" where
  "reconcileRetired e v =
     bind_result (actionsOf v) (\<lambda>as. fold_result (reconcile_retired e) as v)"

section \<open>Evidence of a new round\<close>

text \<open>Model of \<open>reopenEvidence\<close> and \<open>failedEvidence\<close>; the token compares these fields.\<close>

definition reopenEvidence :: "goal \<Rightarrow> goal" where
  "reopenEvidence g =
     g\<lparr>g_checks := [], g_check_round := wrap64 (g_check_round g + 1), g_assessed_failure := [],
       g_attention_id := [], g_blocked_reason := [], g_state := GoalRunning\<rparr>"

definition failedEvidence :: "host \<Rightarrow> goal \<Rightarrow> bool" where
  "failedEvidence h g \<longleftrightarrow>
     list_ex (\<lambda>c. list_ex (\<lambda>e. currentEvidence h g c e \<and>
                              (\<not> e_passed e \<or> \<not> Matches (e_collected e) (c_check c))) (g_checks g))
       (goalCriteria g)"

definition evidenceToken :: "goal \<Rightarrow> int \<times> int \<times> criterion_evidence list" where
  "evidenceToken g = (g_revision g, g_check_round g, g_checks g)"

section \<open>Live sessions\<close>

text \<open>Model of \<open>inFlight\<close>, \<open>underPullRequest\<close> and \<open>LiveSessions\<close>.\<close>

definition inFlight :: "action_state \<Rightarrow> bool" where
  "inFlight st \<longleftrightarrow> st = Claimed \<or> st = Running \<or> st = Unknown"

definition underPullRequest :: "task \<Rightarrow> bool" where
  "underPullRequest t =
     (case t_stage t of
        TaskDelivered \<Rightarrow> True
      | TaskNoReceipt \<Rightarrow> True
      | TaskConflicted \<Rightarrow> t_conflicts t < 1
      | TaskWorkerLost \<Rightarrow> t_effects_settled t \<and> t_recoveries t < 1
      | _ \<Rightarrow> False)"

definition session_state :: "goal \<Rightarrow> action list \<Rightarrow> string \<Rightarrow> action_state" where
  "session_state g as i =
     (case map_of (rev (map (\<lambda>a. (a_id a, a_state a)) (filter (\<lambda>a. a_goal_id a = g_id g) as))) i of
        None \<Rightarrow> ActionStateOther [] | Some st \<Rightarrow> st)"

definition LiveSessions :: "goal \<Rightarrow> action list \<Rightarrow> string list" where
  "LiveSessions g as =
     (if g_state g = GoalDone \<or> g_state g = GoalStopped then []
      else remdups (map t_session
             (filter (\<lambda>t. t_session t \<noteq> [] \<and> (inFlight (session_state g as (t_session t)) \<or> underPullRequest t))
               (g_tasks g))))"

end
