(* ===== verification/GoalEngine.thy ===== *)
theory GoalEngine
  imports GoalRevise GoalSlots
begin

text \<open>
  The dispatch side of the engine (engine.go): claiming a queued action, settling a report
  on it, and parking it while authority is missing. Each callback of a journal update is a
  function on the view; \<open>Update\<close> of theory \<open>Journal\<close> commits it.
\<close>

section \<open>A succeeded action\<close>

text \<open>Model of \<open>applySuccess\<close>, one definition per case of its switch.\<close>

definition put_check :: "string \<Rightarrow> criterion_evidence \<Rightarrow> goal \<Rightarrow> goal" where
  "put_check i e g =
     (if list_ex (\<lambda>x. e_criterion x = i) (g_checks g)
      then g\<lparr>g_checks := update_first (\<lambda>x. e_criterion x = i) (\<lambda>_. e) (g_checks g)\<rparr>
      else g\<lparr>g_checks := g_checks g @ [e]\<rparr>)"

definition succeed_check :: "host \<Rightarrow> goal \<Rightarrow> task option \<Rightarrow> action \<Rightarrow> observation \<Rightarrow> goal_error + goal" where
  "succeed_check h g t a ob =
     (case (t, a_check a, o_criterion ob) of
        (None, Some _, Some e) \<Rightarrow>
          if e_criterion e \<noteq> a_criterion_id a \<or> e_goal_revision e \<noteq> a_goal_revision a \<or>
             e_round e \<noteq> a_check_round a
          then Inl ErrInvalid
          else let c = (case first_such (\<lambda>c. c_id c = a_criterion_id a) (goalCriteria g) of
                          None \<Rightarrow> zero_criterion | Some c \<Rightarrow> c)
               in if \<not> currentEvidence h g c e \<or> e_revision e \<noteq> a_revision a then Inl ErrConflict
                  else Inr (put_check (a_criterion_id a)
                         (e\<lparr>e_passed := e_passed e \<and> Matches (e_collected e) (c_check c)\<rparr>) g)
      | _ \<Rightarrow> Inl ErrInvalid)"

definition plan_task_ok :: "task option \<Rightarrow> task list \<Rightarrow> task \<Rightarrow> bool" where
  "plan_task_ok t tasks x \<longleftrightarrow>
     freshTask x \<and>
     (case t of
        None \<Rightarrow> t_repairs x = []
      | Some p \<Rightarrow> length tasks = 1 \<and> t_repairs x = t_id p \<and> t_repository x = t_repository p \<and>
                  t_base x = t_base p)"

definition record_wait :: "goal \<Rightarrow> wait \<Rightarrow> wait" where
  "record_wait g w =
     w\<lparr>w_goal_id := g_id g, w_recorded := True, w_pending_signal := [], w_deadline_read := False,
       w_linked := False, w_armed := False\<rparr>"

definition add_planned_tasks :: "task option \<Rightarrow> task list \<Rightarrow> goal \<Rightarrow> goal_error + goal" where
  "add_planned_tasks t tasks g =
     (if tasks = [] then Inr g
      else if \<not> list_all (plan_task_ok t tasks) tasks then Inl ErrInvalid
      else let g = (case t of None \<Rightarrow> g
                    | Some p \<Rightarrow> modify_task (t_id p) (\<lambda>x. x\<lparr>t_repaired_by := t_id (hd tasks)\<rparr>) g);
               g = g\<lparr>g_tasks := g_tasks g @ tasks, g_revision := wrap64 (g_revision g + 1)\<rparr>;
               g = g\<lparr>g_criteria := goalCriteria g\<rparr>
           in if validateGoal g then Inr g else Inl ErrInvalid)"

definition succeed_plan :: "goal \<Rightarrow> task option \<Rightarrow> action \<Rightarrow> observation \<Rightarrow> goal_error + goal" where
  "succeed_plan g t a ob =
     (if g_definition_pending g then Inr (applyCorrectionPlan g ob)
      else if (case t of None \<Rightarrow> False | Some p \<Rightarrow> t_stage p \<noteq> TaskQAFailed \<or> t_repaired_by p \<noteq> [])
      then Inl ErrInvalid
      else let liveness = (t = None \<and> a_failure_key a = [])
           in bind_result (if liveness then plannedWaits g ob else Inr [])
             (\<lambda>waits.
               let g = (if t = None then g\<lparr>g_manager_turns := wrap64 (g_manager_turns g + 1)\<rparr> else g);
                   g = (if a_failure_key a \<noteq> [] then g\<lparr>g_assessed_failure := a_failure_key a\<rparr> else g);
                   g = (if liveness \<and> o_tasks ob \<noteq> []
                        then g\<lparr>g_decision_row := [], g_attention_id := [], g_blocked_reason := []\<rparr> else g)
               in bind_result (add_planned_tasks t (o_tasks ob) g)
                 (\<lambda>g.
                   let g = g\<lparr>g_waits := g_waits g @ map (record_wait g) waits\<rparr>
                   in if liveness \<and> o_tasks ob = [] \<and> \<not> blank (o_decision ob)
                      then Inr (g\<lparr>g_decision_row := trim_space (o_decision ob),
                                  g_attention_id := ''goal:'' @ g_id g @ '':decision'',
                                  g_blocked_reason := trim_space (o_decision ob),
                                  g_state := GoalBlocked\<rparr>)
                      else Inr g)))"

definition add_evidence :: "evidence_proof \<Rightarrow> goal \<Rightarrow> goal" where
  "add_evidence p g = g\<lparr>g_evidence := g_evidence g @ [p]\<rparr>"

definition succeed_worker :: "goal \<Rightarrow> task option \<Rightarrow> observation \<Rightarrow> goal_error + goal" where
  "succeed_worker g t ob =
     (case t of
        None \<Rightarrow> Inl ErrInvalid
      | Some p \<Rightarrow>
          if stepKind (t_kind p) \<noteq> TaskStep then
            if \<not> o_effects_settled ob \<or> \<not> proves (o_proof ob) (p_revision (o_proof ob)) then Inl ErrInvalid
            else Inr (add_evidence (o_proof ob)
                   (modify_task (t_id p) (\<lambda>x. settle_task TaskDone (x\<lparr>t_result := o_proof ob\<rparr>)) g))
          else if o_head ob = [] \<or> \<not> o_effects_settled ob then Inl ErrInvalid
          else Inr (modify_task (t_id p)
                 (\<lambda>x. settle_task TaskDelivered
                    (x\<lparr>t_head := o_head ob,
                       t_thread_handle := (if o_handle ob \<noteq> [] then o_handle ob else t_thread_handle x)\<rparr>)) g))"

definition succeed_merge :: "host \<Rightarrow> goal \<Rightarrow> task option \<Rightarrow> action \<Rightarrow> observation \<Rightarrow> goal_error + goal" where
  "succeed_merge h g t a ob =
     (case t of
        None \<Rightarrow> Inl ErrInvalid
      | Some p \<Rightarrow>
          if o_head ob \<noteq> a_revision a \<or> \<not> proves (o_proof ob) (p_revision (o_proof ob)) then Inl ErrInvalid
          else let revision = p_revision (o_proof ob);
                   previous = g_target_revision g;
                   g = modify_task (t_id p)
                         (\<lambda>x. x\<lparr>t_merge := o_proof ob, t_qa := no_proof, t_stage := TaskMerged\<rparr>) g;
                   g = g\<lparr>g_merged_revisions := mput (t_repository p) revision (g_merged_revisions g)\<rparr>;
                   g = g\<lparr>g_target_revision :=
                         (if g_service_target g = [] then revision else targetRevision h g)\<rparr>;
                   g = (if previous \<noteq> g_target_revision g then g\<lparr>g_deployment := no_proof\<rparr> else g)
               in Inr (add_evidence (o_proof ob) (g\<lparr>g_verification := no_proof\<rparr>)))"

text \<open>The chain of repaired tasks: at most one step per task of the goal.\<close>

primrec repair_chain :: "nat \<Rightarrow> evidence_proof \<Rightarrow> string \<Rightarrow> goal \<Rightarrow> goal" where
  "repair_chain 0 proof repaired g = g"
| "repair_chain (Suc n) proof repaired g =
     (case first_such (\<lambda>t. t_repaired_by t = repaired) (g_tasks g) of
        None \<Rightarrow> g
      | Some original \<Rightarrow>
          let g = g\<lparr>g_tasks := update_first (\<lambda>t. t_repaired_by t = repaired)
                 (\<lambda>t. t\<lparr>t_qa := proof, t_result_revision := p_revision proof, t_stage := TaskDone\<rparr>) (g_tasks g)\<rparr>
          in if t_id original = [] then g else repair_chain n proof (t_id original) g)"

definition succeed_qa :: "goal \<Rightarrow> task option \<Rightarrow> action \<Rightarrow> observation \<Rightarrow> goal_error + goal" where
  "succeed_qa g t a ob =
     (case t of
        None \<Rightarrow> Inl ErrInvalid
      | Some p \<Rightarrow>
          if \<not> proves (o_proof ob) (a_revision a) \<or> p_revision (t_merge p) \<noteq> a_revision a then Inl ErrInvalid
          else let g = modify_task (t_id p)
                     (\<lambda>x. x\<lparr>t_qa := o_proof ob, t_result_revision := p_revision (o_proof ob), t_stage := TaskDone\<rparr>) g
               in Inr (add_evidence (o_proof ob)
                      (repair_chain (length (g_tasks g)) (o_proof ob) (t_id p) g)))"

definition applySuccess ::
  "host \<Rightarrow> int \<Rightarrow> goal \<Rightarrow> task option \<Rightarrow> action \<Rightarrow> observation \<Rightarrow> goal_error + goal" where
  "applySuccess h now g t a ob =
     (case a_kind a of
        CheckCriterion \<Rightarrow> succeed_check h g t a ob
      | PlanGoal \<Rightarrow> succeed_plan g t a ob
      | Assign \<Rightarrow> succeed_worker g t ob
      | Resume \<Rightarrow> succeed_worker g t ob
      | RepairConflict \<Rightarrow> succeed_worker g t ob
      | RepairQA \<Rightarrow> succeed_worker g t ob
      | ContinueWorker \<Rightarrow> succeed_worker g t ob
      | InspectPR \<Rightarrow>
          (case t of
             None \<Rightarrow> Inl ErrInvalid
           | Some p \<Rightarrow> if pr_head (o_pr ob) = [] then Inl ErrInvalid
                       else Inr (modify_task (t_id p)
                              (\<lambda>x. x\<lparr>t_pr := (o_pr ob)\<lparr>pr_observed_at := now\<rparr>\<rparr>) g))
      | Merge \<Rightarrow> succeed_merge h g t a ob
      | RunQA \<Rightarrow> succeed_qa g t a ob
      | Deploy \<Rightarrow>
          if t \<noteq> None \<or> g_service_target g = [] \<or> \<not> proves (o_proof ob) (a_revision a) then Inl ErrInvalid
          else let g = add_evidence (o_proof ob) g
               in Inr (if a_goal_revision a = g_revision g \<and> g_target_revision g = a_revision a
                       then g\<lparr>g_deployment := o_proof ob\<rparr> else g)
      | Verify \<Rightarrow>
          if t \<noteq> None \<or> \<not> proves (o_proof ob) (a_revision a) \<or> g_target_revision g \<noteq> a_revision a
          then Inl ErrInvalid
          else Inr (add_evidence (o_proof ob)
                 (g\<lparr>g_verification := o_proof ob, g_check_round := wrap64 (g_check_round g + 1),
                    g_checks := []\<rparr>))
      | Observe \<Rightarrow> Inl ErrInvalid
      | Decide \<Rightarrow> Inl ErrInvalid
      | ReadSource \<Rightarrow> applyWaitRead g a ob
      | KindOther s \<Rightarrow> Inr g)"

section \<open>The other outcomes\<close>

text \<open>Each branch of the switch of \<open>report\<close>: the goal and the action after it.\<close>

definition finish :: "action \<Rightarrow> action" where
  "finish a = a\<lparr>a_state := Finished\<rparr>"

definition take_handle :: "observation \<Rightarrow> action \<Rightarrow> action" where
  "take_handle ob a = (if o_handle ob \<noteq> [] then a\<lparr>a_handle := o_handle ob\<rparr> else a)"

definition report_quota ::
  "int \<Rightarrow> goal_view \<Rightarrow> goal \<Rightarrow> task option \<Rightarrow> action \<Rightarrow> observation \<Rightarrow> goal_error + goal_view \<times> goal \<times> action" where
  "report_quota now v g t a ob =
     (case t of
        None \<Rightarrow> Inl ErrInvalid
      | Some p \<Rightarrow>
          if \<not> reserves a \<or> \<not> o_effects_settled ob \<or> o_quota_reset ob \<le> now then Inl ErrInvalid
          else case Get v ''node'' (a_node_id a) of
            None \<Rightarrow> Inl ErrInvalid
          | Some r \<Rightarrow>
              bind_result (as_node (jr_body r)) (\<lambda>n.
              bind_result (put_node (n\<lparr>n_quota_reset := mput (t_worker p) (o_quota_reset ob) (n_quota_reset n)\<rparr>) v)
                (\<lambda>v. Inr (v, modify_task (t_id p)
                       (\<lambda>x. let x = refundRecovery (a_kind a) False x
                            in x\<lparr>t_stage := TaskReady, t_node_id := [], t_effects_settled := True\<rparr>) g,
                     finish a))))"

definition report_no_receipt :: "goal \<Rightarrow> task option \<Rightarrow> action \<Rightarrow> observation \<Rightarrow> goal_error + goal \<times> action" where
  "report_no_receipt g t a ob =
     (case t of
        None \<Rightarrow> Inl ErrInvalid
      | Some p \<Rightarrow>
          if \<not> reserves a \<or> o_handle ob = [] then Inl ErrInvalid
          else if \<not> o_effects_settled ob then Inr (g, a\<lparr>a_state := Unknown\<rparr>)
          else Inr (modify_task (t_id p)
                 (\<lambda>x. settle_task (if t_continuations x = 0 then TaskNoReceipt else TaskWorkerLost)
                    (x\<lparr>t_thread_handle := o_handle ob\<rparr>)) g, finish a))"

definition report_needs_person :: "goal \<Rightarrow> task option \<Rightarrow> action \<Rightarrow> observation \<Rightarrow> goal \<times> action" where
  "report_needs_person g t a ob =
     (let closes = (case t of None \<Rightarrow> False
                    | Some p \<Rightarrow> stepKind (t_kind p) \<noteq> TaskStep \<and> o_effects_settled ob);
          g = (if closes then modify_task (a_task_id a) (settle_task TaskNeedsPerson) g else g);
          a = take_handle ob (a\<lparr>a_state := (if closes then Finished else NeedsPerson)\<rparr>)
      in (if reserves a
          then modify_task (a_task_id a) (\<lambda>x. x\<lparr>t_effects_settled := o_effects_settled ob\<rparr>) g else g,
          a))"

definition report_conflict :: "goal \<Rightarrow> task option \<Rightarrow> action \<Rightarrow> observation \<Rightarrow> goal_error + goal \<times> action" where
  "report_conflict g t a ob =
     (case t of
        None \<Rightarrow> Inl ErrInvalid
      | Some p \<Rightarrow>
          if a_kind a \<noteq> Merge \<and> a_kind a \<noteq> InspectPR then Inl ErrInvalid
          else if a_kind a = InspectPR \<and>
                  (pr_head (o_pr ob) = [] \<or> pr_head (o_pr ob) \<noteq> a_revision a \<or>
                   pr_head (o_pr ob) \<noteq> t_head p \<or> pr_mergeable (o_pr ob))
          then Inl ErrInvalid
          else Inr (modify_task (t_id p)
                 (\<lambda>x. let x = (if a_kind a = InspectPR
                               then x\<lparr>t_pr := (o_pr ob)\<lparr>pr_observed_at := a_observed_at a\<rparr>\<rparr> else x)
                      in x\<lparr>t_stage := TaskConflicted\<rparr>) g, finish a))"

definition report_failed :: "goal \<Rightarrow> task option \<Rightarrow> action \<Rightarrow> observation \<Rightarrow> goal_error + goal \<times> action" where
  "report_failed g t a ob =
     (if a_kind a = ReadSource
      then bind_result (finishFailedSourceRead g a) (\<lambda>g. Inr (g, finish a))
      else if a_kind a = Verify then
        if t \<noteq> None \<or> \<not> fails (o_proof ob) (a_revision a) then Inl ErrInvalid
        else if g_target_revision g \<noteq> a_revision a \<or> g_revision g \<noteq> a_goal_revision a then Inl ErrConflict
        else Inr (add_evidence (o_proof ob) (g\<lparr>g_verification := o_proof ob\<rparr>), finish a)
      else case t of
        None \<Rightarrow> Inr (g, a\<lparr>a_state := NeedsPerson\<rparr>)
      | Some p \<Rightarrow>
          if workerAction (a_kind a) then
            if \<not> o_effects_settled ob then Inr (g, a\<lparr>a_state := Unknown\<rparr>)
            else Inr (modify_task (t_id p) (settle_task TaskWorkerLost) g, finish a)
          else case a_kind a of
            RunQA \<Rightarrow>
              if p_ref (o_proof ob) = [] \<or> p_revision (o_proof ob) \<noteq> a_revision a \<or> p_passed (o_proof ob)
              then Inl ErrInvalid
              else Inr (add_evidence (o_proof ob)
                     (modify_task (t_id p) (\<lambda>x. x\<lparr>t_stage := TaskQAFailed, t_qa := o_proof ob\<rparr>) g), finish a)
          | InspectPR \<Rightarrow> Inr (g, a\<lparr>a_state := NeedsPerson\<rparr>)
          | Merge \<Rightarrow> Inr (g, a\<lparr>a_state := NeedsPerson\<rparr>)
          | PlanGoal \<Rightarrow> Inr (g, a\<lparr>a_state := NeedsPerson\<rparr>)
          | KindOther s \<Rightarrow> Inr (g, a)
          | _ \<Rightarrow> Inl ErrInvalid)"

definition report_partial :: "goal \<Rightarrow> task option \<Rightarrow> action \<Rightarrow> observation \<Rightarrow> goal_error + goal \<times> action" where
  "report_partial g t a ob =
     (case t of
        None \<Rightarrow> Inl ErrInvalid
      | Some p \<Rightarrow>
          if stepKind (t_kind p) \<noteq> BackgroundStep \<or> a_kind a \<noteq> Assign \<or> \<not> o_effects_settled ob then Inl ErrInvalid
          else bind_result (applyResearchPartial g p ob) (\<lambda>g. Inr (g, take_handle ob (finish a))))"

text \<open>
  A success, with the correction barrier: \<open>Inl\<close> inside the answer is the early return that
  only supersedes the action; otherwise the view after retiring corrected receipts.
\<close>

definition report_succeeded ::
  "engine \<Rightarrow> goal_view \<Rightarrow> goal \<Rightarrow> task option \<Rightarrow> action \<Rightarrow> observation
     \<Rightarrow> goal_error + action + goal_view \<times> goal \<times> action" where
  "report_succeeded e v g t a ob =
     (let a = finish a; correcting = (a_kind a = PlanGoal \<and> g_definition_pending g);
          changed = (if correcting then correctedTaskChanges (g_tasks g) (o_tasks ob) else [])
      in bind_result (if correcting then actionsOf v else Inr [])
        (\<lambda>as. if correcting \<and> effects_pending as (g_id g) then Inr (Inl (a\<lparr>a_superseded := True\<rparr>))
              else bind_result (applySuccess (en_host e) (en_now e) g t a ob)
                (\<lambda>g. if correcting \<and> \<not> g_definition_pending g
                     then bind_result (over_actions (corrected_body (g_id g) changed) (v, g))
                            (\<lambda>(v, g). Inr (Inr (v, g, a)))
                     else Inr (Inr (v, g, a)))))"

definition report_outcome ::
  "engine \<Rightarrow> goal_view \<Rightarrow> goal \<Rightarrow> task option \<Rightarrow> action \<Rightarrow> observation
     \<Rightarrow> goal_error + action + goal_view \<times> goal \<times> action" where
  "report_outcome e v g t a ob =
     (let on_view = (\<lambda>r. bind_result r (\<lambda>(g, a). Inr (Inr (v, g, a))))
      in case o_status ob of
           OutcomeQuota \<Rightarrow> bind_result (report_quota (en_now e) v g t a ob) (\<lambda>x. Inr (Inr x))
         | OutcomeNoReceipt \<Rightarrow> on_view (report_no_receipt g t a ob)
         | OutcomeRunning \<Rightarrow>
             if o_handle ob = [] then Inl ErrInvalid
             else Inr (Inr (v, g, a\<lparr>a_state := Running, a_handle := o_handle ob\<rparr>))
         | OutcomeUnknown \<Rightarrow> Inr (Inr (v, g, a\<lparr>a_state := Unknown\<rparr>))
         | OutcomeNeedsPerson \<Rightarrow> on_view (Inr (report_needs_person g t a ob))
         | OutcomeConflict \<Rightarrow> on_view (report_conflict g t a ob)
         | OutcomeFailed \<Rightarrow> on_view (report_failed g t a ob)
         | OutcomePartial \<Rightarrow> on_view (report_partial g t a ob)
         | OutcomeSucceeded \<Rightarrow> report_succeeded e v g t a ob
         | OutcomeOther s \<Rightarrow> Inl ErrInvalid)"

section \<open>Report\<close>

text \<open>A report on a stopped goal settles its receipt and reservation only.\<close>

definition stopped_report :: "action \<Rightarrow> observation \<Rightarrow> action" where
  "stopped_report a ob =
     (let a = take_handle ob (a\<lparr>a_state := Unknown\<rparr>)
      in if effectSettled a ob \<or>
            \<not> hasExternalEffect a \<and>
              o_status ob \<in> {OutcomeSucceeded, OutcomeFailed, OutcomeConflict, OutcomeNeedsPerson, OutcomePartial}
         then finish a else a)"

text \<open>The fields a report writes before it is judged.\<close>

definition observed :: "engine \<Rightarrow> action \<Rightarrow> observation \<Rightarrow> action" where
  "observed e a ob =
     a\<lparr>a_observed_at := en_now e, a_observer_epoch := en_epoch e, a_receipt := Some ob,
       a_deadline := en_now e + safety_sweep\<rparr>"

text \<open>Model of the callback of \<open>report\<close>.\<close>

definition settle_report :: "engine \<Rightarrow> goal_view \<Rightarrow> goal \<Rightarrow> action \<Rightarrow> observation \<Rightarrow> goal_error + goal_view" where
  "settle_report e v g a ob =
     bind_result (report_outcome e v g (goalTask g (a_task_id a)) a ob)
       (\<lambda>r. case r of
          Inl held \<Rightarrow> put_action held v
        | Inr (v, g', a) \<Rightarrow>
            bind_result (if g_revision g' \<noteq> g_revision g then retireUndispatchedActions (v, g') else Inr (v, g'))
              (\<lambda>(v, g'). bind_result (put_goal g' v) (put_action a)))"

definition report :: "engine \<Rightarrow> string \<Rightarrow> observation \<Rightarrow> goal_view \<Rightarrow> goal_error + goal_view" where
  "report e i ob v =
     bind_result (loadAction v i) (\<lambda>a.
       if a_state a = Finished \<and> a_receipt a = Some ob then Inl ErrNoChange
       else if a_state a = Queued then Inl ErrConflict
       else bind_result (load_hydrated e v (a_goal_id a)) (\<lambda>g.
         let stale = staleInputs (en_host e) g a; b = observed e a ob
         in if stale \<and> a_state a = Finished \<and>
               (\<not> a_superseded a \<or> a_retirement_reconciled a \<and> a_receipt a \<noteq> None)
            then Inr v
            else if stale then retireReportedAction (en_host e) v g b ob
            else if a_state a = Finished then Inl ErrConflict
            else if g_state g = GoalStopped
            then bind_result
                   (if goalTask g (a_task_id b) \<noteq> None \<and> workerAction (a_kind b)
                    then put_goal (modify_task (a_task_id b)
                           (\<lambda>x. x\<lparr>t_effects_settled := o_effects_settled ob\<rparr>) g) v
                    else Inr v)
                   (put_action (stopped_report b ob))
            else settle_report e v g b ob))"

text \<open>The guard of \<open>Report\<close>; the callback's ErrNoChange is its success.\<close>

definition Report :: "engine \<Rightarrow> string \<Rightarrow> int \<Rightarrow> observation \<Rightarrow> goal_view \<Rightarrow> goal_error + goal_view" where
  "Report e i epoch ob v =
     (if epoch \<noteq> en_epoch e then Inl ErrConflict
      else case report e i ob v of Inl ErrNoChange \<Rightarrow> Inr v | r \<Rightarrow> r)"

section \<open>Claim\<close>

text \<open>The eligibility of a reserved award against the latest report of its host.\<close>

definition claim_eligible :: "state \<Rightarrow> goal \<Rightarrow> task \<Rightarrow> action \<Rightarrow> int \<Rightarrow> bool" where
  "claim_eligible s g t a now \<longleftrightarrow>
     \<not> runLimitBlocks s (g_person g) (g_id g) (a_id a) now \<and>
     list_ex (\<lambda>n. n_id n = a_node_id a \<and> mget False (n_workers n) (t_worker t) \<and>
                  mget 0 (n_quota_reset n) (t_worker t) \<le> now \<and>
                  0 < Slots n (filter (\<lambda>b. a_id b \<noteq> a_id a) (st_actions s)) (a_resources a) now)
       (st_nodes s)"

text \<open>
  Model of the callback of \<open>Claim\<close>: the view and the claimed action; None when the award was
  released, which \<open>Claim\<close> answers with a conflict after the commit.
\<close>

definition claim_action :: "engine \<Rightarrow> goal \<Rightarrow> action \<Rightarrow> action" where
  "claim_action e g a =
     (let a = a\<lparr>a_state := Claimed, a_epoch := en_epoch e\<rparr>
      in a\<lparr>a_input_version := Some (inputVersion (en_host e) g a)\<rparr>)"

definition claim_refused :: "engine \<Rightarrow> goal \<Rightarrow> action \<Rightarrow> bool" where
  "claim_refused e g a \<longleftrightarrow>
     g_state g = GoalDone \<or> g_state g = GoalStopped \<and> a_observe_action_id a = [] \<or>
     changedInputs (en_host e) g a \<or>
     a_observe_action_id a = [] \<and> \<not> currentActionTarget (en_host e) g a \<or>
     g_definition_pending g \<and> a_kind a \<noteq> PlanGoal \<and> a_observe_action_id a = [] \<or>
     g_paused g \<and> a_observe_action_id a = []"

definition Claim :: "engine \<Rightarrow> string \<Rightarrow> goal_view \<Rightarrow> goal_error + goal_view \<times> action option" where
  "Claim e i v =
     bind_result (loadAction v i) (\<lambda>a.
       if a_state a \<noteq> Queued then Inl ErrConflict
       else bind_result (load_hydrated e v (a_goal_id a)) (\<lambda>g.
         if claim_refused e g a then Inl ErrConflict
         else let claimed = claim_action e g a;
                  commit = bind_result (put_body ''action'' i (ActionBody claimed) v) (\<lambda>v. Inr (v, Some claimed))
              in if reserves a \<and> a_observe_action_id a = [] then
                   bind_result (snapshotView v) (\<lambda>s.
                     case goalTask g (a_task_id a) of
                       None \<Rightarrow> Inl ErrInvalid
                     | Some t \<Rightarrow>
                         if claim_eligible s g t a (en_now e) then commit
                         else bind_result (put_action (finish a) v) (\<lambda>v.
                              bind_result (put_goal (restoreUndispatchedTask a g) v) (\<lambda>v. Inr (v, None))))
                 else commit))"

section \<open>Waiting for authority\<close>

definition refusal :: observation where
  "refusal = zero_observation\<lparr>o_status := OutcomeNeedsPerson, o_effects_settled := True\<rparr>"

text \<open>Model of the callback of \<open>awaitAuthorization\<close>.\<close>

definition awaitAuthorization :: "engine \<Rightarrow> action \<Rightarrow> goal_view \<Rightarrow> goal_error + goal_view" where
  "awaitAuthorization e claimed v =
     bind_result (loadAction v (a_id claimed)) (\<lambda>a.
       if a_state a \<noteq> Claimed \<or> a_epoch a \<noteq> en_epoch e then Inl ErrConflict
       else bind_result (load_hydrated e v (a_goal_id a)) (\<lambda>g.
         if g_state g = GoalStopped
         then bind_result (put_action (retired a) v) (put_goal (restoreUndispatchedTask a g))
         else let a' = a\<lparr>a_state := (if a_signal a \<noteq> a_signal claimed then Queued else AwaitingAuthorization),
                        a_receipt := Some refusal\<rparr>;
                  a' = (if a_goal_revision a' = g_revision g \<and> currentActionTarget (en_host e) g a'
                        then a'\<lparr>a_input_version := Some (inputVersion (en_host e) g a')\<rparr> else a')
              in bind_result (put_action a' v) (\<lambda>v.
                 bind_result (retireEvidenceWaits (en_host e) (v, g)) (\<lambda>(v, g).
                 bind_result (retireUndispatchedActions (v, g)) (\<lambda>(v, g). put_goal g v)))))"

text \<open>Model of \<open>observationDue\<close> and \<open>CanContinue\<close>: \<open>Inl ErrConflict\<close> stands for ErrPaused.\<close>

definition observationDue :: "engine \<Rightarrow> action \<Rightarrow> bool" where
  "observationDue e a \<longleftrightarrow>
     inFlight (a_state a) \<and>
     (a_epoch a \<noteq> en_epoch e \<and> a_observer_epoch a \<noteq> en_epoch e \<or> a_deadline a \<le> en_now e)"

definition CanContinue :: "engine \<Rightarrow> string \<Rightarrow> state \<Rightarrow> goal_error + bool" where
  "CanContinue e i s =
     (case first_such (\<lambda>a. a_id a = i) (st_actions s) of
        None \<Rightarrow> Inr False
      | Some a \<Rightarrow>
          if a_superseded a \<or> a_input_version a = None \<or> \<not> inFlight (a_state a) then Inr False
          else case first_such (\<lambda>g. g_id g = a_goal_id a) (st_goals s) of
            None \<Rightarrow> Inr False
          | Some g \<Rightarrow>
              if g_state g = GoalDone \<or> g_state g = GoalStopped \<or> staleInputs (en_host e) g a then Inr False
              else if g_paused g then Inl ErrConflict else Inr True)"

end
