(* ===== verification/GoalReconcile.thy ===== *)
theory GoalReconcile
  imports GoalDerive GoalEngine
begin

text \<open>
  The writers of the journal that are not settlements: Reconcile, which commits one
  derivation pass, Admit, NodeChanged and Signal (engine.go, signals.go), the person's
  commands on a goal (command.go), the run limit (run\_limit.go), the wait signal (waits.go)
  and the submission of a step graph (step\_graph.go).
\<close>

section \<open>Committing a plan\<close>

text \<open>The sequence number that makes the identity of a repeated action fresh.\<close>

definition same_target :: "action \<Rightarrow> action \<Rightarrow> bool" where
  "same_target old a \<longleftrightarrow>
     a_goal_id old = a_goal_id a \<and> a_task_id old = a_task_id a \<and> a_kind old = a_kind a \<and>
     a_attempt old = a_attempt a \<and> a_revision old = a_revision a \<and>
     a_criterion_id old = a_criterion_id a \<and> a_goal_revision old = a_goal_revision a \<and>
     a_check_round old = a_check_round a"

definition sequenced :: "host \<Rightarrow> action list \<Rightarrow> action \<Rightarrow> action" where
  "sequenced h olds a =
     (let a = fold (\<lambda>old a. if same_target old a
                            then a\<lparr>a_sequence := max (a_sequence a) (wrap64 (a_sequence old + 1))\<rparr> else a)
                olds a
      in a\<lparr>a_id := actionID h a\<rparr>)"

text \<open>What a committed action writes into its goal and task.\<close>

definition award :: "action \<Rightarrow> task \<Rightarrow> task" where
  "award a t =
     (let t = (if a_kind a = PlanGoal then t\<lparr>t_repair_asked := True\<rparr> else t)
      in if workerAction (a_kind a) \<and> a_observe_action_id a = []
         then let t = t\<lparr>t_stage := TaskBuilding, t_attempt := a_attempt a, t_node_id := a_node_id a,
                        t_session := a_id a, t_pr := no_pr, t_effects_settled := False\<rparr>
              in (case ks_counter (kindSpecs (a_kind a)) of
                    None \<Rightarrow> t | Some c \<Rightarrow> put_counter c (wrap64 (get_counter c t + 1)) t)
         else t)"

definition award_goal :: "action \<Rightarrow> goal \<Rightarrow> goal" where
  "award_goal a g =
     (if g_id g \<noteq> a_goal_id a then g
      else modify_task (a_task_id a) (award a)
             (if a_kind a = CheckCriterion then g\<lparr>g_check_round := a_check_round a\<rparr> else g))"

definition commit_action ::
  "host \<Rightarrow> action list \<Rightarrow> action \<Rightarrow> goal_view \<times> goal list \<Rightarrow> goal_error + goal_view \<times> goal list" where
  "commit_action h olds planned vgs =
     (let a = sequenced h olds planned
      in bind_result (put_action a (fst vgs)) (\<lambda>v. Inr (v, map (award_goal a) (snd vgs))))"

text \<open>The waits a goal keeps, and the cleared to-do links of those it drops.\<close>

definition keep_until :: "wait list \<Rightarrow> wait \<Rightarrow> wait" where
  "keep_until olds w =
     (case first_such (\<lambda>o1. w_task_id o1 = w_task_id w \<and> w_reason o1 = w_reason w \<and> w_wake o1 = w_wake w) olds of
        None \<Rightarrow> w | Some o1 \<Rightarrow> w\<lparr>w_until := w_until o1\<rparr>)"

definition project_waits :: "plan \<Rightarrow> goal \<Rightarrow> goal" where
  "project_waits p g =
     (if g_paused g then g
      else let waits = map (keep_until (g_waits g)) (filter (\<lambda>w. w_goal_id w = g_id g) (pl_waits p));
               kept = map w_wake (filter (\<lambda>w. w_recorded w \<and> w_wake w \<noteq> []) waits);
               olds = filter (\<lambda>o1. w_recorded o1 \<and> w_todo_id o1 \<noteq> [] \<and> w_wake o1 \<notin> set kept) (g_waits g)
           in (fold queueClear olds g)\<lparr>g_waits := waits\<rparr>)"

definition project_queue :: "plan \<Rightarrow> goal \<Rightarrow> goal" where
  "project_queue p g =
     (case map_of (rev (map (\<lambda>q. (q_goal_id q, q)) (pl_queues p))) (g_id g) of
        Some q \<Rightarrow> if goal_final g then g\<lparr>g_queue_place := 0, g_queue_reason := []\<rparr>
                  else g\<lparr>g_queue_place := q_place q, g_queue_reason := q_reason q\<rparr>
      | None \<Rightarrow> g\<lparr>g_queue_place := 0, g_queue_reason := []\<rparr>)"

definition attention :: "goal \<Rightarrow> string" where
  "attention g = ''goal:'' @ g_id g @ '':'' @ int_decimal (g_revision g) @ '':attention''"

text \<open>The state switch. \<open>verified\<close> is None when no evidence reader is installed.\<close>

type_synonym token = "int \<times> int \<times> criterion_evidence list"

definition project_state ::
  "host \<Rightarrow> plan \<Rightarrow> (string \<Rightarrow> token option) option \<Rightarrow> action list \<Rightarrow> goal \<Rightarrow> goal" where
  "project_state h p verified as g =
     (let mine = filter (\<lambda>a. a_goal_id a = g_id g \<and> a_state a \<noteq> Finished) as;
          asks = (\<lambda>a. a_state a = NeedsPerson \<or> a_state a = AwaitingAuthorization);
          person = (list_ex asks mine \<or> list_ex (\<lambda>w. w_reason w = ''person'') (g_waits g));
          active = list_ex (\<lambda>a. \<not> asks a) mine;
          allLanded = (g_tasks g \<noteq> [] \<and> list_all (\<lambda>t. t_stage t = TaskDone) (g_tasks g))
      in if quarantined g then g\<lparr>g_state := GoalBlocked\<rparr>
         else if has (pl_close p) (g_id g) \<and>
                 (case verified of None \<Rightarrow> True | Some m \<Rightarrow> m (g_id g) = Some (evidenceToken g))
         then g\<lparr>g_state := GoalDone\<rparr>
         else if has (pl_block p) (g_id g) \<or> person
         then g\<lparr>g_state := GoalBlocked, g_attention_id := attention g,
                g_blocked_reason := ''LINA could not find a way to finish the remaining done condition; a decision is needed.''\<rparr>
         else if has (pl_orphans p) (g_id g)
         then g\<lparr>g_state := GoalBlocked, g_attention_id := attention g,
                g_blocked_reason := livenessReason h g\<rparr>
         else if has (pl_rows p) (g_id g)
         then g\<lparr>g_state := GoalBlocked,
                g_attention_id := (if g_attention_id g = [] then ''goal:'' @ g_id g @ '':decision''
                                   else g_attention_id g),
                g_blocked_reason := (if g_decision_row g \<noteq> [] then g_decision_row g else g_blocked_reason g)\<rparr>
         else if g_definition_pending g then g\<lparr>g_state := GoalRunning\<rparr>
         else if failedEvidence h g then g\<lparr>g_state := GoalRunning\<rparr>
         else if allLanded \<and> g_waits g = [] then g\<lparr>g_state := GoalChecking\<rparr>
         else if active then g\<lparr>g_state := GoalRunning\<rparr>
         else if g_waits g \<noteq> [] then g\<lparr>g_state := GoalWaiting\<rparr>
         else g\<lparr>g_state := GoalDefining\<rparr>)"

definition project_goal ::
  "host \<Rightarrow> plan \<Rightarrow> (string \<Rightarrow> token option) option \<Rightarrow> goal \<Rightarrow> goal_view \<Rightarrow> goal_error + goal_view" where
  "project_goal h p verified g v =
     (let g = project_waits p (project_queue p g)
      in if goal_final g \<or> g_paused g then put_goal g v
         else bind_result (actionsOf v) (\<lambda>as. put_goal (project_state h p verified as g) v))"

definition project_limit ::
  "state \<Rightarrow> string \<times> limit_state \<Rightarrow> goal_view \<Rightarrow> goal_error + goal_view" where
  "project_limit s pl v =
     (case pl of (person, limit) \<Rightarrow>
        let choice = mget no_limit (st_limits s) person;
            choice = (if rl_value choice = 0 then \<lparr>rl_automatic = True, rl_value = 0\<rparr> else choice)
        in put_limit person \<lparr>lr_choice = choice, lr_current = ls_current limit, lr_reason = ls_reason limit\<rparr> v)"

text \<open>Model of the callback of \<open>Reconcile\<close>.\<close>

definition Reconcile ::
  "engine \<Rightarrow> (string \<Rightarrow> token option) option \<Rightarrow> goal_view \<Rightarrow> goal_error + goal_view" where
  "Reconcile e verified v =
     (let h = en_host e
      in bind_result (reconcileRetired e v) (\<lambda>v.
         bind_result (hydrated_snapshot e v) (\<lambda>s.
         bind_result (Derive h s (en_now e)) (\<lambda>p.
         bind_result (fold_result (commit_action h (st_actions s)) (pl_actions p) (v, st_goals s)) (\<lambda>(v, gs).
         bind_result (fold_result (project_goal h p verified) gs v) (\<lambda>v.
         bind_result (fold_result (project_limit s) (pl_run_limits p) v) (\<lambda>v.
         if vw_changes v = [] then Inl ErrNoChange else Inr v)))))))"

section \<open>Admission and host reports\<close>

text \<open>Model of \<open>Admit\<close> after the definition is published; \<open>prose\<close> is \<open>AcceptProse\<close>.\<close>

definition fresh_goal :: "goal \<Rightarrow> bool" where
  "fresh_goal g \<longleftrightarrow>
     g_step_graph g = None \<and> \<not> g_definition_pending g \<and> g_assessed_failure g = [] \<and>
     g_check_round g = 0 \<and> g_checks g = [] \<and> g_state g = GoalNew \<and> g_revision g = 0 \<and>
     g_manager_turns g = 0 \<and> g_attention_id g = [] \<and> g_blocked_reason g = [] \<and>
     g_decision_row g = [] \<and> g_waits g = [] \<and> g_evidence g = [] \<and> g_target_revision g = [] \<and>
     g_merged_revisions g = [] \<and> g_deployment g = no_proof \<and> g_verification g = no_proof \<and>
     g_rank g = 0 \<and> \<not> g_paused g \<and> g_queue_place g = 0 \<and> g_queue_reason g = []"

definition next_rank :: "string \<Rightarrow> goal list \<Rightarrow> int" where
  "next_rank person gs =
     fold (\<lambda>other rank.
             if g_person other = person \<and> \<not> goal_final other \<and> rank \<le> g_rank other
             then wrap64 (g_rank other + 1) else rank) gs 1"

definition Admit :: "engine \<Rightarrow> (goal \<Rightarrow> bool) \<Rightarrow> (goal \<Rightarrow> goal_error + goal) \<Rightarrow> goal \<Rightarrow> goal_view \<Rightarrow> goal_error + goal_view" where
  "Admit e prose prepare g v =
     (let g = (if g_created_at g = 0 then g\<lparr>g_created_at := en_now e\<rparr> else g);
          g = g\<lparr>g_service_repository := serviceRepository g\<rparr>
      in if \<not> validateGoal g \<or> \<not> fresh_goal g \<or>
            \<not> list_all (\<lambda>t. freshTask t \<and> t_repairs t = []) (g_tasks g) \<or> \<not> prose g
         then Inl ErrInvalid
         else bind_result (prepare g) (\<lambda>g.
           let g = g\<lparr>g_criteria := goalCriteria g\<rparr>;
               g = g\<lparr>g_state := (if g_tasks g = [] then GoalDefining else GoalRunning), g_revision := 1\<rparr>
           in if Get v ''goal'' (g_id g) \<noteq> None then Inl ErrConflict
              else bind_result (goalsOf v) (\<lambda>gs. put_goal (g\<lparr>g_rank := next_rank (g_person g) gs\<rparr>) v)))"

text \<open>Model of \<open>NodeChanged\<close>: a later report keeps the quota rows that have not passed.\<close>

definition carry_quota :: "int \<Rightarrow> node \<Rightarrow> node \<Rightarrow> node" where
  "carry_quota now previous n =
     n\<lparr>n_quota_reset :=
         fold (\<lambda>(worker, reset) m.
                 if now < reset \<and> mget 0 m worker < reset then mput worker reset m else m)
           (n_quota_reset previous) (n_quota_reset n)\<rparr>"

definition NodeChanged :: "engine \<Rightarrow> node \<Rightarrow> goal_view \<Rightarrow> goal_error + goal_view" where
  "NodeChanged e n v =
     (if n_id n = [] \<or> n_observed_at n \<le> 0 \<or> en_now e < n_observed_at n \<or>
         \<not> f_finite (n_cpu_cores n) \<or> \<not> f_finite (n_load_cpu n) \<or> \<not> f_finite (n_cpu_limit n)
      then Inl ErrInvalid
      else case Get v ''node'' (n_id n) of
        None \<Rightarrow> put_node n v
      | Some r \<Rightarrow>
          bind_result (as_node (jr_body r)) (\<lambda>previous.
            if n_observed_at n < n_observed_at previous then Inl ErrConflict
            else put_node (carry_quota (en_now e) previous n) v))"

section \<open>Commands of a person\<close>

datatype command = RankUp | RankDown | PauseGoal | ResumeGoal | StopGoal

text \<open>Model of \<open>normalizeRanks\<close> and \<open>swapRank\<close>.\<close>

definition rank_key :: "goal \<Rightarrow> int \<times> int \<times> int \<times> string" where
  "rank_key g = (if 0 < g_rank g then 1 else 0, g_rank g, g_created_at g, g_id g)"

definition normalizeRanks :: "string \<Rightarrow> goal_view \<Rightarrow> goal_error + goal_view \<times> goal list" where
  "normalizeRanks person v =
     bind_result (goalsOf v) (\<lambda>gs.
       let mine = sort_key rank_key (filter (\<lambda>g. g_person g = person \<and> \<not> goal_final g) gs);
           ranked = map (\<lambda>(g, i). g\<lparr>g_rank := i + 1\<rparr>) (zip mine (map int [0..<length mine]));
           changed = map snd (filter (\<lambda>(old, new). g_rank old \<noteq> g_rank new) (zip mine ranked))
       in bind_result (fold_result put_goal changed v) (\<lambda>v. Inr (v, ranked)))"

fun index_of :: "string \<Rightarrow> goal list \<Rightarrow> nat option" where
  "index_of i [] = None"
| "index_of i (g # gs) = (if g_id g = i then Some 0 else map_option Suc (index_of i gs))"

definition swapRank :: "goal list \<Rightarrow> string \<Rightarrow> bool \<Rightarrow> goal_view \<Rightarrow> goal_error + goal_view \<times> bool" where
  "swapRank ordered i down v =
     (case index_of i ordered of
        None \<Rightarrow> Inl ErrNotFound
      | Some n \<Rightarrow>
          if (if down then length ordered \<le> Suc n else n = 0) then Inr (v, False)
          else let a = ordered ! n; b = ordered ! (if down then Suc n else n - 1)
               in bind_result (put_goal (a\<lparr>g_rank := g_rank b\<rparr>) v) (\<lambda>v.
                  bind_result (put_goal (b\<lparr>g_rank := g_rank a\<rparr>) v) (\<lambda>v. Inr (v, True))))"

text \<open>Model of the callback of \<open>Command\<close> at the given instant: the view and the goal.\<close>

definition stop_goal :: "goal \<Rightarrow> goal" where
  "stop_goal g = g\<lparr>g_state := GoalStopped, g_paused := False, g_waits := [], g_attention_id := [],
                   g_blocked_reason := []\<rparr>"

definition Command :: "string \<Rightarrow> string \<Rightarrow> command \<Rightarrow> int \<Rightarrow> goal_view \<Rightarrow> goal_error + goal_view \<times> goal" where
  "Command goalID person c instant v =
     (case Get v ''goal'' goalID of
        None \<Rightarrow> Inl ErrNotFound
      | Some r \<Rightarrow>
          bind_result (as_goal (jr_body r)) (\<lambda>g.
            if g_person g \<noteq> person then Inl ErrNotFound
            else case c of
              StopGoal \<Rightarrow>
                if g_state g = GoalStopped then Inl ErrNoChange
                else if g_state g = GoalDone then Inl ErrConflict
                else bind_result (retireStoppedActions instant (v, stop_goal g)) (\<lambda>(v, g).
                     bind_result (put_goal g v) (\<lambda>v. Inr (v, g)))
            | PauseGoal \<Rightarrow>
                if goal_final g then Inl ErrConflict
                else if g_paused g then Inl ErrNoChange
                else bind_result (put_goal (g\<lparr>g_paused := True\<rparr>) v) (\<lambda>v. Inr (v, g\<lparr>g_paused := True\<rparr>))
            | ResumeGoal \<Rightarrow>
                if goal_final g then Inl ErrConflict
                else if \<not> g_paused g then Inl ErrNoChange
                else bind_result (put_goal (g\<lparr>g_paused := False\<rparr>) v) (\<lambda>v. Inr (v, g\<lparr>g_paused := False\<rparr>))
            | _ \<Rightarrow>
                if goal_final g then Inl ErrConflict
                else bind_result (normalizeRanks person v) (\<lambda>(v, ordered).
                     bind_result (swapRank ordered goalID (c = RankDown) v) (\<lambda>(v, moved).
                       if \<not> moved \<and> vw_changes v = [] then Inl ErrNoChange
                       else case Get v ''goal'' goalID of
                         None \<Rightarrow> Inl ErrNotFound
                       | Some r \<Rightarrow>
                           bind_result (as_goal (jr_body r)) (\<lambda>g.
                           bind_result (put_goal g v) (\<lambda>v. Inr (v, g)))))))"

text \<open>Model of the callback of \<open>SetRunLimit\<close>.\<close>

definition max_run_limit :: int where
  "max_run_limit = 1024"

definition SetRunLimit :: "string \<Rightarrow> run_limit \<Rightarrow> goal_view \<Rightarrow> goal_error + goal_view \<times> run_limit_record" where
  "SetRunLimit person limit v =
     (if person = [] \<or> rl_value limit < 0 \<or> max_run_limit < rl_value limit \<or>
         0 < rl_value limit \<and> rl_automatic limit \<or> \<not> rl_automatic limit \<and> rl_value limit = 0
      then Inl ErrInvalid
      else case Get v ''limit'' person of
        None \<Rightarrow>
          let l = \<lparr>lr_choice = limit, lr_current = 0, lr_reason = []\<rparr>
          in bind_result (put_limit person l v) (\<lambda>v. Inr (v, l))
      | Some r \<Rightarrow>
          bind_result (as_limit (jr_body r)) (\<lambda>previous.
            if lr_choice previous = limit then Inl ErrNoChange
            else let l = previous\<lparr>lr_choice := limit\<rparr>
                 in bind_result (put_limit person l v) (\<lambda>v. Inr (v, l))))"

section \<open>Signals\<close>

record signal =
  sn_id :: string
  sn_action :: string
  sn_goal :: string
  sn_task :: string
  sn_wake :: string

text \<open>Model of \<open>applyWaitSignal\<close>: one step per recorded wait of the goal.\<close>

definition signal_wait ::
  "engine \<Rightarrow> goal \<Rightarrow> signal \<Rightarrow> wait \<Rightarrow> goal_view \<times> action list \<times> wait list \<times> bool
     \<Rightarrow> goal_error + goal_view \<times> action list \<times> wait list \<times> bool" where
  "signal_wait e g s w st =
     (case st of (v, as, ws, changed) \<Rightarrow>
        if \<not> w_recorded w \<or> w_wake w \<noteq> sn_wake s then Inr (v, as, ws @ [w], changed)
        else if sn_task s \<noteq> [] \<and> w_task_id w \<noteq> sn_task s \<and> w_todo_id w \<noteq> sn_task s
        then Inr (v, as, ws @ [w], changed)
        else if g_paused g \<or> readOpen as (g_id g) (w_wake w)
        then Inr (v, as, ws @ [w\<lparr>w_pending_signal := sn_id s\<rparr>],
                  changed \<or> w_pending_signal w \<noteq> sn_id s)
        else if readSeen as (g_id g) (w_wake w) ''signal'' (sn_id s) then Inr (v, as, ws @ [w], changed)
        else let a = readAction (en_host e) g w ''signal'' (sn_id s) (en_now e)
             in bind_result (put_action a v) (\<lambda>v. Inr (v, as @ [a], ws @ [w], True)))"

definition applyWaitSignal :: "engine \<Rightarrow> signal \<Rightarrow> goal_view \<Rightarrow> goal_error + goal_view" where
  "applyWaitSignal e s v =
     bind_result (load_hydrated e v (sn_goal s)) (\<lambda>g.
       if goal_final g then Inl ErrNoChange
       else bind_result (actionsOf v) (\<lambda>as.
            bind_result (fold_result (signal_wait e g s) (g_waits g) (v, as, [], False))
              (\<lambda>(v, _, ws, changed). if \<not> changed then Inl ErrNoChange else put_goal (g\<lparr>g_waits := ws\<rparr>) v)))"

text \<open>Model of the callback of \<open>Signal\<close>; \<open>digest\<close> is the hash of the signal.\<close>

definition signal_action :: "engine \<Rightarrow> goal \<Rightarrow> task \<Rightarrow> string \<Rightarrow> action \<Rightarrow> action" where
  "signal_action e g t digest a =
     (if a_state a = Queued \<and> a_kind a = Merge \<and> a_observe_action_id a = [] then finish a
      else let a = a\<lparr>a_signal := digest, a_deadline := en_now e\<rparr>
           in if a_state a = Queued \<and> a_epoch a = 0 \<and> a_observe_action_id a = [] \<and>
                 a_goal_revision a = g_revision g \<and> currentActionTarget (en_host e) g a
              then a\<lparr>a_input_version := Some (inputVersion (en_host e) g a)\<rparr> else a)"

definition signal_task :: "engine \<Rightarrow> string \<Rightarrow> string \<Rightarrow> string \<Rightarrow> goal_view \<Rightarrow> goal_error + goal_view" where
  "signal_task e goalID taskID digest v =
     bind_result (load_hydrated e v goalID) (\<lambda>g.
       case goalTask g taskID of
         None \<Rightarrow> Inl ErrInvalid
       | Some t \<Rightarrow>
           if goal_final g then Inr v
           else let g = modify_task taskID
                      (\<lambda>t. t\<lparr>t_pr := no_pr, t_pr_generation := wrap64 (t_pr_generation t + 1)\<rparr>) g
                in bind_result
                     (over_actions (\<lambda>a g. if a_goal_id a = g_id g \<and> a_task_id a = taskID \<and> a_state a \<noteq> Finished
                                          then Some (signal_action e g t digest a, g) else None) (v, g))
                     (\<lambda>(v, g). put_goal g v))"

definition retry_authority :: "engine \<Rightarrow> goal \<Rightarrow> action \<Rightarrow> action" where
  "retry_authority e g a =
     (let a = a\<lparr>a_receipt := Some refusal\<rparr>;
          a = (if a_goal_revision a = g_revision g \<and> currentActionTarget (en_host e) g a
               then a\<lparr>a_input_version := Some (inputVersion (en_host e) g a)\<rparr> else a)
      in a\<lparr>a_state := Queued\<rparr>)"

definition Signal :: "engine \<Rightarrow> string \<Rightarrow> signal \<Rightarrow> goal_view \<Rightarrow> goal_error + goal_view" where
  "Signal e digest s v =
     (if sn_id s = [] then Inl ErrInvalid
      else if sn_wake s \<noteq> [] then
        if sn_action s \<noteq> [] \<or> sn_goal s = [] then Inl ErrInvalid else applyWaitSignal e s v
      else if (sn_action s = []) = (sn_goal s = [] \<or> sn_task s = []) then Inl ErrInvalid
      else if sn_action s = [] then signal_task e (sn_goal s) (sn_task s) digest v
      else bind_result (loadAction v (sn_action s)) (\<lambda>a.
        if a_task_id a = [] \<or> a_state a = AwaitingAuthorization then
          if a_state a = Finished then Inr v
          else let a' = a\<lparr>a_signal := digest, a_deadline := en_now e\<rparr>
               in if a_state a = AwaitingAuthorization
                  then bind_result (load_hydrated e v (a_goal_id a)) (\<lambda>g. put_action (retry_authority e g a') v)
                  else put_action a' v
        else signal_task e (a_goal_id a) (a_task_id a) digest v))"

section \<open>Submitting a step graph\<close>

datatype submit_error = GraphError graph_error | EngineError goal_error | SubmitNoChange

definition lift_engine :: "goal_error + 'a \<Rightarrow> submit_error + 'a" where
  "lift_engine r = (case r of Inl e \<Rightarrow> Inl (EngineError e) | Inr x \<Rightarrow> Inr x)"

definition submitted_task :: "goal \<Rightarrow> step \<Rightarrow> task" where
  "submitted_task g s =
     (case goalTask g (s_id s) of
        None \<Rightarrow> step_task s
      | Some old \<Rightarrow>
          if sameStepWork old s then old\<lparr>t_name := s_name s, t_depends_on := s_depends_on s\<rparr>
          else (step_task s)\<lparr>t_repairs := t_repairs old\<rparr>)"

fun check_repairs :: "goal \<Rightarrow> task list \<Rightarrow> graph_error option" where
  "check_repairs g [] = None"
| "check_repairs g (t # ts) =
     (if t_repaired_by t \<noteq> [] \<and> goalTask g (t_repaired_by t) = None then Some GraphUnknownStep
      else if t_repairs t = [] then check_repairs g ts
      else case goalTask g (t_repairs t) of
        None \<Rightarrow> Some GraphUnknownStep
      | Some p \<Rightarrow> if t_repository p \<noteq> t_repository t \<or> t_base p \<noteq> t_base t then Some GraphInvalid
                  else check_repairs g ts)"

definition started_step :: "step list \<Rightarrow> task \<Rightarrow> bool" where
  "started_step steps old \<longleftrightarrow>
     (0 < t_attempt old \<or> t_stage old \<noteq> TaskReady) \<and>
     (case map_of (rev (map (\<lambda>s. (s_id s, s)) steps)) (t_id old) of
        None \<Rightarrow> True | Some s \<Rightarrow> \<not> sameStepWork old s)"

text \<open>Model of the callback of \<open>SubmitStepGraph\<close>: the view and the committed graph.\<close>

definition SubmitStepGraph ::
  "engine \<Rightarrow> string \<Rightarrow> string \<Rightarrow> string \<Rightarrow> string \<Rightarrow> int \<Rightarrow> step list \<Rightarrow> goal_view
     \<Rightarrow> submit_error + goal_view \<times> step_graph" where
  "SubmitStepGraph e i person agent conversation expected steps v =
     (case loadGoal v i of
        Inl _ \<Rightarrow> Inl (GraphError GraphUnavailable)
      | Inr g0 \<Rightarrow>
          if \<not> graphOwner g0 person agent conversation then Inl (GraphError GraphUnavailable)
          else bind_result (lift_engine (hydrate e g0)) (\<lambda>g.
            let current = graphFor g
            in if expected = 2 ^ 64 - 1 then Inl (GraphError GraphStaleRevision)
               else if sg_revision current = expected + 1 \<and> sg_steps current = steps then Inl SubmitNoChange
               else if sg_revision current \<noteq> expected then Inl (GraphError GraphStaleRevision)
               else if g_definition_pending g then Inl (GraphError GraphUnavailable)
               else case validateSteps (en_host e) g steps of
                 Some err \<Rightarrow> Inl (GraphError err)
               | None \<Rightarrow>
                   let changed = (length (g_tasks g) \<noteq> length steps \<or>
                         list_ex (\<lambda>s. case goalTask g (s_id s) of
                                        None \<Rightarrow> True | Some old \<Rightarrow> \<not> sameStepWork old s) steps)
                   in if changed \<and> goal_final g then Inl (GraphError GraphUnavailable)
                      else bind_result
                        (if changed
                         then lift_engine (retireUndispatchedActions (v, g\<lparr>g_revision := wrap64 (g_revision g + 1)\<rparr>))
                         else Inr (v, g))
                        (\<lambda>(v, g).
                          if list_ex (started_step steps) (g_tasks g) then Inl (GraphError GraphStartedStep)
                          else let g = g\<lparr>g_tasks := map (submitted_task g) steps\<rparr>
                               in case check_repairs g (g_tasks g) of
                                 Some err \<Rightarrow> Inl (GraphError err)
                               | None \<Rightarrow>
                                   let g = g\<lparr>g_criteria := goalCriteria g\<rparr>;
                                       g = (if changed
                                            then g\<lparr>g_checks := [], g_verification := no_proof,
                                                   g_assessed_failure := [], g_attention_id := [],
                                                   g_blocked_reason := [], g_state := GoalRunning\<rparr>
                                            else g);
                                       sg = \<lparr>sg_goal_id = i, sg_revision = expected + 1, sg_steps = steps\<rparr>
                                   in bind_result (lift_engine (put_goal (g\<lparr>g_step_graph := Some sg\<rparr>) v))
                                        (\<lambda>v. Inr (v, sg)))))"

end
