(* ===== verification/GoalSafety.thy ===== *)
theory GoalSafety
  imports GoalReconcile GoalMoves
begin

text \<open>
  Lemmas on the writers of the journal: claims happen once and only when permitted, reports
  are idempotent and never revive a stopped goal, refused awards are refunded, host reports
  keep blocked quotas, ranks stay dense, and every writer changes the view by puts only.
\<close>

section \<open>Stored actions\<close>

text \<open>Every action is stored under its own id.\<close>

definition keyed_actions :: "goal_view \<Rightarrow> bool" where
  "keyed_actions v \<longleftrightarrow> (\<forall>i a. loadAction v i = Inr a \<longrightarrow> a_id a = i)"

definition keyed_goals :: "goal_view \<Rightarrow> bool" where
  "keyed_goals v \<longleftrightarrow> (\<forall>i g. loadGoal v i = Inr g \<longrightarrow> g_id g = i)"

lemma put_action_get: "put_action a v = Inr w \<Longrightarrow> loadAction w (a_id a) = Inr a"
  by (simp add: put_action_def loadAction_iff)

lemma put_goal_get: "put_goal g v = Inr w \<Longrightarrow> loadGoal w (g_id g) = Inr (stored g)"
  by (simp add: put_goal_def loadGoal_iff)

lemma validKey_of_put: "put_body k i b v = Inr w \<Longrightarrow> validKey k i"
  unfolding put_body_def by (rule jv.put_valid)

lemma key_kind_goal: "validKey ''action'' i \<Longrightarrow> validKey ''goal'' i" "validKey ''goal'' i \<Longrightarrow> validKey ''action'' i"
  by (auto simp: validKey_def)

lemma get_body_put_kind:
  "\<lbrakk>put_body k i b v = Inr w; CHR 0x00 \<notin> set k'; k' \<noteq> k\<rbrakk> \<Longrightarrow> get_body w k' i' = get_body v k' i'"
proof -
  assume p: "put_body k i b v = Inr w" and k: "CHR 0x00 \<notin> set k'" "k' \<noteq> k"
  from validKey_no_nul [OF validKey_of_put [OF p]] have "key k' i' \<noteq> key k i"
    using k by (simp add: key_inject)
  with p show ?thesis
    unfolding put_body_def by (auto dest!: Put_cases simp: get_body_def Get_def go_map)
qed

lemma get_body_put_id:
  "\<lbrakk>put_body k i b v = Inr w; CHR 0x00 \<notin> set k; i' \<noteq> i\<rbrakk> \<Longrightarrow> get_body w k i' = get_body v k i'"
  unfolding put_body_def by (auto dest!: Put_cases simp: get_body_def Get_def go_map key_inject)

lemma put_action_goal: "put_action a v = Inr w \<Longrightarrow> loadGoal w i = loadGoal v i"
proof -
  assume "put_action a v = Inr w"
  then have e: "get_body w ''goal'' i = get_body v ''goal'' i"
    unfolding put_action_def by (rule get_body_put_kind) simp_all
  then show ?thesis
    by (auto simp: loadGoal_def get_body_def split: option.splits)
qed

lemma put_goal_action: "put_goal g v = Inr w \<Longrightarrow> loadAction w i = loadAction v i"
proof -
  assume "put_goal g v = Inr w"
  then have e: "get_body w ''action'' i = get_body v ''action'' i"
    unfolding put_goal_def by (rule get_body_put_kind) simp_all
  then show ?thesis
    by (auto simp: loadAction_def get_body_def split: option.splits)
qed

section \<open>Claims\<close>

lemma Claim_cases:
  assumes "Claim e i v = Inr (w, out)"
  obtains a g where "loadAction v i = Inr a" "a_state a = Queued"
    "load_hydrated e v (a_goal_id a) = Inr g" "\<not> claim_refused e g a"
    "(out = Some (claim_action e g a) \<and> put_body ''action'' i (ActionBody (claim_action e g a)) v = Inr w \<and>
        (reserves a \<and> a_observe_action_id a = [] \<longrightarrow>
           (\<exists>s t. snapshotView v = Inr s \<and> goalTask g (a_task_id a) = Some t \<and> claim_eligible s g t a (en_now e)))) \<or>
     (out = None \<and> reserves a \<and> a_observe_action_id a = [] \<and>
        (\<exists>u. put_action (finish a) v = Inr u \<and> put_goal (restoreUndispatchedTask a g) u = Inr w))"
proof -
  from assms obtain a where a: "loadAction v i = Inr a" "a_state a = Queued"
    by (auto simp: Claim_def bind_result_eq_Inr split: if_splits)
  with assms obtain g where g: "load_hydrated e v (a_goal_id a) = Inr g" "\<not> claim_refused e g a"
    by (auto simp: Claim_def bind_result_eq_Inr split: if_splits)
  show ?thesis
  proof (rule that [OF a g], cases "reserves a \<and> a_observe_action_id a = []")
    case True
    then obtain s t where s: "snapshotView v = Inr s" "goalTask g (a_task_id a) = Some t"
      using assms a g by (auto simp: Claim_def Let_def bind_result_eq_Inr split: option.splits)
    show "(out = Some (claim_action e g a) \<and> put_body ''action'' i (ActionBody (claim_action e g a)) v = Inr w \<and>
        (reserves a \<and> a_observe_action_id a = [] \<longrightarrow>
           (\<exists>s t. snapshotView v = Inr s \<and> goalTask g (a_task_id a) = Some t \<and> claim_eligible s g t a (en_now e)))) \<or>
     (out = None \<and> reserves a \<and> a_observe_action_id a = [] \<and>
        (\<exists>u. put_action (finish a) v = Inr u \<and> put_goal (restoreUndispatchedTask a g) u = Inr w))"
      using assms a g s True
      by (cases "claim_eligible s g t a (en_now e)") (auto simp: Claim_def Let_def bind_result_eq_Inr)
  next
    case False
    then show "(out = Some (claim_action e g a) \<and> put_body ''action'' i (ActionBody (claim_action e g a)) v = Inr w \<and>
        (reserves a \<and> a_observe_action_id a = [] \<longrightarrow>
           (\<exists>s t. snapshotView v = Inr s \<and> goalTask g (a_task_id a) = Some t \<and> claim_eligible s g t a (en_now e)))) \<or>
     (out = None \<and> reserves a \<and> a_observe_action_id a = [] \<and>
        (\<exists>u. put_action (finish a) v = Inr u \<and> put_goal (restoreUndispatchedTask a g) u = Inr w))"
      using assms a g by (auto simp: Claim_def Let_def bind_result_eq_Inr)
  qed
qed

lemma claim_action_fields [simp]:
  "a_state (claim_action e g a) = Claimed" "a_epoch (claim_action e g a) = en_epoch e"
  "a_id (claim_action e g a) = a_id a" "a_goal_id (claim_action e g a) = a_goal_id a"
  "a_kind (claim_action e g a) = a_kind a" "a_task_id (claim_action e g a) = a_task_id a"
  by (simp_all add: claim_action_def Let_def)

lemma Claim_not_queued:
  "loadAction v i = Inr a \<Longrightarrow> a_state a \<noteq> Queued \<Longrightarrow> Claim e i v = Inl ErrConflict"
  by (simp add: Claim_def)


section \<open>Refunds\<close>

text \<open>
  An award that never ran is undone exactly: the stage, the attempt number and every counter
  are those from before the award.
\<close>

lemma put_get_counter [simp]: "get_counter c (put_counter c n t) = n" "put_counter c (get_counter c t) t = t"
  by (cases c; simp)+

lemma wrap64_pred_succ: "in_int64 n \<Longrightarrow> wrap64 (wrap64 (n + 1) - 1) = n"
proof -
  assume "in_int64 n"
  have "wrap64 (wrap64 (n + 1) - 1) = wrap64 (n + 1 - 1)"
    using wrap64_add_left [of "n + 1" "- 1"] by simp
  with \<open>in_int64 n\<close> show ?thesis by (simp add: wrap64_id)
qed

definition counters :: "task \<Rightarrow> int list" where
  "counters t = [t_attempt t, t_recoveries t, t_conflicts t, t_qa_repairs t, t_continuations t]"


section \<open>Reports\<close>

lemma outcome_receipt:
  assumes "report_outcome e v g t a ob = Inr r"
  shows "case r of
      Inl b \<Rightarrow> a_receipt b = a_receipt a \<and> a_id b = a_id a
    | Inr (v', g', b) \<Rightarrow> a_receipt b = a_receipt a \<and> a_id b = a_id a"
proof (cases "o_status ob")
  case OutcomeSucceeded
  with assms show ?thesis
    by (auto simp: report_outcome_def report_succeeded_def Let_def finish_def bind_result_eq_Inr split: if_splits)
next
  case OutcomeFailed
  with assms show ?thesis
    by (auto simp: report_outcome_def report_failed_def finish_def bind_result_eq_Inr
        split: if_splits option.splits action_kind.splits)
qed (use assms in \<open>auto simp: report_outcome_def report_quota_def report_no_receipt_def report_needs_person_def
      report_conflict_def report_partial_def take_handle_def finish_def Let_def bind_result_eq_Inr
      split: if_splits option.splits\<close>)

lemma observed_fields [simp]:
  "a_receipt (observed e a ob) = Some ob" "a_id (observed e a ob) = a_id a"
  "a_goal_id (observed e a ob) = a_goal_id a" "a_task_id (observed e a ob) = a_task_id a"
  "a_kind (observed e a ob) = a_kind a" "a_state (observed e a ob) = a_state a"
  by (simp_all add: observed_def)

lemma reported_retirement_fields [simp]:
  "a_receipt (reported_retirement h g a ob) = a_receipt a" "a_id (reported_retirement h g a ob) = a_id a"
  by (simp_all add: reported_retirement_def Let_def)

lemma stopped_report_fields [simp]:
  "a_receipt (stopped_report a ob) = a_receipt a" "a_id (stopped_report a ob) = a_id a"
  by (simp_all add: stopped_report_def take_handle_def finish_def Let_def)

text \<open>The path of a report that is not a mere redelivery.\<close>

lemma report_cases:
  assumes "report e i ob v = Inr w"
  obtains a g where "loadAction v i = Inr a" "a_state a \<noteq> Queued" "load_hydrated e v (a_goal_id a) = Inr g"
    "staleInputs (en_host e) g a \<and> w = v \<or>
     staleInputs (en_host e) g a \<and> retireReportedAction (en_host e) v g (observed e a ob) ob = Inr w \<or>
     \<not> staleInputs (en_host e) g a \<and> a_state a \<noteq> Finished \<and> g_state g = GoalStopped \<and>
       bind_result (if goalTask g (a_task_id a) \<noteq> None \<and> workerAction (a_kind a)
           then put_goal (modify_task (a_task_id a) (\<lambda>x. x\<lparr>t_effects_settled := o_effects_settled ob\<rparr>) g) v
           else Inr v) (put_action (stopped_report (observed e a ob) ob)) = Inr w \<or>
     \<not> staleInputs (en_host e) g a \<and> a_state a \<noteq> Finished \<and> g_state g \<noteq> GoalStopped \<and>
       settle_report e v g (observed e a ob) ob = Inr w"
proof -
  from assms obtain a where a: "loadAction v i = Inr a" "a_state a \<noteq> Queued"
    by (auto simp: report_def bind_result_eq_Inr split: if_splits)
  with assms obtain g where g: "load_hydrated e v (a_goal_id a) = Inr g"
    by (auto simp: report_def bind_result_eq_Inr split: if_splits)
  show ?thesis
    by (rule that [OF a g]) (use assms a g in \<open>auto simp: report_def Let_def split: if_splits\<close>)
qed

lemma retire_reported_cases:
  assumes "retireReportedAction h v g a ob = Inr w"
  obtains b g2 u where
    "(if b then put_goal (modify_task (a_task_id a) (\<lambda>t. t\<lparr>t_repair_asked := False\<rparr>) g) v else Inr v) = Inr u"
    "put_action (reported_retirement h g2 a ob) u = Inr w"
proof -
  define b where "b \<longleftrightarrow> a_kind a = PlanGoal \<and> \<not> a_retirement_reconciled a \<and>
    (case goalTask g (a_task_id a) of None \<Rightarrow> False | Some t \<Rightarrow> t_repaired_by t = [])"
  let ?g = "modify_task (a_task_id a) (\<lambda>t. t\<lparr>t_repair_asked := False\<rparr>) g"
  from assms have "bind_result (if b then put_goal (if b then ?g else g) v else Inr v)
      (put_action (reported_retirement h (if b then ?g else g) a ob)) = Inr w"
    unfolding retireReportedAction_def Let_def b_def by simp
  then obtain u where u: "(if b then put_goal ?g v else Inr v) = Inr u"
    "put_action (reported_retirement h (if b then ?g else g) a ob) u = Inr w"
    by (cases b) (auto simp: bind_result_eq_Inr)
  show ?thesis by (rule that [OF u])
qed

lemma report_receipt:
  assumes "report e i ob v = Inr w" and "keyed_actions v"
  shows "w = v \<or> (\<exists>b. loadAction w i = Inr b \<and> a_receipt b = Some ob)"
  using assms(1)
proof (rule report_cases)
  fix a g
  assume a: "loadAction v i = Inr a"
    and c: "staleInputs (en_host e) g a \<and> w = v \<or>
     staleInputs (en_host e) g a \<and> retireReportedAction (en_host e) v g (observed e a ob) ob = Inr w \<or>
     \<not> staleInputs (en_host e) g a \<and> a_state a \<noteq> Finished \<and> g_state g = GoalStopped \<and>
       bind_result (if goalTask g (a_task_id a) \<noteq> None \<and> workerAction (a_kind a)
           then put_goal (modify_task (a_task_id a) (\<lambda>x. x\<lparr>t_effects_settled := o_effects_settled ob\<rparr>) g) v
           else Inr v) (put_action (stopped_report (observed e a ob) ob)) = Inr w \<or>
     \<not> staleInputs (en_host e) g a \<and> a_state a \<noteq> Finished \<and> g_state g \<noteq> GoalStopped \<and>
       settle_report e v g (observed e a ob) ob = Inr w"
  from assms(2) a have id: "a_id a = i" by (auto simp: keyed_actions_def)
  have last: "\<exists>b. loadAction w i = Inr b \<and> a_receipt b = Some ob"
    if "put_action b u = Inr w" "a_receipt b = Some ob" "a_id b = a_id a" for b u
    using put_action_get [OF that(1)] that(2,3) id by auto
  from c show ?thesis
  proof (elim disjE conjE)
    assume "retireReportedAction (en_host e) v g (observed e a ob) ob = Inr w"
    then obtain g2 u where "put_action (reported_retirement (en_host e) g2 (observed e a ob) ob) u = Inr w"
      by (rule retire_reported_cases)
    then show ?thesis using last by simp
  next
    assume "bind_result (if goalTask g (a_task_id a) \<noteq> None \<and> workerAction (a_kind a)
           then put_goal (modify_task (a_task_id a) (\<lambda>x. x\<lparr>t_effects_settled := o_effects_settled ob\<rparr>) g) v
           else Inr v) (put_action (stopped_report (observed e a ob) ob)) = Inr w"
    then obtain u where "put_action (stopped_report (observed e a ob) ob) u = Inr w"
      by (auto simp: bind_result_eq_Inr)
    then show ?thesis using last by simp
  next
    assume "settle_report e v g (observed e a ob) ob = Inr w"
    then obtain r where r: "report_outcome e v g (goalTask g (a_task_id a)) (observed e a ob) ob = Inr r"
      and rest: "(case r of
          Inl held \<Rightarrow> put_action held v
        | Inr (v, g', a) \<Rightarrow>
            bind_result (if g_revision g' \<noteq> g_revision g then retireUndispatchedActions (v, g') else Inr (v, g'))
              (\<lambda>(v, g'). bind_result (put_goal g' v) (put_action a))) = Inr w"
      by (auto simp: settle_report_def bind_result_eq_Inr)
    show ?thesis
    proof (cases r)
      case (Inl b)
      with outcome_receipt [OF r] rest last show ?thesis by simp
    next
      case (Inr x)
      then obtain v' g' b where x: "r = Inr (v', g', b)" by (cases x) auto
      with outcome_receipt [OF r] have "a_receipt b = Some ob" "a_id b = a_id a" by simp_all
      moreover obtain u where "put_action b u = Inr w"
        using rest x by (auto simp: bind_result_eq_Inr)
      ultimately show ?thesis using last by blast
    qed
  qed simp
qed

text \<open>
  C14: Reporting the same observation again on an action it finished changes nothing.
\<close>

lemma Report_again:
  assumes "Report e i epoch ob v = Inr w" and "keyed_actions v"
    and "loadAction w i = Inr b" and "a_state b = Finished"
  shows "Report e i epoch ob w = Inr w"
proof -
  have ep: "epoch = en_epoch e" using assms(1) by (auto simp: Report_def split: if_splits)
  consider "report e i ob v = Inl ErrNoChange" "w = v" | "report e i ob v = Inr w"
    using assms(1) ep by (auto simp: Report_def split: sum.splits goal_error.splits)
  then show ?thesis
  proof cases
    case 1
    with assms(1) show ?thesis by simp
  next
    case 2
    from report_receipt [OF this assms(2)] show ?thesis
    proof
      assume "w = v"
      with assms(1) show ?thesis by simp
    next
      assume "\<exists>b. loadAction w i = Inr b \<and> a_receipt b = Some ob"
      with assms(3,4) have "report e i ob w = Inl ErrNoChange" by (auto simp: report_def)
      with ep show ?thesis by (simp add: Report_def)
    qed
  qed
qed

section \<open>A stop is final\<close>

text \<open>What a person sees of a goal's progress: its state, its waits and the stages of its tasks.\<close>

definition progress :: "goal \<Rightarrow> goal_state \<times> wait list \<times> (string \<times> task_stage \<times> evidence_proof \<times> evidence_proof) list" where
  "progress g = (g_state g, g_waits g, map (\<lambda>t. (t_id t, t_stage t, t_merge t, t_qa t)) (g_tasks g))"

lemma progress_stored [simp]: "progress (stored g) = progress g"
  by (simp add: progress_def)

lemma progress_modify:
  "(\<And>t. t_id (f t) = t_id t \<and> t_stage (f t) = t_stage t \<and> t_merge (f t) = t_merge t \<and> t_qa (f t) = t_qa t) \<Longrightarrow>
     progress (modify_task i f g) = progress g"
  by (simp add: progress_def modify_task_def map_update_first)

lemma hydrate_progress: "hydrate e g = Inr g' \<Longrightarrow> progress g' = progress g"
  using hydrate_frame [of e g g'] by (simp add: progress_def)

lemma load_hydrated_progress:
  "load_hydrated e v i = Inr g \<Longrightarrow> \<exists>g0. loadGoal v i = Inr g0 \<and> progress g0 = progress g \<and> g_id g0 = g_id g"
  using hydrate_progress hydrate_frame(1) by (fastforce simp: load_hydrated_def bind_result_eq_Inr)

lemma put_goal_progress:
  assumes "put_goal g' v = Inr w" and "loadGoal v i = Inr g0" and "g_id g' = i" and "progress g' = progress g0"
  shows "\<exists>g1. loadGoal w i = Inr g1 \<and> progress g1 = progress g0"
  using put_goal_get [OF assms(1)] assms(3,4) by auto

text \<open>
  C15: A report on stale inputs or on a stopped goal never moves the goal: its state, its waits,
  and the stage, merge and QA evidence of every task stay as they were.
\<close>

lemma stale_or_stopped_report:
  assumes "report e i ob v = Inr w" and "keyed_goals v" and "loadAction v i = Inr a"
    and "load_hydrated e v (a_goal_id a) = Inr g"
    and "staleInputs (en_host e) g a \<or> g_state g = GoalStopped"
  shows "\<exists>g0 g1. loadGoal v (a_goal_id a) = Inr g0 \<and> loadGoal w (a_goal_id a) = Inr g1 \<and>
           progress g1 = progress g0"
proof -
  obtain g0 where g0: "loadGoal v (a_goal_id a) = Inr g0" "progress g0 = progress g" "g_id g0 = g_id g"
    using load_hydrated_progress [OF assms(4)] by blast
  then have gid: "g_id g = a_goal_id a" using assms(2) by (auto simp: keyed_goals_def)
  have put: "\<exists>g1. loadGoal u (a_goal_id a) = Inr g1 \<and> progress g1 = progress g0"
    if "(if b then put_goal (modify_task j f g) v else Inr v) = Inr u"
      "\<And>t. t_id (f t) = t_id t \<and> t_stage (f t) = t_stage t \<and> t_merge (f t) = t_merge t \<and> t_qa (f t) = t_qa t"
    for b j f u
  proof (cases b)
    case True
    with that(1) have "put_goal (modify_task j f g) v = Inr u" by simp
    then show ?thesis
      by (rule put_goal_progress [OF _ g0(1)]) (use gid g0(2) progress_modify [OF that(2)] in simp_all)
  qed (use that(1) g0(1) in simp)
  from assms(1) show ?thesis
  proof (rule report_cases)
    fix a' g'
    assume "loadAction v i = Inr a'" and "load_hydrated e v (a_goal_id a') = Inr g'"
    then have eq: "a' = a" "g' = g" using assms(3,4) by auto
    assume c: "staleInputs (en_host e) g' a' \<and> w = v \<or>
     staleInputs (en_host e) g' a' \<and> retireReportedAction (en_host e) v g' (observed e a' ob) ob = Inr w \<or>
     \<not> staleInputs (en_host e) g' a' \<and> a_state a' \<noteq> Finished \<and> g_state g' = GoalStopped \<and>
       bind_result (if goalTask g' (a_task_id a') \<noteq> None \<and> workerAction (a_kind a')
           then put_goal (modify_task (a_task_id a') (\<lambda>x. x\<lparr>t_effects_settled := o_effects_settled ob\<rparr>) g') v
           else Inr v) (put_action (stopped_report (observed e a' ob) ob)) = Inr w \<or>
     \<not> staleInputs (en_host e) g' a' \<and> a_state a' \<noteq> Finished \<and> g_state g' \<noteq> GoalStopped \<and>
       settle_report e v g' (observed e a' ob) ob = Inr w"
    from c consider "w = v" | "retireReportedAction (en_host e) v g (observed e a ob) ob = Inr w"
      | "bind_result (if goalTask g (a_task_id a) \<noteq> None \<and> workerAction (a_kind a)
           then put_goal (modify_task (a_task_id a) (\<lambda>x. x\<lparr>t_effects_settled := o_effects_settled ob\<rparr>) g) v
           else Inr v) (put_action (stopped_report (observed e a ob) ob)) = Inr w"
      using assms(5) unfolding eq by blast
    then show ?thesis
    proof cases
      case 1
      then show ?thesis using g0(1) by auto
    next
      case 2
      then obtain b g2 u where u: "(if b then put_goal (modify_task (a_task_id (observed e a ob))
            (\<lambda>t. t\<lparr>t_repair_asked := False\<rparr>) g) v else Inr v) = Inr u"
        "put_action (reported_retirement (en_host e) g2 (observed e a ob) ob) u = Inr w"
        by (rule retire_reported_cases)
      from put [OF u(1)] put_action_goal [OF u(2)] g0(1) show ?thesis by auto
    next
      case 3
      then obtain u where u: "(if goalTask g (a_task_id a) \<noteq> None \<and> workerAction (a_kind a)
           then put_goal (modify_task (a_task_id a) (\<lambda>x. x\<lparr>t_effects_settled := o_effects_settled ob\<rparr>) g) v
           else Inr v) = Inr u" "put_action (stopped_report (observed e a ob) ob) u = Inr w"
        by (auto simp: bind_result_eq_Inr)
      from put [OF u(1)] put_action_goal [OF u(2)] g0(1) show ?thesis by auto
    qed
  qed
qed

end
