(* ===== verification/GoalRefresh.thy ===== *)
theory GoalRefresh
  imports GoalReconcile
begin

text \<open>
  What reaches the engine from outside a pass: a changed canonical definition (definition.go
  Revise and RefreshDefinitions), evidence that is read again (evidence\_refresh.go), the
  marks of armed and linked waits (waits.go), and the dispatch of one action to the driver
  (the goroutine of engine.go step).
\<close>

section \<open>Definitions\<close>

text \<open>
  Model of \<open>RefreshDefinitions\<close> for one goal row: \<open>d\<close> and \<open>version\<close> are the definition and the
  revision the record store answers. \<open>definition_invalid\<close> is the candidate's validation.
\<close>

definition definition_invalid :: "goal_definition \<Rightarrow> goal \<Rightarrow> bool" where
  "definition_invalid d g \<longleftrightarrow> \<not> validateGoalState (applyDefinition d (g\<lparr>g_definition_pending := True\<rparr>)) True"

definition refresh_due :: "goal_definition \<Rightarrow> string \<Rightarrow> goal \<Rightarrow> bool" where
  "refresh_due d version g \<longleftrightarrow>
     \<not> (version = g_record_revision g \<and>
        (\<not> definition_invalid d g \<or> g_state g = GoalStopped \<or>
         g_definition_pending g \<and> g_assessed_failure g = ''definition:'' @ version))"

definition invalid_reason :: string where
  "invalid_reason = ''The goal needs a valid done condition and criteria. Correct its record to continue.''"

definition revised_goal :: "goal_definition \<Rightarrow> string \<Rightarrow> bool \<Rightarrow> goal \<Rightarrow> goal" where
  "revised_goal d version invalid g =
     (let g = restoreMergedRevisions g;
          next = serviceRepository (g\<lparr>g_service_repository := df_service_repository d, g_scope := df_scope d\<rparr>);
          g = (if g_service_repository g \<noteq> next
               then g\<lparr>g_deployment := no_proof, g_verification := no_proof\<rparr> else g);
          g = g\<lparr>g_service_repository := next, g_record_revision := version,
                g_revision := wrap64 (g_revision g + 1), g_definition_pending := True,
                g_state := GoalRunning, g_attention_id := [], g_blocked_reason := [],
                g_decision_row := [], g_assessed_failure := []\<rparr>;
          g = (if invalid then blockCorrection invalid_reason g else g)
      in g\<lparr>g_waits := [], g_checks := [], g_check_round := wrap64 (g_check_round g + 1)\<rparr>)"

definition RefreshDefinition ::
  "engine \<Rightarrow> goal_definition \<Rightarrow> string \<Rightarrow> goal \<Rightarrow> goal_view \<Rightarrow> goal_error + goal_view" where
  "RefreshDefinition e d version g v =
     (let invalid = definition_invalid d g
      in bind_result (loadGoal v (g_id g)) (\<lambda>current.
         if g_record_revision current = version \<and>
            (\<not> invalid \<or> g_definition_pending current \<and> g_assessed_failure current = ''definition:'' @ version)
         then Inl ErrNoChange
         else if g_record_revision current \<noteq> g_record_revision g then Inl ErrConflict
         else if g_state current = GoalStopped then Inl ErrNoChange
         else bind_result (retireUndispatchedActions (v, revised_goal d version invalid current)) (\<lambda>(v, current).
              bind_result (retireRevisedActions (en_now e) (v, current)) (\<lambda>(v, current).
              put_goal current v))))"

text \<open>
  Model of \<open>Revise\<close> up to the commit of the record: \<open>current\<close> is the parsed record and \<open>read\<close>
  its revision; \<open>prose\<close> is \<open>AcceptProse\<close>. The answer is the goal whose bytes are committed.
\<close>

datatype revise_error = ReviseInvalid | ReviseStale

definition corrected_goal :: "goal_definition \<Rightarrow> goal_definition \<Rightarrow> goal \<Rightarrow> goal" where
  "corrected_goal current d g =
     (let g = g\<lparr>g_service_repository :=
                 serviceRepository (g\<lparr>g_service_repository := df_service_repository current,
                                      g_scope := df_scope current\<rparr>)\<rparr>;
          g = g\<lparr>g_summary := df_outcome d, g_done := df_done d, g_scope := df_scope d,
                g_assumptions := df_assumptions d, g_asks := df_asks d, g_person_tasks := df_person_tasks d,
                g_criteria := df_criteria d, g_decisions := df_decisions current\<rparr>
      in if df_service_repository d \<noteq> [] then g\<lparr>g_service_repository := df_service_repository d\<rparr> else g)"

definition Revise ::
  "(goal \<Rightarrow> bool) \<Rightarrow> string \<Rightarrow> string \<Rightarrow> string \<Rightarrow> string \<Rightarrow> goal_definition option \<Rightarrow>
   string \<Rightarrow> goal_definition \<Rightarrow> goal list \<Rightarrow> revise_error + goal" where
  "Revise prose i base person agent current read d goals =
     (if i = [] \<or> base = [] \<or> blank (df_outcome d) \<or> df_decisions d \<noteq> [] then Inl ReviseInvalid
      else case first_such (\<lambda>g. g_id g = i) goals of
        None \<Rightarrow> Inl ReviseInvalid
      | Some g \<Rightarrow>
          if g_person g \<noteq> person \<or> g_agent g \<noteq> agent \<or> g_state g = GoalStopped then Inl ReviseInvalid
          else if read \<noteq> base then Inl ReviseStale
          else case current of
            None \<Rightarrow> Inl ReviseInvalid
          | Some c \<Rightarrow>
              let g = corrected_goal c d g
              in if \<not> validServiceRepository g \<or> \<not> prose g then Inl ReviseInvalid
                 else let g = g\<lparr>g_definition_pending := True\<rparr>
                      in if validateGoal g then Inr g else Inl ReviseInvalid)"

section \<open>Evidence read again\<close>

text \<open>
  The reader is the installed adapter: it answers the fresh evidence of a check, or fails.
  \<open>ids\<close> names the reads. Model of the first half of \<open>rereadEvidence\<close>.
\<close>

type_synonym evidence_reader = "action \<Rightarrow> criterion_evidence \<Rightarrow> criterion_evidence option"

definition checked_criterion :: "goal \<Rightarrow> criterion_evidence \<Rightarrow> criterion" where
  "checked_criterion g old =
     (case first_such (\<lambda>c. c_id c = e_criterion old) (goalCriteria g) of
        None \<Rightarrow> zero_criterion | Some c \<Rightarrow> c)"

definition read_action :: "engine \<Rightarrow> string \<Rightarrow> goal \<Rightarrow> criterion_evidence \<Rightarrow> action" where
  "read_action e i g old =
     (let c = checked_criterion g old;
          a = zero_action\<lparr>a_id := ''evidence-read:'' @ i, a_goal_id := g_id g, a_kind := CheckCriterion,
                a_criterion_id := c_id c, a_check := Some (c_check c), a_revision := e_revision old,
                a_goal_revision := g_revision g, a_check_round := g_check_round g, a_epoch := en_epoch e\<rparr>
      in a\<lparr>a_input_version := Some (inputVersion (en_host e) g a)\<rparr>)"

definition still_holds :: "engine \<Rightarrow> evidence_reader \<Rightarrow> string \<Rightarrow> goal \<Rightarrow> criterion_evidence \<Rightarrow> bool" where
  "still_holds e reader i g old \<longleftrightarrow>
     (let c = checked_criterion g old
      in currentEvidence (en_host e) g c old \<and>
         (case reader (read_action e i g old) old of
            None \<Rightarrow> False
          | Some fresh \<Rightarrow>
              currentEvidence (en_host e) g c fresh \<and> e_passed fresh \<and>
              Matches (e_collected fresh) (c_check c) \<and> e_collected old = e_collected fresh))"

definition evidence_changed :: "engine \<Rightarrow> evidence_reader \<Rightarrow> (criterion_evidence \<Rightarrow> string) \<Rightarrow> goal \<Rightarrow> bool" where
  "evidence_changed e reader ids g \<longleftrightarrow>
     list_ex (\<lambda>old. e_passed old \<and> \<not> still_holds e reader (ids old) g old) (g_checks g)"

text \<open>The callback of \<open>rereadEvidence\<close>: the token fences a read against newer work.\<close>

definition reread_commit :: "engine \<Rightarrow> goal \<Rightarrow> bool \<Rightarrow> goal_view \<Rightarrow> goal_error + goal_view" where
  "reread_commit e g changed v =
     bind_result (load_hydrated e v (g_id g)) (\<lambda>current.
       if g_state current = GoalStopped \<or> evidenceToken current \<noteq> evidenceToken g then Inl ErrNoChange
       else if \<not> changed then Inr v
       else bind_result (retireEvidenceWaits (en_host e) (v, reopenEvidence current))
              (\<lambda>(v, current). put_goal current v))"

text \<open>Model of \<open>TargetChanged\<close>.\<close>

definition evidence_target :: "goal \<Rightarrow> string \<Rightarrow> bool" where
  "evidence_target g target \<longleftrightarrow>
     list_ex (\<lambda>c. ck_target (c_check c) = target) (goalCriteria g) \<or>
     list_ex (\<lambda>x. case e_collected x of
                    None \<Rightarrow> False
                  | Some ev \<Rightarrow> list_ex (\<lambda>r. er_target r = target) (ce_reads ev)) (g_checks g)"

definition target_goal :: "engine \<Rightarrow> string \<Rightarrow> goal \<Rightarrow> goal_view \<Rightarrow> goal_error + goal_view" where
  "target_goal e target g v =
     (if g_state g = GoalStopped then Inr v
      else bind_result (hydrate e g) (\<lambda>g.
        if \<not> evidence_target g target then Inr v
        else bind_result (retireEvidenceWaits (en_host e) (v, reopenEvidence g)) (\<lambda>(v, g). put_goal g v)))"

definition TargetChanged :: "engine \<Rightarrow> string \<Rightarrow> string \<Rightarrow> goal_view \<Rightarrow> goal_error + goal_view" where
  "TargetChanged e i target v =
     (if i = [] \<or> target = [] then Inl ErrInvalid
      else bind_result (snapshotView v) (\<lambda>s. fold_result (target_goal e target) (st_goals s) v))"

text \<open>
  One read per goal at a time. \<open>scheduleEvidence\<close> answers whether the goal's evidence was read
  again and held, for exactly the token the goal has now, and whether it starts a read.
\<close>

record flight =
  fl_token :: "int \<times> int \<times> criterion_evidence list"
  fl_running :: bool
  fl_current :: bool

type_synonym flights = "string \<rightharpoonup> flight"

definition scheduleEvidence :: "bool \<Rightarrow> bool \<Rightarrow> goal \<Rightarrow> flights \<Rightarrow> bool \<times> bool \<times> flights" where
  "scheduleEvidence alive refresh g m =
     (let begin = (False, True, m(g_id g \<mapsto> \<lparr>fl_token = evidenceToken g, fl_running = True, fl_current = False\<rparr>))
      in if \<not> alive then (False, False, m)
         else case m (g_id g) of
           None \<Rightarrow> begin
         | Some old \<Rightarrow>
             if fl_running old then (False, False, m)
             else if \<not> refresh \<and> fl_token old = evidenceToken g then (fl_current old, False, m)
             else begin)"

definition finish_read :: "string \<Rightarrow> bool \<Rightarrow> flights \<Rightarrow> flights" where
  "finish_read i held m =
     (case m i of None \<Rightarrow> m | Some fl \<Rightarrow> m(i \<mapsto> fl\<lparr>fl_running := False, fl_current := held\<rparr>))"

text \<open>Model of \<open>closingEvidence\<close> with a reader installed, and of \<open>RefreshEvidence\<close>.\<close>

definition closing_goal :: "bool \<Rightarrow> goal \<Rightarrow> token gomap \<times> flights \<Rightarrow> token gomap \<times> flights" where
  "closing_goal alive g vm =
     (case scheduleEvidence alive False g (snd vm) of
        (ok, _, m) \<Rightarrow> (if ok then mput (g_id g) (evidenceToken g) (fst vm) else fst vm, m))"

definition closingEvidence ::
  "engine \<Rightarrow> bool \<Rightarrow> flights \<Rightarrow> goal_view \<Rightarrow> goal_error + token gomap \<times> flights" where
  "closingEvidence e alive m v =
     bind_result (hydrated_snapshot e v) (\<lambda>s.
     bind_result (Derive (en_host e) s (en_now e)) (\<lambda>p.
       Inr (fold (closing_goal alive) (filter (\<lambda>g. has (pl_close p) (g_id g)) (st_goals s)) ([], m))))"

definition RefreshEvidence :: "engine \<Rightarrow> bool \<Rightarrow> flights \<Rightarrow> goal_view \<Rightarrow> goal_error + flights" where
  "RefreshEvidence e alive m v =
     bind_result (hydrated_snapshot e v) (\<lambda>s.
       Inr (fold (\<lambda>g m. snd (snd (scheduleEvidence alive True g m)))
              (filter (\<lambda>g. g_state g \<noteq> GoalStopped \<and> \<not> g_definition_pending g \<and> g_checks g \<noteq> []) (st_goals s)) m))"

section \<open>Marks of waits\<close>

text \<open>Model of the callbacks of \<open>dropClearTodo\<close> and \<open>markWait\<close>.\<close>

definition dropClearTodo :: "string \<Rightarrow> string \<Rightarrow> goal_view \<Rightarrow> goal_error + goal_view" where
  "dropClearTodo i todo v =
     bind_result (loadGoal v i) (\<lambda>g. bind_result (drop_clear_todo todo g) (\<lambda>g. put_goal g v))"

definition markWait :: "string \<Rightarrow> string \<Rightarrow> (wait \<Rightarrow> wait) \<Rightarrow> goal_view \<Rightarrow> goal_error + goal_view" where
  "markWait i wake mark v =
     bind_result (loadGoal v i) (\<lambda>g. bind_result (mark_wait wake mark g) (\<lambda>g. put_goal g v))"

text \<open>
  The adapter calls of \<open>syncWaits\<close> for one goal, in order: None for an adapter that is not
  installed, otherwise its answer; each accepted call is followed by its mark.
\<close>

datatype wait_mark = DropTodo string | ArmedMark string | LinkedMark string

definition clear_call :: "cleared_wait \<Rightarrow> wait" where
  "clear_call c = (plain_wait [] [] [] [] 0)\<lparr>w_todo_id := cw_todo_id c, w_who := cw_who c, w_since := cw_since c,
                            w_next_check := cw_next_check c\<rparr>"

definition sync_goal ::
  "(goal \<Rightarrow> wait \<Rightarrow> bool) option \<Rightarrow> (goal \<Rightarrow> wait \<Rightarrow> bool) option \<Rightarrow> int \<Rightarrow> goal \<Rightarrow> wait_mark list" where
  "sync_goal arm link now g =
     (case link of
        None \<Rightarrow> []
      | Some f \<Rightarrow>
          map (\<lambda>c. DropTodo (cw_todo_id c))
            (filter (\<lambda>c. (\<exists>w \<in> set (g_waits g). w_todo_id w \<noteq> [] \<and> w_todo_id w = cw_todo_id c) \<or> f g (clear_call c))
              (g_clear_todos g)))
     @ concat (map (\<lambda>w.
         (case arm of
            None \<Rightarrow> []
          | Some f \<Rightarrow> if \<not> w_armed w \<and> now < w_until w \<and> f g w then [ArmedMark (w_wake w)] else [])
         @ (case link of
              None \<Rightarrow> []
            | Some f \<Rightarrow> if w_todo_id w \<noteq> [] \<and> \<not> w_linked w \<and> f g w then [LinkedMark (w_wake w)] else []))
       (filter (\<lambda>w. w_recorded w \<and> namedWait w) (g_waits g)))"

fun apply_mark :: "string \<Rightarrow> wait_mark \<Rightarrow> goal_view \<Rightarrow> goal_error + goal_view" where
  "apply_mark i (DropTodo todo) v = dropClearTodo i todo v"
| "apply_mark i (ArmedMark wake) v = markWait i wake (\<lambda>w. w\<lparr>w_armed := True\<rparr>) v"
| "apply_mark i (LinkedMark wake) v = markWait i wake (\<lambda>w. w\<lparr>w_linked := True\<rparr>) v"

section \<open>Dispatch\<close>

text \<open>
  The driver is the installed adapter: it answers an observation, refuses for want of a
  person's authority, or fails. \<open>dispatch\<close> is the body of the goroutine of \<open>step\<close>, with the
  calls it makes on the driver.
\<close>

datatype driver_answer = Answered observation | PersonNeeded | DriverFailed

record driver =
  dr_authorize :: "action \<Rightarrow> driver_answer"
  dr_execute :: "action \<Rightarrow> driver_answer"
  dr_observe :: "action \<Rightarrow> driver_answer"

datatype driver_call = AuthorizeCall string | ExecuteCall string | ObserveCall string

datatype dispatched = ParkForAuthority | ReportOutcome observation

definition answered :: "bool \<Rightarrow> driver_answer \<Rightarrow> observation" where
  "answered started r =
     (case r of
        Answered ob \<Rightarrow> ob
      | PersonNeeded \<Rightarrow> zero_observation\<lparr>o_status := OutcomeNeedsPerson, o_effects_settled := \<not> started\<rparr>
      | DriverFailed \<Rightarrow> zero_observation\<lparr>o_status := OutcomeUnknown\<rparr>)"

definition dispatch :: "driver \<Rightarrow> bool \<Rightarrow> action \<Rightarrow> driver_call list \<times> dispatched" where
  "dispatch d observe a =
     (if observe \<or> a_observe_action_id a \<noteq> [] then
        let source = (if a_observe_action_id a \<noteq> [] then a\<lparr>a_id := a_observe_action_id a\<rparr> else a)
        in ([ObserveCall (a_id source)], ReportOutcome (answered True (dr_observe d source)))
      else case dr_authorize d a of
        Answered ob \<Rightarrow> ([AuthorizeCall (a_id a), ExecuteCall (a_id a)], ReportOutcome (answered True (dr_execute d a)))
      | PersonNeeded \<Rightarrow> ([AuthorizeCall (a_id a)], ParkForAuthority)
      | DriverFailed \<Rightarrow> ([AuthorizeCall (a_id a)], ReportOutcome (answered False DriverFailed)))"

end
