(* ===== verification/GoalLedger.thy ===== *)
theory GoalLedger
  imports GoalSafety GoalPlan GoalRefresh "HOL-Library.Multiset"
begin

text \<open>
  The engine over its journal: every callback changes the view by typed writes only, so each
  committed call keeps the records under their own keys and the journal replayable. The step
  relation \<open>engine_step\<close> is one committed call; its invariants discharge the hypotheses of the
  planner's theorems for every state the engine can reach.
\<close>

section \<open>Typed writes\<close>

inductive typed_put :: "goal_view \<Rightarrow> goal_view \<Rightarrow> bool" where
  goal: "put_goal g v = Inr w \<Longrightarrow> typed_put v w"
| action: "put_action a v = Inr w \<Longrightarrow> typed_put v w"
| node: "put_node n v = Inr w \<Longrightarrow> typed_put v w"
| limit: "put_limit p l v = Inr w \<Longrightarrow> typed_put v w"

abbreviation writes :: "goal_view \<Rightarrow> goal_view \<Rightarrow> bool" where
  "writes \<equiv> typed_put\<^sup>*\<^sup>*"

lemmas writes_goal = r_into_rtranclp [where r = typed_put, OF typed_put.goal]
lemmas writes_action = r_into_rtranclp [where r = typed_put, OF typed_put.action]
lemmas writes_node = r_into_rtranclp [where r = typed_put, OF typed_put.node]
lemmas writes_limit = r_into_rtranclp [where r = typed_put, OF typed_put.limit]
lemmas writes_put = writes_goal writes_action writes_node writes_limit

lemma writes_after:
  "\<lbrakk>put_goal g u = Inr w; writes v u\<rbrakk> \<Longrightarrow> writes v w"
  "\<lbrakk>put_action a u = Inr w; writes v u\<rbrakk> \<Longrightarrow> writes v w"
  "\<lbrakk>put_node n u = Inr w; writes v u\<rbrakk> \<Longrightarrow> writes v w"
  by (auto intro: rtranclp.rtrancl_into_rtrancl typed_put.intros)

lemma writes_fold:
  assumes "\<And>x y z. f x y = Inr z \<Longrightarrow> writes (pr y) (pr z)" and "fold_result f xs y = Inr z"
  shows "writes (pr y) (pr z)"
  using assms(2)
proof (induction xs arbitrary: y)
  case (Cons x xs)
  then obtain u where "f x y = Inr u" "fold_result f xs u = Inr z" by (auto simp: bind_result_eq_Inr)
  with Cons.IH assms(1) show ?case by (blast intro: rtranclp_trans)
qed simp

lemma writes_fold_view:
  "\<lbrakk>\<And>x y z. f x y = Inr z \<Longrightarrow> writes y z; fold_result f xs y = Inr z\<rbrakk> \<Longrightarrow> writes y z"
  using writes_fold [where pr = "\<lambda>v. v"] by blast

lemma over_actions_writes:
  assumes "over_actions body (v, g) = Inr (w, g')"
  shows "writes v w"
proof -
  from assms obtain as where "fold_result (\<lambda>a (v, g). case body a g of None \<Rightarrow> Inr (v, g)
      | Some (b, g') \<Rightarrow> bind_result (put_action b v) (\<lambda>v. Inr (v, g'))) as (v, g) = Inr (w, g')"
    by (auto simp: over_actions_def bind_result_eq_Inr)
  then have "writes (fst (v, g)) (fst (w, g'))"
    by (rule writes_fold [rotated])
      (auto simp: bind_result_eq_Inr intro: writes_action split: option.splits prod.splits)
  then show ?thesis by simp
qed

lemmas retire_writes =
  over_actions_writes [where body = undispatched_body, folded retireUndispatchedActions_def]
  over_actions_writes [where body = "evidence_body h" for h, folded retireEvidenceWaits_def]
  over_actions_writes [where body = "stopped_body now" for now, folded retireStoppedActions_def]
  over_actions_writes [where body = "revised_body now" for now, folded retireRevisedActions_def]

section \<open>The callbacks only write\<close>

lemma Let_ex: "Let t f = r \<Longrightarrow> \<exists>x. f x = r"
  by auto

lemma reconcile_retired_writes:
  assumes "reconcile_retired e a v = Inr w"
  shows "writes v w"
proof (cases "a_state a \<noteq> Queued \<and> \<not> needs_retirement a")
  case True
  with assms show ?thesis by (simp add: reconcile_retired_def Let_def)
next
  case False
  from Let_ex [OF assms [unfolded reconcile_retired_def]] False obtain h g where
    "(let a = (if a_state a = Queued \<and>
                  (changedInputs h g a \<or> a_observe_action_id a = [] \<and> \<not> currentActionTarget h g a)
               then a\<lparr>a_state := Finished, a_superseded := True\<rparr> else a)
      in if \<not> needs_retirement a then Inr v
         else let undispatched = (a_epoch a = 0 \<and> a_observe_action_id a = [] \<or> settledRefusal a);
                  reread = (\<not> undispatched \<and> hasExternalEffect a \<and>
                    (currentActionTarget h g a \<or> \<not> effectSettled a (receipt_of a)));
                  g' = clear_repair_asked a (if undispatched then restoreDeniedAssignment a g else g)
              in bind_result
                   (if reread then put_action (replacement_read h g a (receipt_of a)) v else Inr v)
                   (\<lambda>v. bind_result (put_action (a\<lparr>a_retirement_reconciled := True\<rparr>) v) (put_goal g'))) = Inr w"
    by (simp only: bind_result_eq_Inr if_False) blast
  then obtain b where "(if \<not> needs_retirement b then Inr v
         else let undispatched = (a_epoch b = 0 \<and> a_observe_action_id b = [] \<or> settledRefusal b);
                  reread = (\<not> undispatched \<and> hasExternalEffect b \<and>
                    (currentActionTarget h g b \<or> \<not> effectSettled b (receipt_of b)));
                  g' = clear_repair_asked b (if undispatched then restoreDeniedAssignment b g else g)
              in bind_result
                   (if reread then put_action (replacement_read h g b (receipt_of b)) v else Inr v)
                   (\<lambda>v. bind_result (put_action (b\<lparr>a_retirement_reconciled := True\<rparr>) v) (put_goal g'))) = Inr w"
    by (drule_tac Let_ex) blast
  then show ?thesis
    by (auto simp: Let_def bind_result_eq_Inr split: if_split_asm) (blast intro: writes_after)+
qed

lemma reconcileRetired_writes: "reconcileRetired e v = Inr w \<Longrightarrow> writes v w"
  by (auto simp: reconcileRetired_def bind_result_eq_Inr intro: writes_fold_view [OF reconcile_retired_writes])

lemma commit_action_writes: "commit_action h olds a vg = Inr wg \<Longrightarrow> writes (fst vg) (fst wg)"
  by (auto simp: commit_action_def Let_def bind_result_eq_Inr intro: writes_action)

lemma project_goal_writes: "project_goal h p tokens g v = Inr w \<Longrightarrow> writes v w"
  by (auto simp: project_goal_def Let_def bind_result_eq_Inr intro: writes_goal split: if_splits)

lemma project_limit_writes: "project_limit s pl v = Inr w \<Longrightarrow> writes v w"
  by (auto simp: project_limit_def Let_def intro: writes_limit split: prod.splits)

lemma Reconcile_cases:
  assumes "Reconcile e tokens v = Inr w"
  obtains v1 s p v2 gs v3 where "reconcileRetired e v = Inr v1" "hydrated_snapshot e v1 = Inr s"
    "Derive (en_host e) s (en_now e) = Inr p"
    "fold_result (commit_action (en_host e) (st_actions s)) (pl_actions p) (v1, st_goals s) = Inr (v2, gs)"
    "fold_result (project_goal (en_host e) p tokens) gs v2 = Inr v3"
    "fold_result (project_limit s) (pl_run_limits p) v3 = Inr w"
  using assms by (auto simp: Reconcile_def Let_def bind_result_eq_Inr split: if_splits)

lemma Reconcile_writes: "Reconcile e tokens v = Inr w \<Longrightarrow> writes v w"
proof (erule Reconcile_cases)
  fix v1 s p v2 gs v3
  assume "reconcileRetired e v = Inr v1"
    and c: "fold_result (commit_action (en_host e) (st_actions s)) (pl_actions p) (v1, st_goals s) = Inr (v2, gs)"
    and g: "fold_result (project_goal (en_host e) p tokens) gs v2 = Inr v3"
    and l: "fold_result (project_limit s) (pl_run_limits p) v3 = Inr w"
  then have "writes v v1" by (simp add: reconcileRetired_writes)
  also have "writes v1 v2" using writes_fold [where pr = fst, OF commit_action_writes c] by simp
  also have "writes v2 v3" by (rule writes_fold_view [OF project_goal_writes g])
  also have "writes v3 w" by (rule writes_fold_view [OF project_limit_writes l])
  finally show ?thesis .
qed

lemma Admit_writes: "Admit e prose prepare g v = Inr w \<Longrightarrow> writes v w"
  by (auto simp: Admit_def Let_def bind_result_eq_Inr intro: writes_goal split: if_splits)

lemma NodeChanged_writes: "NodeChanged e n v = Inr w \<Longrightarrow> writes v w"
  by (auto simp: NodeChanged_def bind_result_eq_Inr intro: writes_node split: if_splits option.splits)

lemma SetRunLimit_writes: "SetRunLimit person l v = Inr (w, r) \<Longrightarrow> writes v w"
  by (auto simp: SetRunLimit_def Let_def bind_result_eq_Inr intro: writes_limit split: if_splits option.splits)

lemma put_goals_writes: "fold_result put_goal gs v = Inr w \<Longrightarrow> writes v w"
  by (rule writes_fold_view) (rule writes_goal)

lemma normalizeRanks_writes: "normalizeRanks person v = Inr (w, gs) \<Longrightarrow> writes v w"
  by (auto simp: normalizeRanks_def Let_def bind_result_eq_Inr intro: put_goals_writes)

lemma swapRank_writes: "swapRank ordered i down v = Inr (w, moved) \<Longrightarrow> writes v w"
  by (auto simp: swapRank_def Let_def bind_result_eq_Inr intro: writes_after
      split: option.splits if_splits)

lemma ranks_after:
  "\<lbrakk>swapRank ordered i down u = Inr (w, moved); normalizeRanks person v = Inr (u, gs)\<rbrakk> \<Longrightarrow> writes v w"
  using rtranclp_trans [OF normalizeRanks_writes swapRank_writes] .

lemma Command_writes:
  assumes "Command goalID person c instant v = Inr (w, g)"
  shows "writes v w"
proof (cases c)
  case StopGoal
  with assms show ?thesis
    by (auto simp: Command_def bind_result_eq_Inr intro: writes_after retire_writes
        split: option.splits if_splits)
qed (use assms in \<open>auto simp: Command_def bind_result_eq_Inr
      intro: writes_after ranks_after
      split: option.splits if_splits\<close>)

lemma applyWaitSignal_writes: "applyWaitSignal e s v = Inr w \<Longrightarrow> writes v w"
proof -
  assume "applyWaitSignal e s v = Inr w"
  then obtain g as u bs ws ch where f: "fold_result (signal_wait e g s) (g_waits g) (v, as, [], False) = Inr (u, bs, ws, ch)"
    and p: "put_goal (g\<lparr>g_waits := ws\<rparr>) u = Inr w"
    by (auto simp: applyWaitSignal_def bind_result_eq_Inr split: if_splits)
  have "writes (fst (v, as, [] :: wait list, False)) (fst (u, bs, ws, ch))"
    by (rule writes_fold [OF _ f])
      (auto simp: signal_wait_def Let_def bind_result_eq_Inr intro: writes_action split: prod.splits if_splits)
  with p show ?thesis by (auto intro: writes_after)
qed

lemma signal_task_writes:
  assumes "signal_task e goalID taskID digest v = Inr w"
  shows "writes v w"
proof -
  from assms obtain g t where "load_hydrated e v goalID = Inr g" and t: "goalTask g taskID = Some t"
    by (auto simp: signal_task_def bind_result_eq_Inr split: option.splits)
  with assms show ?thesis
    by (cases "goal_final g")
      (auto simp: signal_task_def Let_def bind_result_eq_Inr intro: writes_after over_actions_writes)
qed

lemma Signal_writes: "Signal e digest s v = Inr w \<Longrightarrow> writes v w"
  by (auto simp: Signal_def Let_def bind_result_eq_Inr
      intro: writes_action signal_task_writes applyWaitSignal_writes split: if_splits)

lemma awaitAuthorization_writes:
  assumes "awaitAuthorization e claimed v = Inr w"
  shows "writes v w"
proof -
  from assms obtain a g where ag: "loadAction v (a_id claimed) = Inr a" "load_hydrated e v (a_goal_id a) = Inr g"
    "\<not> (a_state a \<noteq> Claimed \<or> a_epoch a \<noteq> en_epoch e)"
    by (auto simp: awaitAuthorization_def bind_result_eq_Inr split: if_split_asm)
  show ?thesis
  proof (cases "g_state g = GoalStopped")
    case True
    with assms ag show ?thesis
      by (auto simp: awaitAuthorization_def bind_result_eq_Inr intro: writes_after)
  next
    case False
    with assms ag have "\<exists>b. bind_result (put_action b v) (\<lambda>v.
        bind_result (retireEvidenceWaits (en_host e) (v, g)) (\<lambda>(v, g).
        bind_result (retireUndispatchedActions (v, g)) (\<lambda>(v, g). put_goal g v))) = Inr w"
      by (simp add: awaitAuthorization_def Let_def) blast
    then obtain b u1 u2 g2 u3 g3 where u: "put_action b v = Inr u1" "retireEvidenceWaits (en_host e) (u1, g) = Inr (u2, g2)"
      "retireUndispatchedActions (u2, g2) = Inr (u3, g3)" "put_goal g3 u3 = Inr w"
      by (auto simp: bind_result_eq_Inr)
    have "writes v u1" by (rule writes_action [OF u(1)])
    also have "writes u1 u2" using u(2) by (rule retire_writes)
    also have "writes u2 u3" using u(3) by (rule retire_writes)
    also have "writes u3 w" by (rule writes_goal [OF u(4)])
    finally show ?thesis .
  qed
qed

lemma lift_engine_Inr [simp]: "lift_engine r = Inr x \<longleftrightarrow> r = Inr x"
  by (cases r) (auto simp: lift_engine_def)

lemma SubmitStepGraph_writes:
  "SubmitStepGraph e i person agent conversation expected steps v = Inr (w, sg) \<Longrightarrow> writes v w"
  unfolding SubmitStepGraph_def
  by (auto simp: Let_def bind_result_eq_Inr intro: writes_after retire_writes
      split: sum.splits if_split_asm option.splits)

text \<open>The callbacks of theory \<open>GoalRefresh\<close>.\<close>

lemma retire_then_put:
  "\<lbrakk>put_goal g' u = Inr w; retireEvidenceWaits h (v, g) = Inr (u, g'')\<rbrakk> \<Longrightarrow> writes v w"
  using writes_after(1) retire_writes(2) by blast

lemma RefreshDefinition_writes:
  assumes "RefreshDefinition e d version g v = Inr w"
  shows "writes v w"
proof -
  from assms obtain c u1 g1 u2 g2 where u: "retireUndispatchedActions (v, c) = Inr (u1, g1)"
    "retireRevisedActions (en_now e) (u1, g1) = Inr (u2, g2)" "put_goal g2 u2 = Inr w"
    by (auto simp: RefreshDefinition_def Let_def bind_result_eq_Inr split: if_split_asm)
  have "writes v u1" using u(1) by (rule retire_writes)
  also have "writes u1 u2" using u(2) by (rule retire_writes)
  also have "writes u2 w" by (rule writes_goal [OF u(3)])
  finally show ?thesis .
qed

lemma reread_commit_writes: "reread_commit e g changed v = Inr w \<Longrightarrow> writes v w"
  by (auto simp: reread_commit_def bind_result_eq_Inr intro: retire_then_put split: if_split_asm)

lemma TargetChanged_writes: "TargetChanged e i target v = Inr w \<Longrightarrow> writes v w"
  by (auto simp: TargetChanged_def target_goal_def bind_result_eq_Inr split: if_split_asm
      intro: retire_then_put elim!: writes_fold_view [rotated])

lemma apply_mark_writes: "apply_mark i m v = Inr w \<Longrightarrow> writes v w"
  by (cases m) (auto simp: dropClearTodo_def markWait_def bind_result_eq_Inr intro: writes_goal)

section \<open>Records under their own keys\<close>

text \<open>
  A record carries the kind and the id of its body, and a goal is stored without the fields
  of its canonical definition.
\<close>

fun own_key :: "body \<Rightarrow> string \<Rightarrow> string \<Rightarrow> bool" where
  "own_key (GoalBody g) k i \<longleftrightarrow> k = ''goal'' \<and> i = g_id g \<and> stored g = g"
| "own_key (ActionBody a) k i \<longleftrightarrow> k = ''action'' \<and> i = a_id a"
| "own_key (NodeBody n) k i \<longleftrightarrow> k = ''node'' \<and> i = n_id n"
| "own_key (LimitBody l) k i \<longleftrightarrow> k = ''limit''"

definition own_record :: "string \<Rightarrow> body jrecord \<Rightarrow> bool" where
  "own_record k r \<longleftrightarrow>
     validKey (jr_kind r) (jr_id r) \<and> k = key (jr_kind r) (jr_id r) \<and> own_key (jr_body r) (jr_kind r) (jr_id r)"

definition own_records :: "body jrecord gomap \<Rightarrow> bool" where
  "own_records m \<longleftrightarrow> sorted_map m \<and> (\<forall>(k, r) \<in> set m. own_record k r)"

lemma stored_stored [simp]: "stored (stored g) = stored g"
  by (simp add: stored_def)

lemma own_records_mput:
  assumes "own_records m" and "own_record k r"
  shows "own_records (mput k r m)"
proof -
  have s: "sorted_map m" using assms(1) by (simp add: own_records_def)
  have "\<forall>(k', r') \<in> set (mput k r m). own_record k' r'"
    using set_mput [OF s, of k r] assms by (auto simp: own_records_def)
  with sorted_map_mput [OF s] show ?thesis by (simp add: own_records_def)
qed

lemma put_body_own:
  assumes "put_body k i b v = Inr w" and "own_records (vw_records v)" and "own_key b k i"
  shows "own_records (vw_records w)"
  using Put_cases [OF assms(1) [unfolded put_body_def]] assms(2,3)
  by (auto simp: own_record_def intro!: own_records_mput)

lemma writes_own:
  assumes "writes v w" and "own_records (vw_records v)"
  shows "own_records (vw_records w)"
  using assms
proof (induction rule: rtranclp_induct)
  case (step u w)
  from step(2) step.IH [OF step.prems] show ?case
    by (cases rule: typed_put.cases)
      (auto simp: put_goal_def put_action_def put_node_def put_limit_def intro: put_body_own)
qed simp

lemma writes_puts: "writes v w \<Longrightarrow> puts (\<lambda>_. True) v w"
proof (induction rule: rtranclp_induct)
  case (step u w)
  from step(2,3) show ?case
    by (cases rule: typed_put.cases)
      (auto simp: put_goal_def put_action_def put_node_def put_limit_def put_body_def intro: puts.more)
qed (rule puts.none)

text \<open>What a view of own records gives the readers.\<close>

lemma own_get:
  assumes "own_records (vw_records v)" and "Get v k i = Some r" and "CHR 0x00 \<notin> set k"
  shows "jr_kind r = k \<and> jr_id r = i \<and> own_key (jr_body r) k i"
proof -
  from assms have "own_record (key k i) r"
    by (auto simp: Get_def own_records_def dest!: map_of_SomeD)
  then have "validKey (jr_kind r) (jr_id r)" "key k i = key (jr_kind r) (jr_id r)"
    "own_key (jr_body r) (jr_kind r) (jr_id r)" by (auto simp: own_record_def)
  with key_inject [OF assms(3) validKey_no_nul] show ?thesis by auto
qed

lemma own_loads:
  assumes "own_records (vw_records v)"
  shows "keyed_actions v" and "keyed_goals v"
  using own_get [OF assms]
  by (fastforce simp: keyed_actions_def keyed_goals_def loadAction_iff loadGoal_iff get_body_def)+

lemma records_ids:
  assumes "own_records (vw_records v)"
  shows "distinct (map jr_id (Records v k))" and "r \<in> set (Records v k) \<Longrightarrow> own_key (jr_body r) k (jr_id r) \<and> jr_id r \<noteq> []"
proof -
  let ?m = "vw_records v"
  have own: "own_record (fst x) (snd x)" if "x \<in> set ?m" for x
    using assms that by (auto simp: own_records_def)
  have dist: "distinct (map fst ?m)" using assms by (simp add: own_records_def sorted_map_distinct)
  have "inj_on (\<lambda>x. jr_id (snd x)) {x \<in> set ?m. jr_kind (snd x) = k}"
    using own dist by (auto simp: inj_on_def own_record_def distinct_map) 
  then have "distinct (map (\<lambda>x. jr_id (snd x)) (filter (\<lambda>x. jr_kind (snd x) = k) ?m))"
    using dist by (simp add: distinct_map)
  moreover have "mset (map jr_id (Records v k)) =
      mset (map (\<lambda>x. jr_id (snd x)) (filter (\<lambda>x. jr_kind (snd x) = k) ?m))"
    by (simp add: Records_def filter_map o_def image_mset.compositionality)
  ultimately show "distinct (map jr_id (Records v k))"
    using mset_eq_imp_distinct_iff by blast
  show "own_key (jr_body r) k (jr_id r) \<and> jr_id r \<noteq> []" if "r \<in> set (Records v k)"
    using that own by (fastforce simp: Records_def own_record_def validKey_def dest: not_blank_nonempty)
qed

section \<open>Claims and reports write\<close>

lemma Claim_writes:
  assumes "Claim e i v = Inr (w, out)" and "own_records (vw_records v)"
  shows "writes v w"
  using assms(1)
proof (rule Claim_cases)
  fix a g
  assume a: "loadAction v i = Inr a"
    and c: "(out = Some (claim_action e g a) \<and> put_body ''action'' i (ActionBody (claim_action e g a)) v = Inr w \<and>
        (reserves a \<and> a_observe_action_id a = [] \<longrightarrow>
           (\<exists>s t. snapshotView v = Inr s \<and> goalTask g (a_task_id a) = Some t \<and> claim_eligible s g t a (en_now e)))) \<or>
     (out = None \<and> reserves a \<and> a_observe_action_id a = [] \<and>
        (\<exists>u. put_action (finish a) v = Inr u \<and> put_goal (restoreUndispatchedTask a g) u = Inr w))"
  from own_loads(1) [OF assms(2)] a have "a_id a = i" by (auto simp: keyed_actions_def)
  then have "put_body ''action'' i (ActionBody (claim_action e g a)) v = put_action (claim_action e g a) v"
    by (simp add: put_action_def)
  with c show ?thesis by (auto intro: writes_after)
qed

lemma outcome_writes:
  assumes "report_outcome e v g t a ob = Inr (Inr (w, g', b))"
  shows "writes v w"
proof (cases "o_status ob")
  case OutcomeQuota
  with assms show ?thesis
    by (auto simp: report_outcome_def report_quota_def bind_result_eq_Inr intro: writes_node
        split: option.splits if_splits)
next
  case OutcomeSucceeded
  with assms show ?thesis
    by (auto simp: report_outcome_def report_succeeded_def Let_def bind_result_eq_Inr intro: over_actions_writes
        split: if_splits)
qed (use assms in \<open>auto simp: report_outcome_def Let_def bind_result_eq_Inr split: if_splits\<close>)

lemma settle_report_writes:
  assumes "settle_report e v g a ob = Inr w"
  shows "writes v w"
proof -
  from assms obtain r where r: "report_outcome e v g (goalTask g (a_task_id a)) a ob = Inr r"
    and rest: "(case r of
          Inl held \<Rightarrow> put_action held v
        | Inr (v, g', a) \<Rightarrow>
            bind_result (if g_revision g' \<noteq> g_revision g then retireUndispatchedActions (v, g') else Inr (v, g'))
              (\<lambda>(v, g'). bind_result (put_goal g' v) (put_action a))) = Inr w"
    by (auto simp: settle_report_def bind_result_eq_Inr)
  show ?thesis
  proof (cases r)
    case (Inl held)
    with rest show ?thesis by (auto intro: writes_after)
  next
    case (Inr x)
    then obtain u g' b where x: "r = Inr (u, g', b)" by (cases x) auto
    with r have "writes v u" by (auto dest: outcome_writes)
    moreover have "writes u w"
      using rest x
      by (auto simp: bind_result_eq_Inr split: if_split_asm) (blast intro: writes_after retire_writes)+
    ultimately show ?thesis by (rule rtranclp_trans)
  qed
qed

lemma report_writes: "report e i ob v = Inr w \<Longrightarrow> writes v w"
  by (erule report_cases, elim disjE conjE)
    (auto simp: bind_result_eq_Inr intro: settle_report_writes elim!: retire_reported_cases
      split: if_split_asm, (blast intro: writes_after)+)

lemma Report_writes: "Report e i epoch ob v = Inr w \<Longrightarrow> writes v w"
  by (auto simp: Report_def intro: report_writes split: if_splits sum.splits goal_error.splits)

section \<open>The ledger\<close>

text \<open>
  The callbacks of the engine's journal updates. The callback of \<open>SubmitStepGraph\<close> has error
  values of its own; its no-change answer and its faults leave the journal as it was.
\<close>

datatype engine_call =
    CallReconcile "(string \<Rightarrow> token option) option"
  | CallAdmit "goal \<Rightarrow> bool" "goal \<Rightarrow> goal_error + goal" goal
  | CallNodeChanged node
  | CallCommand string string command int
  | CallSetRunLimit string run_limit
  | CallSignal string signal
  | CallSubmit string string string string int "step list"
  | CallClaim string
  | CallReport string int observation
  | CallAwait action
  | CallRefresh goal_definition string goal
  | CallReread goal bool
  | CallTargetChanged string string
  | CallMark string wait_mark

fun callback :: "engine \<Rightarrow> engine_call \<Rightarrow> goal_view \<Rightarrow> goal_error + goal_view" where
  "callback e (CallReconcile tokens) v = Reconcile e tokens v"
| "callback e (CallAdmit prose prepare g) v = Admit e prose prepare g v"
| "callback e (CallNodeChanged n) v = NodeChanged e n v"
| "callback e (CallCommand i person c now) v = bind_result (Command i person c now v) (\<lambda>(w, _). Inr w)"
| "callback e (CallSetRunLimit person l) v = bind_result (SetRunLimit person l v) (\<lambda>(w, _). Inr w)"
| "callback e (CallSignal digest s) v = Signal e digest s v"
| "callback e (CallSubmit i person agent conv expected steps) v =
     (case SubmitStepGraph e i person agent conv expected steps v of
        Inl _ \<Rightarrow> Inl ErrInvalid | Inr (w, _) \<Rightarrow> Inr w)"
| "callback e (CallClaim i) v = bind_result (Claim e i v) (\<lambda>(w, _). Inr w)"
| "callback e (CallReport i epoch ob) v = Report e i epoch ob v"
| "callback e (CallAwait a) v = awaitAuthorization e a v"
| "callback e (CallRefresh d version g) v = RefreshDefinition e d version g v"
| "callback e (CallReread g changed) v = reread_commit e g changed v"
| "callback e (CallTargetChanged i target) v = TargetChanged e i target v"
| "callback e (CallMark i m) v = apply_mark i m v"

lemma callback_writes:
  assumes "callback e c v = Inr w" and "own_records (vw_records v)"
  shows "writes v w"
  using assms
  by (cases c)
    (auto simp: bind_result_eq_Inr split: sum.splits prod.splits
      intro: Reconcile_writes Admit_writes NodeChanged_writes Command_writes SetRunLimit_writes
        Signal_writes SubmitStepGraph_writes Claim_writes Report_writes awaitAuthorization_writes
        RefreshDefinition_writes reread_commit_writes TargetChanged_writes apply_mark_writes)

text \<open>One committed call: any engine value, so any epoch and any instant, may make it.\<close>

inductive engine_step :: "body db \<Rightarrow> body db \<Rightarrow> bool" where
  commit: "Update stamp ev (\<lambda>v. bind_result (callback e c v) (\<lambda>w. Inr (w, ()))) db = Inr (out, db') \<Longrightarrow>
             engine_step db db'"

inductive_cases engine_stepE: "engine_step db db'"

definition empty_db :: "body db" where
  "empty_db = \<lparr>db_events = [], db_records = []\<rparr>"

definition ledger_ok :: "body db \<Rightarrow> bool" where
  "ledger_ok db \<longleftrightarrow> journal_ok (\<lambda>_. True) db \<and> own_records (db_records db)"

lemma engine_step_ok:
  assumes "engine_step db db'" and "ledger_ok db"
  shows "ledger_ok db'"
  using assms(1)
proof (rule engine_stepE)
  fix stamp ev e c out
  let ?apply = "\<lambda>v. bind_result (callback e c v) (\<lambda>w. Inr (w, ()))"
  assume u: "Update stamp ev ?apply db = Inr (out, db')"
  have own: "own_records (vw_records (readView db))"
    using assms(2) by (simp add: ledger_ok_def readView_def)
  from Update_cases [OF u] show ?thesis
  proof (elim disjE exE conjE)
    assume "db' = db"
    then show ?thesis using assms(2) by simp
  next
    fix v r
    assume "?apply (readView db) = Inr (v, r)"
      and db': "db' = commit_entry stamp (ev\<lparr>tr_recorded_at := []\<rparr>) v db"
    then have w: "writes (readView db) v" by (auto simp: bind_result_eq_Inr intro: callback_writes own)
    have ok: "view_ok (\<lambda>_. True) (db_records db) v"
      by (rule puts_view_ok [OF writes_puts [OF w] view_ok_start])
    have dist: "distinct (map fst (vw_changes v))"
      using ok by (simp add: view_ok_def sorted_map_distinct)
    have ch: "own_record (key (jr_kind r) (jr_id r)) r" if "r \<in> snd ` set (vw_changes v)" for r
    proof -
      from that obtain k where k: "(k, r) \<in> set (vw_changes v)" by auto
      with ok have eq: "k = key (jr_kind r) (jr_id r)" by (auto simp: view_ok_def change_ok_def)
      from k dist ok have "map_of (vw_records v) k = Some r" by (simp add: view_ok_def)
      from map_of_SomeD [OF this] writes_own [OF w own] show ?thesis
        unfolding eq own_records_def by auto
    qed
    have "own_records (fold putRecord rs m)" if "set rs \<subseteq> snd ` set (vw_changes v)" "own_records m" for rs m
      using that
    proof (induction rs arbitrary: m)
      case (Cons r rs)
      then have "own_records (putRecord r m)" using ch by (simp add: putRecord_def own_records_mput)
      with Cons show ?case by simp
    qed simp
    then have "own_records (db_records db')"
      using assms(2) by (simp add: db' commit_entry_def Let_def ledger_ok_def)
    moreover have "journal_ok (\<lambda>_. True) db'"
      using Update_view_ok [OF assms(2) [unfolded ledger_ok_def, THEN conjunct1] ok] by (simp add: db')
    ultimately show ?thesis by (simp add: ledger_ok_def)
  qed
qed

text \<open>The states the engine can reach from an empty journal.\<close>

abbreviation reachable :: "body db \<Rightarrow> bool" where
  "reachable db \<equiv> engine_step\<^sup>*\<^sup>* empty_db db"

lemma reachable_ok: "reachable db \<Longrightarrow> ledger_ok db"
proof (induction rule: rtranclp_induct)
  case base
  show ?case by (simp add: ledger_ok_def empty_db_def journal_ok_def own_records_def sorted_map_def)
qed (rule engine_step_ok)

section \<open>What the planner reads\<close>

lemma as_goal_Inr [simp]: "as_goal b = Inr g \<longleftrightarrow> b = GoalBody g" by (cases b) auto
lemma as_node_Inr [simp]: "as_node b = Inr n \<longleftrightarrow> b = NodeBody n" by (cases b) auto
lemma as_action_Inr [simp]: "as_action b = Inr a \<longleftrightarrow> b = ActionBody a" by (cases b) auto

lemma map_result_ids:
  assumes "map_result f xs = Inr ys" and "\<And>x y. x \<in> set xs \<Longrightarrow> f x = Inr y \<Longrightarrow> k y = j x"
  shows "map k ys = map j xs"
  using assms by (auto simp: map_result_Inr list_eq_iff_nth_eq)

lemma snapshot_keyed:
  assumes "snapshotView v = Inr s" and "own_records (vw_records v)"
  shows "keyed_state s" and "distinct (map a_id (st_actions s))"
proof -
  from assms(1) have g: "goalsOf v = Inr (st_goals s)" and n: "nodesOf v = Inr (st_nodes s)"
    and a: "actionsOf v = Inr (st_actions s)"
    by (auto simp: snapshotView_def bind_result_eq_Inr)
  have "map g_id (st_goals s) = map jr_id (Records v ''goal'')"
    using records_ids(2) [OF assms(2), of _ "''goal''"]
    by (intro map_result_ids [OF g [unfolded goalsOf_def]]) fastforce
  moreover have "map n_id (st_nodes s) = map jr_id (Records v ''node'')"
    using records_ids(2) [OF assms(2), of _ "''node''"]
    by (intro map_result_ids [OF n [unfolded nodesOf_def]]) fastforce
  moreover have "map a_id (st_actions s) = map jr_id (Records v ''action'')"
    using records_ids(2) [OF assms(2), of _ "''action''"]
    by (intro map_result_ids [OF a [unfolded actionsOf_def]]) fastforce
  moreover have "[] \<notin> set (map jr_id (Records v ''goal''))"
    using records_ids(2) [OF assms(2)] by fastforce
  ultimately show "keyed_state s" "distinct (map a_id (st_actions s))"
    using records_ids(1) [OF assms(2)] by (simp_all add: keyed_state_def del: set_map)
qed

lemma hydrated_keyed:
  assumes "hydrated_snapshot e v = Inr s" and "own_records (vw_records v)"
  shows "keyed_state s" and "distinct (map a_id (st_actions s))"
proof -
  from assms(1) obtain s0 gs where s0: "snapshotView v = Inr s0" "map_result (hydrate e) (st_goals s0) = Inr gs"
    "s = s0\<lparr>st_goals := gs\<rparr>"
    by (auto simp: hydrated_snapshot_def bind_result_eq_Inr)
  have "map g_id gs = map g_id (st_goals s0)"
    by (rule map_result_ids [OF s0(2)]) (simp add: hydrate_frame(1))
  then show "keyed_state s" "distinct (map a_id (st_actions s))"
    using snapshot_keyed [OF s0(1) assms(2)] by (simp_all add: s0(3) keyed_state_def)
qed

text \<open>Every pass of a reachable ledger plans over a keyed state.\<close>

lemma Reconcile_plan:
  assumes "Reconcile e tokens v = Inr w" and "own_records (vw_records v)"
  obtains s p where "Derive (en_host e) s (en_now e) = Inr p" "keyed_state s"
    "distinct (map a_id (st_actions s))"
  using assms(1)
proof (rule Reconcile_cases)
  fix v1 s p
  assume "reconcileRetired e v = Inr v1" and s: "hydrated_snapshot e v1 = Inr s"
    and p: "Derive (en_host e) s (en_now e) = Inr p"
  then have "own_records (vw_records v1)" using writes_own reconcileRetired_writes assms(2) by blast
  from hydrated_keyed [OF s this] p show thesis by (rule that [rotated])
qed

end
