(* ===== verification/GoalCommands.thy ===== *)
theory GoalCommands
  imports GoalLedger
begin

text \<open>
  What the writers promise beside the ledger invariant: fresh effect keys, honest criterion
  evidence, quota rows that survive a host report, dense ranks, and what a stop and a
  retirement leave behind.
\<close>

section \<open>Effect keys\<close>

text \<open>
  A kind read from the journal is one of the constants, or its text is none of theirs. On such
  kinds equal texts are equal kinds.
\<close>

definition known_kinds :: "action_kind list" where
  "known_kinds = [Assign, Resume, InspectPR, Merge, RunQA, RepairConflict, RepairQA, Deploy, Verify, Observe,
     Decide, PlanGoal, ReadSource, CheckCriterion, ContinueWorker]"

definition proper_kind :: "action_kind \<Rightarrow> bool" where
  "proper_kind k \<longleftrightarrow> k \<in> set known_kinds \<or> kind_text k \<notin> kind_text ` set known_kinds"

lemma proper_kind_text:
  assumes "proper_kind k" and "proper_kind k'" and "kind_text k = kind_text k'"
  shows "k = k'"
proof (cases "k \<in> set known_kinds")
  case True
  then have "kind_text k' \<in> kind_text ` set known_kinds" using assms(3) by (metis imageI)
  then have "k' \<in> set known_kinds" using assms(2) by (simp add: proper_kind_def)
  moreover have "distinct (map kind_text known_kinds)" by (simp add: known_kinds_def)
  ultimately show ?thesis using True assms(3) by (auto simp: distinct_map inj_on_def)
next
  case False
  then have "kind_text k' \<notin> kind_text ` set known_kinds" using assms(1,3) by (simp add: proper_kind_def)
  then have "k' \<notin> set known_kinds" by (metis imageI)
  with False assms(3) show ?thesis by (cases k; cases k') (auto simp: known_kinds_def)
qed

lemma sequence_fold:
  fixes olds :: "action list"
  defines "step \<equiv> \<lambda>old a. if same_target old a
      then a\<lparr>a_sequence := max (a_sequence a) (wrap64 (a_sequence old + 1))\<rparr> else a"
  shows "\<exists>n. fold step olds a = a\<lparr>a_sequence := n\<rparr> \<and> a_sequence a \<le> n \<and>
           (\<forall>old \<in> set olds. same_target old a \<longrightarrow> wrap64 (a_sequence old + 1) \<le> n)"
proof (induction olds arbitrary: a)
  case Nil
  show ?case by (intro exI [of _ "a_sequence a"]) simp
next
  case (Cons old olds)
  have same: "same_target o1 (step old a) = same_target o1 a" for o1
    by (simp add: step_def same_target_def)
  from Cons.IH [of "step old a"] obtain n where n: "fold step olds (step old a) = (step old a)\<lparr>a_sequence := n\<rparr>"
    "a_sequence (step old a) \<le> n" "\<forall>o1 \<in> set olds. same_target o1 a \<longrightarrow> wrap64 (a_sequence o1 + 1) \<le> n"
    by (auto simp: same)
  have "(step old a)\<lparr>a_sequence := n\<rparr> = a\<lparr>a_sequence := n\<rparr>" by (simp add: step_def)
  with n show ?case by (intro exI [of _ n]) (auto simp: step_def split: if_splits)
qed

lemma sequenced_spec:
  "\<exists>n. sequenced h olds a = (a\<lparr>a_sequence := n\<rparr>)\<lparr>a_id := actionID h (a\<lparr>a_sequence := n\<rparr>)\<rparr> \<and>
       (\<forall>old \<in> set olds. same_target old a \<longrightarrow> wrap64 (a_sequence old + 1) \<le> n)"
  using sequence_fold [of olds a] by (auto simp: sequenced_def Let_def)

lemma action_key_id [simp]: "action_key (a\<lparr>a_id := i\<rparr>) = action_key a"
  by (simp add: action_key_def)

text \<open>
  C19: The sequence number Reconcile gives a planned action makes its effect key different from
  that of every action already in the ledger.
\<close>

lemma sequenced_fresh:
  assumes "old \<in> set olds" and "a_sequence old < max_int64" and "- (2 ^ 63) \<le> a_sequence old"
    and "proper_kind (a_kind a)" and "proper_kind (a_kind old)"
  shows "action_key (sequenced h olds a) \<noteq> action_key old"
proof
  assume eq: "action_key (sequenced h olds a) = action_key old"
  obtain n where n: "sequenced h olds a = (a\<lparr>a_sequence := n\<rparr>)\<lparr>a_id := actionID h (a\<lparr>a_sequence := n\<rparr>)\<rparr>"
    "\<forall>old \<in> set olds. same_target old a \<longrightarrow> wrap64 (a_sequence old + 1) \<le> n"
    using sequenced_spec by blast
  from eq have "same_target old a" "a_sequence old = n"
    using proper_kind_text [OF assms(4,5)] by (auto simp: n(1) action_key_def same_target_def)
  with n(2) assms(1) have "wrap64 (a_sequence old + 1) \<le> a_sequence old" by blast
  moreover have "wrap64 (a_sequence old + 1) = a_sequence old + 1"
    using assms(2,3) by (intro wrap64_id) (auto simp: in_int64_def max_int64_def)
  ultimately show False by simp
qed

section \<open>Criterion evidence\<close>

text \<open>A stored check passes only when the worker said so and its reads match the check.\<close>

lemma update_first_mem: "x \<in> set (update_first p f xs) \<Longrightarrow> x \<in> set xs \<or> (\<exists>y \<in> set xs. p y \<and> x = f y)"
  by (induction xs) (auto split: if_splits)

lemma put_check_mem: "x \<in> set (g_checks (put_check i e g)) \<Longrightarrow> x = e \<or> x \<in> set (g_checks g)"
  by (auto simp: put_check_def dest: update_first_mem split: if_splits)

text \<open>
  C29: A stored criterion result passes only when its reads match the requested fields, whatever
  success flag the connector reports.
\<close>

lemma succeed_check_honest:
  assumes "succeed_check h g t a ob = Inr g'" and "x \<in> set (g_checks g')" and "x \<notin> set (g_checks g)"
  shows "\<exists>e c. o_criterion ob = Some e \<and> currentEvidence h g c e \<and> e_revision e = a_revision a \<and>
           e_criterion e = a_criterion_id a \<and> (c \<in> set (goalCriteria g) \<or> c = zero_criterion) \<and>
           x = e\<lparr>e_passed := e_passed e \<and> Matches (e_collected e) (c_check c)\<rparr>"
proof -
  from assms(1) obtain e where e: "o_criterion ob = Some e" "e_criterion e = a_criterion_id a"
    by (auto simp: succeed_check_def split: option.splits if_splits)
  define c where "c = (case first_such (\<lambda>c. c_id c = a_criterion_id a) (goalCriteria g) of
                          None \<Rightarrow> zero_criterion | Some c \<Rightarrow> c)"
  have c: "c \<in> set (goalCriteria g) \<or> c = zero_criterion"
    by (auto simp: c_def dest: first_such_Some split: option.splits)
  have "g' = put_check (a_criterion_id a) (e\<lparr>e_passed := e_passed e \<and> Matches (e_collected e) (c_check c)\<rparr>) g"
    "currentEvidence h g c e" "e_revision e = a_revision a"
    using assms(1) e by (auto simp: succeed_check_def Let_def c_def split: option.splits if_splits)
  with put_check_mem assms(2,3) e c show ?thesis by blast
qed

section \<open>Quotas of a host\<close>

lemma carry_quota_ge:
  fixes q m :: "int gomap"
  shows "mget 0 m w \<le> mget 0 (fold (\<lambda>(worker, reset) m.
      if now < reset \<and> mget 0 m worker < reset then mput worker reset m else m) q m) w"
proof (induction q arbitrary: m)
  case (Cons x q)
  obtain worker reset where x: "x = (worker, reset)" by force
  have "mget 0 m w \<le> mget 0 (if now < reset \<and> mget 0 m worker < reset then mput worker reset m else m) w"
    by (auto simp: go_map)
  also note Cons.IH
  finally show ?case by (simp add: x)
qed simp

lemma carry_quota_keeps:
  assumes "(w, reset) \<in> set (n_quota_reset previous)" and "now < reset"
  shows "reset \<le> mget 0 (n_quota_reset (carry_quota now previous n)) w"
proof -
  let ?f = "\<lambda>(worker, reset) m. if now < reset \<and> mget 0 m worker < reset then mput worker reset m else m"
  have "(w, reset) \<in> set q \<Longrightarrow> reset \<le> mget 0 (fold ?f q m) w" for q m :: "int gomap"
  proof (induction q arbitrary: m)
    case (Cons x q)
    show ?case
    proof (cases "x = (w, reset)")
      case True
      have "reset \<le> mget 0 (?f x m) w" using True assms(2) by (simp add: go_map)
      also have "\<dots> \<le> mget 0 (fold ?f q (?f x m)) w" by (rule carry_quota_ge)
      finally show ?thesis by simp
    qed (use Cons in simp)
  qed simp
  then show ?thesis using assms(1) by (simp add: carry_quota_def)
qed

lemma put_node_get: "put_node n v = Inr w \<Longrightarrow> get_body w ''node'' (n_id n) = Some (NodeBody n)"
  by (simp add: put_node_def)


section \<open>Ranks\<close>

lemma normalizeRanks_dense:
  assumes "normalizeRanks person v = Inr (w, gs)"
  shows "map g_rank gs = map (\<lambda>i. int i + 1) [0..<length gs]"
    and "\<exists>all. goalsOf v = Inr all \<and>
           map g_id gs = map g_id (sort_key rank_key (filter (\<lambda>g. g_person g = person \<and> \<not> goal_final g) all))"
proof -
  from assms obtain all where all: "goalsOf v = Inr all" and
    gs: "gs = (let mine = sort_key rank_key (filter (\<lambda>g. g_person g = person \<and> \<not> goal_final g) all)
               in map (\<lambda>(g, i). g\<lparr>g_rank := i + 1\<rparr>) (zip mine (map int [0..<length mine])))"
    by (auto simp: normalizeRanks_def Let_def bind_result_eq_Inr)
  show "map g_rank gs = map (\<lambda>i. int i + 1) [0..<length gs]"
    unfolding gs Let_def by (rule nth_equalityI) auto
  show "\<exists>all. goalsOf v = Inr all \<and>
      map g_id gs = map g_id (sort_key rank_key (filter (\<lambda>g. g_person g = person \<and> \<not> goal_final g) all))"
    using all unfolding gs Let_def by (intro exI [of _ all] conjI nth_equalityI) auto
qed

section \<open>Stopping and retiring\<close>

text \<open>
  A finished action no longer reserves its task, so the award of a retired one is not
  restored by \<open>reconcileRetired\<close>, which marks it finished first.
\<close>

lemma update_first_id [simp]: "update_first p (\<lambda>x. x) xs = xs"
  by (induction xs) auto

lemma finished_not_restored:
  assumes "a_state a = Finished"
  shows "g_tasks (restoreDeniedAssignment a g) = g_tasks g"
  using assms
  by (simp add: restoreDeniedAssignment_def modify_task_def reserves_def)

lemma over_actions_goal:
  assumes "over_actions body (v, g) = Inr (w, g')" and "\<And>a g b g'. body a g = Some (b, g') \<Longrightarrow> P g \<Longrightarrow> P g'" and "P g"
  shows "P g'"
proof -
  from assms(1) obtain as where f: "fold_result (\<lambda>a (v, g). case body a g of None \<Rightarrow> Inr (v, g)
      | Some (b, g') \<Rightarrow> bind_result (put_action b v) (\<lambda>v. Inr (v, g'))) as (v, g) = Inr (w, g')"
    by (auto simp: over_actions_def bind_result_eq_Inr)
  have "P (snd (w, g'))"
    by (rule fold_result_invariant [OF _ _ f, where P = "\<lambda>x. P (snd x)"])
      (use assms(2,3) in \<open>auto simp: bind_result_eq_Inr split: option.splits prod.splits\<close>)
  then show ?thesis by simp
qed

text \<open>A stop ends the goal with no waits left; the queue of linked to-dos is as before.\<close>


end
