(* ===== verification/GoalFence.thy ===== *)
theory GoalFence
  imports GoalCommands
begin

text \<open>
  The fences: what a stop and a changed definition leave of a goal's actions, when a pass may
  close a goal, and which driver calls a dispatch makes.
\<close>

section \<open>One pass over the actions\<close>

lemma over_actions_fold:
  assumes "distinct (map a_id as)"
    and body: "\<And>a g b g'. body a g = Some (b, g') \<Longrightarrow> P g \<Longrightarrow> P g' \<and> a_id b = a_id a"
    and "fold_result (\<lambda>a (v, g). case body a g of None \<Rightarrow> Inr (v, g)
           | Some (b, g') \<Rightarrow> bind_result (put_action b v) (\<lambda>v. Inr (v, g'))) as (v, g) = Inr (w, g')"
    and "P g" and "loadAction w i = Inr b"
  shows "(\<exists>a \<in> set as. a_id a = i \<and> (\<exists>g1 g2. P g1 \<and> body a g1 = Some (b, g2))) \<or>
         loadAction v i = Inr b \<and> (\<forall>a \<in> set as. a_id a = i \<longrightarrow> (\<exists>g1. P g1 \<and> body a g1 = None))"
  using assms(1,3-5)
proof (induction as arbitrary: v g)
  case (Cons a as)
  show ?case
  proof (cases "body a g")
    case None
    with Cons.prems have "fold_result (\<lambda>a (v, g). case body a g of None \<Rightarrow> Inr (v, g)
           | Some (b, g') \<Rightarrow> bind_result (put_action b v) (\<lambda>v. Inr (v, g'))) as (v, g) = Inr (w, g')"
      by simp
    with Cons.IH [of v g] Cons.prems None show ?thesis by auto
  next
    case (Some x)
    then obtain c g1 where x: "body a g = Some (c, g1)" by (cases x) auto
    then obtain u where u: "put_action c v = Inr u"
      "fold_result (\<lambda>a (v, g). case body a g of None \<Rightarrow> Inr (v, g)
           | Some (b, g') \<Rightarrow> bind_result (put_action b v) (\<lambda>v. Inr (v, g'))) as (u, g1) = Inr (w, g')"
      using Cons.prems by (auto simp: bind_result_eq_Inr)
    have c: "P g1" "a_id c = a_id a" using body [OF x Cons.prems(3)] by simp_all
    have other: "loadAction u i = loadAction v i" if "i \<noteq> a_id a"
      using get_body_put_id [OF u(1) [unfolded put_action_def], of i] that c(2)
      by (auto simp: loadAction_def get_body_def split: option.splits)
    have same: "loadAction u (a_id a) = Inr c" using put_action_get [OF u(1)] c(2) by simp
    from Cons.IH [OF _ u(2) c(1) Cons.prems(4)] Cons.prems(1)
    consider "\<exists>a \<in> set as. a_id a = i \<and> (\<exists>g1 g2. P g1 \<and> body a g1 = Some (b, g2))"
      | "loadAction u i = Inr b" "\<forall>a \<in> set as. a_id a = i \<longrightarrow> (\<exists>g1. P g1 \<and> body a g1 = None)"
      by auto
    then show ?thesis
    proof cases
      case 2
      show ?thesis
      proof (cases "i = a_id a")
        case True
        with 2 same x Cons.prems(3) show ?thesis by auto
      next
        case False
        with 2 other show ?thesis by auto
      qed
    qed auto
  qed
qed simp

lemma actionsOf_loads:
  assumes "actionsOf v = Inr as" and "own_records (vw_records v)"
  shows "distinct (map a_id as)" and "loadAction v i = Inr a \<Longrightarrow> a \<in> set as \<and> a_id a = i"
    and "a \<in> set as \<Longrightarrow> loadAction v (a_id a) = Inr a"
proof -
  from assms(1) have m: "map_result (\<lambda>r. as_action (jr_body r)) (Records v ''action'') = Inr as"
    by (simp add: actionsOf_def)
  have "map a_id as = map jr_id (Records v ''action'')"
    using records_ids(2) [OF assms(2), of _ "''action''"] by (intro map_result_ids [OF m]) fastforce
  then show "distinct (map a_id as)" using records_ids(1) [OF assms(2)] by simp
  have len: "length as = length (Records v ''action'')"
    and nth: "j < length as \<Longrightarrow> jr_body (Records v ''action'' ! j) = ActionBody (as ! j)" for j
    using m by (auto simp: map_result_Inr)
  show "a \<in> set as \<and> a_id a = i" if l: "loadAction v i = Inr a"
  proof -
    from l obtain r where r: "Get v ''action'' i = Some r" "jr_body r = ActionBody a"
      by (auto simp: loadAction_iff get_body_def)
    then have "jr_kind r = ''action''" using own_get [OF assms(2)] by auto
    moreover from r(1) have "r \<in> snd ` set (vw_records v)"
      by (auto simp: Get_def dest!: map_of_SomeD intro: rev_image_eqI)
    ultimately have "r \<in> set (Records v ''action'')" by (simp add: Records_def)
    then obtain j where "j < length as" "Records v ''action'' ! j = r"
      using len by (metis in_set_conv_nth)
    then have "a \<in> set as" using nth r(2) by fastforce
    moreover have "a_id a = i" using own_loads(1) [OF assms(2)] l by (auto simp: keyed_actions_def)
    ultimately show ?thesis by simp
  qed
  show "loadAction v (a_id a) = Inr a" if "a \<in> set as"
  proof -
    from that obtain j where j: "j < length as" "as ! j = a" by (auto simp: in_set_conv_nth)
    let ?r = "Records v ''action'' ! j"
    have r: "?r \<in> set (Records v ''action'')" using j len by simp
    then have "own_key (jr_body ?r) ''action'' (jr_id ?r)" using records_ids(2) [OF assms(2)] by blast
    then have "jr_id ?r = a_id a" using nth [OF j(1)] j(2) by simp
    moreover from r obtain k where k: "(k, ?r) \<in> set (vw_records v)" "jr_kind ?r = ''action''"
      by (auto simp: Records_def)
    then have "own_record k ?r" using assms(2) by (auto simp: own_records_def)
    then have "k = key ''action'' (jr_id ?r)" using k(2) by (simp add: own_record_def)
    moreover have "distinct (map fst (vw_records v))" using assms(2) by (simp add: own_records_def sorted_map_distinct)
    ultimately have "map_of (vw_records v) (key ''action'' (a_id a)) = Some ?r" using k(1) by simp
    then show ?thesis using nth [OF j(1)] j(2) by (simp add: loadAction_def Get_def)
  qed
qed

text \<open>Each stored action is what the body makes of it for some goal the loop passes.\<close>

lemma over_actions_each:
  assumes "over_actions body (v, g) = Inr (w, g')" and "own_records (vw_records v)"
    and body: "\<And>a g b g'. body a g = Some (b, g') \<Longrightarrow> P g \<Longrightarrow> P g' \<and> a_id b = a_id a"
    and "P g" and "loadAction w i = Inr b"
  shows "\<exists>a g1. loadAction v i = Inr a \<and> P g1 \<and>
           (body a g1 = None \<and> b = a \<or> (\<exists>g2. body a g1 = Some (b, g2)))"
proof -
  from assms(1) obtain as where as: "actionsOf v = Inr as" and
    f: "fold_result (\<lambda>a (v, g). case body a g of None \<Rightarrow> Inr (v, g)
           | Some (b, g') \<Rightarrow> bind_result (put_action b v) (\<lambda>v. Inr (v, g'))) as (v, g) = Inr (w, g')"
    by (auto simp: over_actions_def bind_result_eq_Inr)
  note loads = actionsOf_loads [OF as assms(2)]
  have "(\<exists>a \<in> set as. a_id a = i \<and> (\<exists>g1 g2. P g1 \<and> body a g1 = Some (b, g2))) \<or>
         loadAction v i = Inr b \<and> (\<forall>a \<in> set as. a_id a = i \<longrightarrow> (\<exists>g1. P g1 \<and> body a g1 = None))"
    by (rule over_actions_fold [where body = body and P = P, OF loads(1) _ f assms(4,5)]) (use body in blast)
  then show ?thesis using loads(2,3) by blast
qed

section \<open>A stop settles what never ran\<close>

lemma restore_id [simp]: "g_id (restoreUndispatchedTask a g) = g_id g" "g_id (restoreDeniedAssignment a g) = g_id g"
  "g_revision (restoreUndispatchedTask a g) = g_revision g" "g_revision (restoreDeniedAssignment a g) = g_revision g"
  by (simp_all add: restoreUndispatchedTask_def restoreDeniedAssignment_def)

lemma retired_id [simp]: "a_id (retired a) = a_id a" "a_state (retired a) = Finished"
  "a_goal_id (retired a) = a_goal_id a"
  by (simp_all add: retired_def)

lemma stopped_body_frame:
  "stopped_body now a g = Some (b, g') \<Longrightarrow> g_id g' = g_id g \<and> a_id b = a_id a"
  by (auto simp: stopped_body_def split: if_splits)

lemma stopped_body_settles:
  assumes "stopped_body now a g = None \<and> b = a \<or> stopped_body now a g = Some (b, g')" and "a_goal_id b = g_id g"
  shows "a_state b \<noteq> NeedsPerson \<and>
         (a_state b \<in> {Queued, AwaitingAuthorization} \<longrightarrow> a_observe_action_id b \<noteq> [])"
  using assms by (auto simp: stopped_body_def split: if_splits)

text \<open>
  C16: After a person stops a goal no action of it waits for a person, and the only ones still
  queued or awaiting authorization are reads of effects that already started.
\<close>

lemma stop_settles:
  assumes "Command i person StopGoal now v = Inr (w, g)" and "own_records (vw_records v)"
    and "loadAction w j = Inr b" and "a_goal_id b = i"
  shows "a_state b \<noteq> NeedsPerson \<and>
         (a_state b \<in> {Queued, AwaitingAuthorization} \<longrightarrow> a_observe_action_id b \<noteq> [])"
proof -
  from assms(1) obtain r g0 u where g0: "Get v ''goal'' i = Some r" "jr_body r = GoalBody g0"
    and ret: "over_actions (stopped_body now) (v, stop_goal g0) = Inr (u, g)" and put: "put_goal g u = Inr w"
    by (auto simp: Command_def retireStoppedActions_def bind_result_eq_Inr split: option.splits if_splits)
  have i: "g_id (stop_goal g0) = i"
    using own_get [OF assms(2) g0(1)] g0(2) by (simp add: stop_goal_def)
  have "loadAction u j = Inr b" using assms(3) put_goal_action [OF put] by simp
  from over_actions_each [OF ret assms(2), where P = "\<lambda>g. g_id g = i", OF _ i this]
  obtain a g1 where "g_id g1 = i"
    "stopped_body now a g1 = None \<and> b = a \<or> (\<exists>g2. stopped_body now a g1 = Some (b, g2))"
    by (auto dest: stopped_body_frame)
  then show ?thesis using stopped_body_settles assms(4) by metis
qed

section \<open>A changed definition fences execution\<close>

lemma revised_body_frame:
  "revised_body now a g = Some (b, g') \<Longrightarrow> g_id g' = g_id g \<and> g_revision g' = g_revision g \<and> a_id b = a_id a \<and>
     a_goal_id b = a_goal_id a"
  by (auto simp: revised_body_def Let_def split: if_splits)

lemma undispatched_body_frame:
  "undispatched_body a g = Some (b, g') \<Longrightarrow> g_id g' = g_id g \<and> g_revision g' = g_revision g \<and> a_id b = a_id a"
  by (auto simp: undispatched_body_def split: if_splits)

lemma revised_body_settles:
  assumes "revised_body now a g = None \<and> b = a \<or> revised_body now a g = Some (b, g')" and "a_goal_id b = g_id g"
  shows "a_state b = Finished \<or> a_state b \<notin> {Queued, NeedsPerson} \<and> \<not> revisionJudgment b"
  using assms by (auto simp: revised_body_def revisionJudgment_def Let_def split: if_splits)

lemma RefreshDefinition_cases:
  assumes "RefreshDefinition e d version g v = Inr w"
  obtains c u1 g1 u2 g2 where "loadGoal v (g_id g) = Inr c"
    "retireUndispatchedActions (v, revised_goal d version (definition_invalid d g) c) = Inr (u1, g1)"
    "retireRevisedActions (en_now e) (u1, g1) = Inr (u2, g2)" "put_goal g2 u2 = Inr w"
    "g_state c \<noteq> GoalStopped" "g_record_revision c = g_record_revision g"
  using assms by (auto simp: RefreshDefinition_def Let_def bind_result_eq_Inr split: if_split_asm)

lemma revised_goal_frame [simp]:
  "g_id (revised_goal d version bad g) = g_id g"
  "g_definition_pending (revised_goal d version bad g)"
  "g_record_revision (revised_goal d version bad g) = version"
  "g_checks (revised_goal d version bad g) = []"
  "g_revision (revised_goal d version bad g) = wrap64 (g_revision g + 1)"
  by (auto simp: revised_goal_def Let_def blockCorrection_def restoreMergedRevisions_def)


section \<open>Closing needs current evidence\<close>

lemma project_state_done:
  assumes "g_state (project_state h p tokens as g) = GoalDone" and "g_state g \<noteq> GoalDone"
  shows "g_id g \<in> set (pl_close p) \<and> (\<forall>m. tokens = Some m \<longrightarrow> m (g_id g) = Some (evidenceToken g))"
  using assms by (auto simp: project_state_def Let_def split: if_splits option.splits)

text \<open>A positive answer is a completed read of exactly the goal's evidence.\<close>

lemma scheduleEvidence_true:
  assumes "scheduleEvidence alive refresh g m = (True, started, m')"
  shows "\<not> refresh \<and> \<not> started \<and> m' = m \<and>
         (\<exists>fl. m (g_id g) = Some fl \<and> \<not> fl_running fl \<and> fl_current fl \<and> fl_token fl = evidenceToken g)"
  using assms by (auto simp: scheduleEvidence_def Let_def split: if_splits option.splits)

section \<open>Dispatch\<close>


end
