(* ===== verification/GoalExample.thy ===== *)
theory GoalExample
  imports GoalFence GoalPlacement
begin

text \<open>
  A small concrete world: one host, four goals in different phases, and the plan that Derive
  makes of them. The hypotheses of the planner's theorems are met here.
\<close>

text \<open>The hash of the example is the identity, which is free of collisions.\<close>

definition ex_host :: host where
  "ex_host = \<lparr>h_sha256 = (\<lambda>s. s), h_overlap = (\<lambda>a b. a = b),
              h_areas = (\<lambda>as bs. Some (list_ex (\<lambda>a. a \<in> set bs) as)), h_step_name = (\<lambda>_ _. True)\<rparr>"

definition ex_resources :: resources where
  "ex_resources = \<lparr>r_cpu = FFin 1, r_memory_mb = 1024, r_disk_mb = 512\<rparr>"

definition ex_task :: "string \<Rightarrow> string \<Rightarrow> string list \<Rightarrow> task" where
  "ex_task i area deps = zero_task\<lparr>t_kind := TaskStep, t_id := i, t_done := ''works'', t_repository := ''repo'',
     t_base := ''main'', t_area := area, t_worker := ''codex'', t_resources := ex_resources,
     t_depends_on := deps, t_stage := TaskReady\<rparr>"

definition ex_goal :: "string \<Rightarrow> string \<Rightarrow> task list \<Rightarrow> goal" where
  "ex_goal i person tasks =
     \<lparr>g_step_graph = None, g_conversation = [], g_turn = [], g_record_id = ''goal:'' @ i,
      g_record_revision = ''r1'', g_definition_pending = False, g_definition_text = [],
      g_assessed_failure = [], g_scope = \<lparr>sc_repositories = [''repo''], sc_includes = ''all'', sc_excludes = []\<rparr>,
      g_assumptions = [], g_asks = [], g_person_tasks = [], g_decisions = [],
      g_criteria = [\<lparr>c_id = ''c1'', c_statement = ''It runs'',
                     c_check = plain_check RunEvidence ''probe'' i []\<rparr>],
      g_checks = [], g_check_round = 0, g_state = GoalRunning, g_revision = 1, g_rank = 1,
      g_paused = False, g_queue_place = 0, g_queue_reason = [], g_manager_turns = 1,
      g_attention_id = [], g_blocked_reason = [], g_decision_row = [], g_created_at = 1,
      g_deadline = 0, g_id = i, g_person = person, g_agent = ''agent'', g_summary = ''Build'',
      g_done = ''It runs'', g_service_target = [], g_service_repository = [],
      g_no_service_reason = ''library'', g_tasks = tasks, g_target_revision = [],
      g_merged_revisions = [], g_deployment = no_proof, g_verification = no_proof, g_waits = [],
      g_clear_todos = [], g_evidence = []\<rparr>"

text \<open>Work to start: two steps, the second needs the first.\<close>

definition ex_building :: goal where
  "ex_building = ex_goal ''g1'' ''p1''
     [ex_task ''a'' ''src/a'' [], ex_task ''b'' ''src/b'' [''a'']]"

text \<open>A delivered change whose pull request is ready to merge.\<close>

definition ex_proof :: "string \<Rightarrow> evidence_proof" where
  "ex_proof r = \<lparr>p_revision = r, p_ref = ''ref'', p_passed = True\<rparr>"

definition ex_merging :: goal where
  "ex_merging = ex_goal ''g2'' ''p2''
     [(ex_task ''m'' ''src/m'' [])\<lparr>t_stage := TaskDelivered, t_head := ''h1'', t_effects_settled := True,
        t_pr := \<lparr>pr_head = ''h1'', pr_checks = ex_proof ''h1'', pr_review = ex_proof ''h1'',
                 pr_verified = ex_proof ''h1'', pr_open_p0p1 = 0, pr_mergeable = True,
                 pr_observed_at = 990\<rparr>\<rparr>]"

text \<open>A goal whose definition was corrected.\<close>

definition ex_correcting :: goal where
  "ex_correcting = (ex_goal ''g3'' ''p3'' [ex_task ''k'' ''src/k'' []])\<lparr>g_definition_pending := True\<rparr>"

text \<open>A goal with all of its evidence.\<close>

definition ex_landed :: task where
  "ex_landed = (ex_task ''z'' ''src/z'' [])\<lparr>t_stage := TaskDone, t_merge := ex_proof ''v1'', t_qa := ex_proof ''v1'',
     t_result_revision := ''v1'', t_effects_settled := True\<rparr>"

definition ex_closing0 :: goal where
  "ex_closing0 = (ex_goal ''g4'' ''p4'' [ex_landed])\<lparr>g_target_revision := ''v1'',
     g_merged_revisions := [(''repo'', ''v1'')], g_verification := ex_proof ''v1'', g_check_round := 1\<rparr>"

definition ex_evidence :: "goal \<Rightarrow> criterion \<Rightarrow> criterion_evidence" where
  "ex_evidence g c =
     \<lparr>e_criterion = c_id c, e_goal_revision = g_revision g, e_round = g_check_round g,
      e_target = ck_target (c_check c), e_revision = criterionRevision ex_host g c,
      e_kind = ck_kind (c_check c), e_ref = ''ref'', e_passed = True,
      e_collected = Some \<lparr>ce_record = RawJson (JObj [(''ok'', JStr ''yes'')]), ce_output = ''passed'', ce_reads = [],
                          ce_rubric = [], ce_judgment = []\<rparr>\<rparr>"

definition ex_closing :: goal where
  "ex_closing = ex_closing0\<lparr>g_checks := map (ex_evidence ex_closing0) (goalCriteria ex_closing0)\<rparr>"

definition ex_node :: node where
  "ex_node = \<lparr>n_quota_reset = [], n_id = ''n1'', n_connected = True, n_yielding = False, n_observed_at = 990,
     n_cpu_cores = FFin 8, n_cpu_limit = FFin 8, n_load_cpu = FFin 1, n_available_memory_mb = 16384,
     n_memory_limit_mb = 16384, n_available_disk_mb = 100000, n_disk_limit_mb = 100000,
     n_for_person = False, n_workers = [(''codex'', True)], n_observed_actions = []\<rparr>"

definition ex_state :: "goal \<Rightarrow> state" where
  "ex_state g = \<lparr>st_goals = [g], st_nodes = [ex_node], st_actions = [], st_limits = []\<rparr>"

text \<open>
  What Derive answers for a goal of the example, computed in the kernel. Placing a worker is
  computed in steps: the pass keeps its constants folded.
\<close>

definition plan_of :: "goal \<Rightarrow> plan" where
  "plan_of g = (case Derive ex_host (ex_state g) 1000 of Inl _ \<Rightarrow> empty_plan | Inr p \<Rightarrow> p)"

lemma plan_ofI:
  "(case Derive ex_host (ex_state g) 1000 of Inl _ \<Rightarrow> False | Inr p \<Rightarrow> Q p) \<Longrightarrow>
     Derive ex_host (ex_state g) 1000 = Inr (plan_of g) \<and> Q (plan_of g)"
  by (auto simp: plan_of_def split: sum.splits)

lemma ex_merging_plan:
  "Derive ex_host (ex_state ex_merging) 1000 = Inr (plan_of ex_merging) \<and>
   map (\<lambda>a. (a_goal_id a, a_task_id a, a_kind a)) (pl_actions (plan_of ex_merging)) = [(''g2'', ''m'', Merge)]"
  by (rule plan_ofI) code_simp

lemma ex_correcting_plan:
  "Derive ex_host (ex_state ex_correcting) 1000 = Inr (plan_of ex_correcting) \<and>
   map (\<lambda>a. (a_goal_id a, a_task_id a, a_kind a)) (pl_actions (plan_of ex_correcting)) = [(''g3'', [], PlanGoal)]"
  by (rule plan_ofI) code_simp

lemma ex_closing_plan:
  "Derive ex_host (ex_state ex_closing) 1000 = Inr (plan_of ex_closing) \<and> pl_close (plan_of ex_closing) = [''g4'']"
  by (rule plan_ofI) code_simp

abbreviation ex_a :: task where "ex_a \<equiv> ex_task ''a'' ''src/a'' []"
abbreviation ex_b :: task where "ex_b \<equiv> ex_task ''b'' ''src/b'' [''a'']"
abbreviation ex_start :: pass where "ex_start \<equiv> initial_pass ex_host (ex_state ex_building) 1000"

definition ex_candidate :: candidate where
  "ex_candidate = \<lparr>cd_goal = ex_building, cd_task = ex_a, cd_kind = Assign, cd_depth = 0, cd_rank = goalRank ex_building\<rparr>"

lemma ex_building_sel [simp]:
  "g_id ex_building = ''g1''" "g_person ex_building = ''p1''" "g_tasks ex_building = [ex_a, ex_b]"
  "g_state ex_building = GoalRunning" "\<not> g_paused ex_building" "\<not> g_definition_pending ex_building"
  "g_waits ex_building = []" "g_target_revision ex_building = []" "g_decision_row ex_building = []"
  by (simp_all add: ex_building_def ex_goal_def)

lemma ex_task_sel [simp]:
  "t_id (ex_task i a ds) = i" "t_stage (ex_task i a ds) = TaskReady" "t_depends_on (ex_task i a ds) = ds"
  "t_kind (ex_task i a ds) = TaskStep" "t_area (ex_task i a ds) = a" "t_worker (ex_task i a ds) = ''codex''"
  "t_resources (ex_task i a ds) = ex_resources" "t_node_id (ex_task i a ds) = []"
  "t_merge (ex_task i a ds) = no_proof" "t_head (ex_task i a ds) = []"
  by (simp_all add: ex_task_def zero_task_def)

lemma ex_state_sel [simp]:
  "st_goals (ex_state g) = [g]" "st_nodes (ex_state g) = [ex_node]" "st_actions (ex_state g) = []"
  by (simp_all add: ex_state_def)

lemma ex_goals: "derive_goals ex_host (ex_state ex_building) = [ex_building]"
proof -
  have "targetRevision ex_host ex_building = g_target_revision ex_building" by code_simp
  then show ?thesis by (simp add: derive_goals_def)
qed

lemma ex_scan: "scan_goal (ex_state ex_building) ex_building ps = Inr ps"
proof -
  have "validateGoalState ex_building False" by code_simp
  then show ?thesis by (simp add: scan_goal_def scan_task_def merge_pending_def)
qed

lemma ex_derive:
  "derive_goal ex_host (ex_state ex_building) 1000 ex_building ps =
     Inr (add_wait ex_building ''b'' ''dependency'' ''step.landed'' 1000 (ps\<lparr>ps_ready := ps_ready ps @ [ex_candidate]\<rparr>))"
proof -
  have "fst (step_depth 3 (task_deps [ex_a, ex_b]) ''a'' Map.empty) = 0" by code_simp
  then obtain m where d: "step_depth (Suc (Suc (Suc 0))) (task_deps [ex_a, ex_b]) ''a'' Map.empty = (0, m)"
    by (metis numeral_3_eq_3 prod.collapse)
  show ?thesis
    by (simp add: derive_goal_def goal_final_def holdRecordedWaits_def derive_task_def derive_stage_def pending_def
        taskDone_def stepKind.simps deps_landed_def task_or_zero_def goalTask_def stepLanded_def no_proof_def
        proves_def d derive_finish_def ex_candidate_def add_wait_def
        del: step_depth.simps)
qed

lemma ex_slots: "best_node Assign ex_a [] 1000 [ex_node] = ''n1''"
  by code_simp

lemma ex_limit: "mget zero_limit (pl_run_limits (ps_plan ex_start)) ''p1'' =
    \<lparr>ls_reason = ''load'', ls_current = 7, ls_automatic = True\<rparr>"
  by code_simp

lemma ex_start_sel [simp]:
  "ps_occupied ex_start = []" "ps_running ex_start = []" "ps_reservations ex_start = []" "ps_ready ex_start = []"
  "ps_holds ex_start = []" "pl_actions (ps_plan ex_start) = []" "pl_rows (ps_plan ex_start) = []"
  by (simp_all add: initial_pass_def Let_def inProgressGoals_def empty_plan_def)

definition ex_assign :: action where
  "ex_assign = planned_action ex_host (ex_state ex_building) ex_building ex_a Assign [] ''n1'' 1000"

lemma ex_place:
  assumes "ps_occupied ps = []" "ps_running ps = []" "ps_reservations ps = []"
    and "pl_run_limits (ps_plan ps) = pl_run_limits (ps_plan ex_start)"
  defines "ps' \<equiv> place ex_host (ex_state ex_building) 1000 [ex_node] ex_candidate ps"
  shows "pl_actions (ps_plan ps') = pl_actions (ps_plan ps) @ [ex_assign]"
    "pl_run_limits (ps_plan ps') = pl_run_limits (ps_plan ps)"
  using assms(1-4) ex_limit unfolding ps'_def
  by (simp_all add: place_def ex_candidate_def Let_def over_limit_def person_limit_def ex_slots start_worker_def
      add_action_def plan_action_def occupy_def ex_assign_def)

lemma ex_building_plan:
  "Derive ex_host (ex_state ex_building) 1000 = Inr (plan_of ex_building)"
  "pl_actions (plan_of ex_building) = [ex_assign]"
  "pl_run_limits (plan_of ex_building) = pl_run_limits (ps_plan ex_start)"
proof -
  define ps where "ps = add_wait ex_building ''b'' ''dependency'' ''step.landed'' 1000 (ex_start\<lparr>ps_ready := [ex_candidate]\<rparr>)"
  define ps' where "ps' = place ex_host (ex_state ex_building) 1000 [ex_node] ex_candidate ps"
  have ps: "ps_occupied ps = []" "ps_running ps = []" "ps_reservations ps = []" "ps_ready ps = [ex_candidate]"
    "pl_run_limits (ps_plan ps) = pl_run_limits (ps_plan ex_start)" "pl_actions (ps_plan ps) = []"
    by (simp_all add: ps_def add_wait_def)
  have pl: "pl_actions (ps_plan ps') = [ex_assign]" "pl_run_limits (ps_plan ps') = pl_run_limits (ps_plan ex_start)"
    using ex_place [OF ps(1-3,5)] ps(5,6) by (simp_all add: ps'_def)
  have "Derive_pass ex_host (ex_state ex_building) 1000 = Inr (finish_pass ex_host (ex_state ex_building) 1000 ps')"
    by (simp add: Derive_pass_def ex_goals ex_scan ex_derive ps_def [symmetric] place_all_def ps(4) ps'_def)
  moreover have "pl_actions (ps_plan (finish_pass ex_host (ex_state ex_building) 1000 ps')) = [ex_assign]"
    "pl_run_limits (ps_plan (finish_pass ex_host (ex_state ex_building) 1000 ps')) = pl_run_limits (ps_plan ex_start)"
    by (simp_all add: finish_pass_def Let_def ex_goals derive_liveness_def goal_final_def goalHeld_def goalHasWork_def
        pl ex_assign_def)
  ultimately show "Derive ex_host (ex_state ex_building) 1000 = Inr (plan_of ex_building)"
    "pl_actions (plan_of ex_building) = [ex_assign]"
    "pl_run_limits (plan_of ex_building) = pl_run_limits (ps_plan ex_start)"
    by (simp_all add: plan_of_def Derive_def)
qed

end
