(* ===== verification/LedgerExample.thy ===== *)
theory LedgerExample
  imports GoalExample
begin

text \<open>
  A small journal: the building goal of theory \<open>GoalExample\<close> with its award committed, and
  the calls the engine makes on it.
\<close>

definition ex_action :: action where
  "ex_action = zero_action\<lparr>a_step_kind := TaskStep, a_id := ''x1'', a_goal_id := ''g1'', a_task_id := ''a'',
     a_kind := Assign, a_attempt := 1, a_node_id := ''n1'', a_resources := ex_resources, a_state := Queued,
     a_goal_revision := 1,
     a_input_version := Some \<lparr>iv_goal_revision = 1, iv_record_revision = ''r1'', iv_pr_generations = [(''a'', 0)],
                              iv_target_revision = [], iv_check_round = 0\<rparr>\<rparr>"

definition ex_awarded :: goal where
  "ex_awarded = ex_building\<lparr>g_tasks := [award ex_action ex_a, ex_b]\<rparr>"

definition ex_definition :: saved_definition where
  "ex_definition = \<lparr>sv_definition = goal_definition_of ex_building, sv_revision = ''r1'', sv_text = ''text''\<rparr>"

definition ex_engine :: engine where
  "ex_engine = \<lparr>en_host = ex_host, en_epoch = 7, en_now = 1000,
     en_definitions = (\<lambda>k. if k = (''goal:g1'', ''r1'') then Some ex_definition else None)\<rparr>"

definition ex_record :: "string \<Rightarrow> string \<Rightarrow> body \<Rightarrow> string \<times> body jrecord" where
  "ex_record k i b = (key k i, \<lparr>jr_kind = k, jr_id = i, jr_version = 1, jr_body = b\<rparr>)"

definition ex_view :: "goal \<Rightarrow> action \<Rightarrow> goal_view" where
  "ex_view g a = \<lparr>vw_records = [ex_record ''action'' (a_id a) (ActionBody a), ex_record ''goal'' (g_id g) (GoalBody (stored g)),
                                ex_record ''node'' ''n1'' (NodeBody ex_node)], vw_changes = []\<rparr>"

lemma ex_own: "own_records (vw_records (ex_view ex_awarded ex_action))"
  by code_simp

definition claim_of :: "(goal_error + goal_view \<times> action option) \<Rightarrow> bool" where
  "claim_of r = (case r of Inr (w, Some a) \<Rightarrow> a_state a = Claimed | _ \<Rightarrow> False)"

lemma ex_claim: "claim_of (Claim ex_engine ''x1'' (ex_view ex_awarded ex_action))"
  by code_simp

text \<open>The answers of the calls that follow, computed in the kernel.\<close>

lemma some_answer: "(case r of Inl _ \<Rightarrow> False | Inr w \<Rightarrow> Q w) \<Longrightarrow> r = Inr (projr r) \<and> Q (projr r)"
  by (auto split: sum.splits)

text \<open>A goal whose planning turn was dispatched, the report on it, and the same goal stopped.\<close>

definition ex_plan :: "action_state \<Rightarrow> action" where
  "ex_plan st = zero_action\<lparr>a_id := ''x3'', a_goal_id := ''g3'', a_kind := PlanGoal, a_state := st, a_goal_revision := 1,
     a_revision := ''r1'', a_record_revision := ''r1'',
     a_input_version := Some \<lparr>iv_goal_revision = 1, iv_record_revision = ''r1'', iv_pr_generations = [(''k'', 0)],
                              iv_target_revision = [], iv_check_round = 0\<rparr>\<rparr>"

definition ex_planning :: goal where
  "ex_planning = ex_goal ''g3'' ''p3'' [ex_task ''k'' ''src/k'' []]"

definition ex_definitions :: "goal \<Rightarrow> engine" where
  "ex_definitions g = ex_engine\<lparr>en_definitions := (\<lambda>k. if k = (g_record_id g, g_record_revision g)
     then Some \<lparr>sv_definition = goal_definition_of g, sv_revision = g_record_revision g, sv_text = ''text''\<rparr> else None)\<rparr>"

definition ex_decision :: observation where
  "ex_decision = zero_observation\<lparr>o_status := OutcomeSucceeded, o_decision := ''Ship it?''\<rparr>"

lemma ex_report:
  "case Report (ex_definitions ex_planning) ''x3'' 7 ex_decision (ex_view ex_planning (ex_plan Claimed)) of
     Inl _ \<Rightarrow> False
   | Inr w \<Rightarrow> (case loadAction w ''x3'' of Inl _ \<Rightarrow> False | Inr b \<Rightarrow> a_state b = Finished)"
  by code_simp

lemma ex_late_report:
  "case report (ex_definitions ex_planning) ''x3'' ex_decision (ex_view (ex_planning\<lparr>g_state := GoalStopped\<rparr>) (ex_plan Claimed)) of
     Inl _ \<Rightarrow> False | Inr w \<Rightarrow> True"
  by code_simp

lemma ex_stop:
  "case Command ''g3'' ''p3'' StopGoal 1000 (ex_view ex_planning (ex_plan Queued)) of
     Inl _ \<Rightarrow> False
   | Inr (w, g) \<Rightarrow> (case loadAction w ''x3'' of Inl _ \<Rightarrow> False | Inr b \<Rightarrow> a_goal_id b = ''g3'')"
  by code_simp

definition ex_new_definition :: goal_definition where
  "ex_new_definition = (goal_definition_of ex_planning)\<lparr>df_done := ''It runs twice''\<rparr>"

lemma ex_refresh:
  "case RefreshDefinition (ex_definitions ex_planning) ex_new_definition ''r2'' ex_planning (ex_view ex_planning (ex_plan Queued)) of
     Inl _ \<Rightarrow> False
   | Inr w \<Rightarrow> (case loadAction w ''x3'' of Inl _ \<Rightarrow> False | Inr b \<Rightarrow> a_goal_id b = ''g3'')"
  by code_simp

end
