(* ===== verification/PlanWitnesses.thy ===== *)
theory PlanWitnesses
  imports GoalExample
begin

text \<open>
  The planner's theorems at the goals of theory \<open>GoalExample\<close>: each hypothesis is met there.
\<close>

lemma ex_keyed: "g_id g \<noteq> [] \<Longrightarrow> keyed_state (ex_state g)"
  by (auto simp: keyed_state_def)

lemma ex_ids [simp]:
  "g_id ex_merging = ''g2''" "g_id ex_correcting = ''g3''" "g_id ex_closing = ''g4''"
  by (simp_all add: ex_merging_def ex_correcting_def ex_closing_def ex_closing0_def ex_goal_def)

lemma ex_assign_sel:
  "a_kind ex_assign = Assign" "a_goal_id ex_assign = ''g1''" "a_task_id ex_assign = ''a''"
  "a_node_id ex_assign = ''n1''" "a_state ex_assign = Queued" "a_step_kind ex_assign = TaskStep"
  by (simp_all add: ex_assign_def planned_action_def Let_def zero_action_def)

lemma ex_assign_reserves: "reserves ex_assign"
  by (simp add: reserves_def ex_assign_sel workerAction_def worker_spec_def)

lemma ex_node_id: "n_id ex_node = ''n1''"
  by (simp add: ex_node_def)

theorem Derive_capacity_witness:
  "carried ex_node (pl_actions (plan_of ex_building)) = [ex_assign] \<and>
   memory_of (carried ex_node (st_actions (ex_state ex_building) @ pl_actions (plan_of ex_building)))
     \<le> n_memory_limit_mb ex_node"
proof -
  have c: "carried ex_node (pl_actions (plan_of ex_building)) = [ex_assign]"
    by (simp add: ex_building_plan(2) carried_def ex_assign_reserves ex_assign_sel ex_node_id)
  moreover have "sums_fit (ex_state ex_building) ex_node"
    by (simp add: sums_fit_def carried_def memory_of_def disk_of_def ex_node_def)
  ultimately show ?thesis
    using Derive_capacity [OF ex_building_plan(1) ex_keyed, of ex_node] by simp
qed

theorem Derive_merges_witness:
  "\<exists>g t. open_task ex_host (ex_state ex_merging) g t \<and>
         map a_task_id (filter is_merge (pl_actions (plan_of ex_merging))) = [t_id t]"
proof -
  have k: "keyed_state (ex_state ex_merging)" by (simp add: ex_keyed)
  obtain gts where g: "filter is_merge (pl_actions (plan_of ex_merging)) = map (merge_of ex_host (ex_state ex_merging) 1000) gts"
    "\<forall>(g, t) \<in> set gts. open_task ex_host (ex_state ex_merging) g t"
    using Derive_merges [OF ex_merging_plan [THEN conjunct1] k] by blast
  obtain a where a: "pl_actions (plan_of ex_merging) = [a]" "a_kind a = Merge"
    using ex_merging_plan [THEN conjunct2] by (auto simp: map_eq_Cons_conv)
  with g(1) obtain g t where "gts = [(g, t)]" by (cases gts) (auto simp: is_merge_def)
  with g a show ?thesis
    by (auto simp: is_merge_def merge_of_def planned_action_def Let_def)
qed

theorem Derive_close_witness:
  "\<exists>g. g_id g = ''g4'' \<and> verified ex_host (ex_state ex_closing) g \<and>
       (\<forall>c \<in> set (goalCriteria g). criterionMet ex_host (first_round g) c)"
  by (rule Derive_close [OF ex_closing_plan [THEN conjunct1] ex_keyed])
    (simp_all add: ex_closing_plan [THEN conjunct2])

theorem Derive_run_limit_witness:
  "running_goals (ex_state ex_building) ''p1'' (pl_actions (plan_of ex_building)) = {''g1''} \<and>
   int (card (running_goals (ex_state ex_building) ''p1'' (pl_actions (plan_of ex_building)))) \<le> 7"
proof -
  have "running_goals (ex_state ex_building) ''p1'' (pl_actions (plan_of ex_building)) = {''g1''}"
    by (auto simp: running_goals_def ex_building_plan(2) ex_assign_sel ex_assign_reserves)
  moreover have "running_goals (ex_state ex_building) ''p1'' [] = {}" by (simp add: running_goals_def)
  ultimately show ?thesis
    using Derive_run_limit [OF ex_building_plan(1) ex_keyed, of "''p1''"] ex_limit
    by (simp add: ex_building_plan(3))
qed


theorem Derive_covers_witness:
  "goal_covered (ex_state ex_building) (plan_of ex_building) ''g1''"
proof -
  have "open_goal ex_host (ex_state ex_building) ex_building"
    by (simp add: open_goal_def live_goal_def ex_goals goal_final_def)
  from Derive_covers [OF ex_building_plan(1) this] show ?thesis by simp
qed

end
