(* ===== verification/LedgerWitnesses.thy ===== *)
theory LedgerWitnesses
  imports LedgerExample
begin


lemma ex_view_own: "own_records (vw_records (ex_view ex_planning (ex_plan st)))"
  "own_records (vw_records (ex_view (ex_planning\<lparr>g_state := GoalStopped\<rparr>) (ex_plan st)))"
proof -
  have "own_records (vw_records (ex_view ex_planning (ex_plan Queued)))"
    "own_records (vw_records (ex_view (ex_planning\<lparr>g_state := GoalStopped\<rparr>) (ex_plan Queued)))"
    by code_simp+
  then show "own_records (vw_records (ex_view ex_planning (ex_plan st)))"
    "own_records (vw_records (ex_view (ex_planning\<lparr>g_state := GoalStopped\<rparr>) (ex_plan st)))"
    by (simp_all add: own_records_def sorted_map_def ex_view_def ex_record_def own_record_def ex_plan_def)
qed

theorem Report_again_witness:
  "\<exists>w. Report (ex_definitions ex_planning) ''x3'' 7 ex_decision (ex_view ex_planning (ex_plan Claimed)) = Inr w \<and>
       Report (ex_definitions ex_planning) ''x3'' 7 ex_decision w = Inr w"
proof -
  from ex_report obtain w b where r: "Report (ex_definitions ex_planning) ''x3'' 7 ex_decision (ex_view ex_planning (ex_plan Claimed)) = Inr w"
    and b: "loadAction w ''x3'' = Inr b" "a_state b = Finished"
    by (auto split: sum.splits)
  with Report_again [OF r own_loads(1) [OF ex_view_own(1)] b] show ?thesis by blast
qed

theorem stop_settles_witness:
  "\<exists>w g b. Command ''g3'' ''p3'' StopGoal 1000 (ex_view ex_planning (ex_plan Queued)) = Inr (w, g) \<and>
           loadAction w ''x3'' = Inr b \<and> a_state b \<noteq> NeedsPerson"
proof -
  from ex_stop obtain w g b where c: "Command ''g3'' ''p3'' StopGoal 1000 (ex_view ex_planning (ex_plan Queued)) = Inr (w, g)"
    and b: "loadAction w ''x3'' = Inr b" "a_goal_id b = ''g3''"
    by (auto split: sum.splits)
  with stop_settles [OF c ex_view_own(1) b] show ?thesis by blast
qed



theorem stale_or_stopped_report_witness:
  "\<exists>w g0 g1. report (ex_definitions ex_planning) ''x3'' ex_decision
               (ex_view (ex_planning\<lparr>g_state := GoalStopped\<rparr>) (ex_plan Claimed)) = Inr w \<and>
             loadGoal w ''g3'' = Inr g1 \<and> progress g1 = progress g0 \<and> g_state g0 = GoalStopped"
proof -
  let ?g = "ex_planning\<lparr>g_state := GoalStopped\<rparr>"
  let ?v = "ex_view ?g (ex_plan Claimed)"
  have l: "loadAction ?v ''x3'' = Inr (ex_plan Claimed)" by code_simp
  have i: "a_goal_id (ex_plan Claimed) = ''g3''" by code_simp
  have h: "case load_hydrated (ex_definitions ex_planning) ?v ''g3'' of Inl _ \<Rightarrow> False | Inr g \<Rightarrow> g_state g = GoalStopped"
    by code_simp
  have g0: "case loadGoal ?v ''g3'' of Inl _ \<Rightarrow> False | Inr g \<Rightarrow> g_state g = GoalStopped"
    by code_simp
  from ex_late_report obtain w where w: "report (ex_definitions ex_planning) ''x3'' ex_decision ?v = Inr w"
    by (auto split: sum.splits)
  from h obtain g where g: "load_hydrated (ex_definitions ex_planning) ?v (a_goal_id (ex_plan Claimed)) = Inr g" "g_state g = GoalStopped"
    by (auto simp: i split: sum.splits)
  have "staleInputs (en_host (ex_definitions ex_planning)) g (ex_plan Claimed) \<or> g_state g = GoalStopped"
    using g(2) by simp
  from stale_or_stopped_report [OF w own_loads(2) [OF ex_view_own(2)] l g(1) this] w g0 show ?thesis
    by (auto simp: i split: sum.splits)
qed


section \<open>Awards, evidence and waits\<close>

theorem sequenced_fresh_witness:
  "action_key (sequenced ex_host [ex_action] (ex_action\<lparr>a_id := []\<rparr>)) \<noteq> action_key ex_action"
proof (rule sequenced_fresh)
  show "ex_action \<in> set [ex_action]" by simp
  show "a_sequence ex_action < max_int64" "- (2 ^ 63) \<le> a_sequence ex_action"
    by (simp_all add: ex_action_def zero_action_def max_int64_def)
  show "proper_kind (a_kind (ex_action\<lparr>a_id := []\<rparr>))" "proper_kind (a_kind ex_action)"
    by (simp_all add: proper_kind_def known_kinds_def ex_action_def)
qed


definition ex_event :: transition where
  "ex_event = \<lparr>tr_recorded_at = [], tr_id = ''node.changed:n1'', tr_kind = ''node.changed'', tr_at = 990, tr_data = RawEmpty\<rparr>"

definition ex_admits :: "body db \<Rightarrow> goal_error + unit option \<times> body db" where
  "ex_admits = Update ''now'' ex_event
     (\<lambda>v. bind_result (callback ex_engine (CallNodeChanged ex_node) v) (\<lambda>w. Inr (w, ())))"

lemma ex_admits_node:
  "case ex_admits empty_db of Inl _ \<Rightarrow> False | Inr (r, db) \<Rightarrow> r = Some () \<and> length (db_records db) = 1"
  by code_simp

theorem Update_again_witness:
  "\<exists>db. ex_admits empty_db = Inr (Some (), db) \<and> ex_admits db = Inr (None, db)"
proof -
  from ex_admits_node obtain db where u: "ex_admits empty_db = Inr (Some (), db)"
    by (auto split: sum.splits)
  with Update_again [OF u [unfolded ex_admits_def]] show ?thesis by (auto simp: ex_admits_def)
qed



definition ex_wait :: wait where
  "ex_wait = (plain_wait ''g5'' [] ''person'' ''mail'' 900)\<lparr>w_recorded := True, w_recommendation := ''ask again'',
     w_draft := ''Dear ...''\<rparr>"

definition ex_waiting :: goal where
  "ex_waiting = (ex_goal ''g5'' ''p5'' [])\<lparr>g_waits := [ex_wait]\<rparr>"

definition ex_read :: action where
  "ex_read = readAction ex_host ex_waiting ex_wait ''deadline'' [] 1000"

theorem applyWaitRead_settles_witness:
  "\<exists>g. applyWaitRead ex_waiting ex_read (zero_observation\<lparr>o_source_open := Some True\<rparr>) = Inr g \<and>
       wait_of_read g ''mail'' = None"
proof -
  have r: "case applyWaitRead ex_waiting ex_read (zero_observation\<lparr>o_source_open := Some True\<rparr>) of
          Inl _ \<Rightarrow> False | Inr g \<Rightarrow> True"
    and t: "a_task_id ex_read = waitTaskID ''mail''" "a_read_cause ex_read = ''deadline''"
      "distinct (map w_wake (filter w_recorded (g_waits ex_waiting)))"
    by code_simp+
  from r obtain g where g: "applyWaitRead ex_waiting ex_read (zero_observation\<lparr>o_source_open := Some True\<rparr>) = Inr g"
    by (auto split: sum.splits)
  with applyWaitRead_settles [OF g t] show ?thesis by blast
qed

definition ex_checking :: action where
  "ex_checking = zero_action\<lparr>a_kind := CheckCriterion, a_check := Some (c_check (hd (goalCriteria ex_closing0))),
     a_criterion_id := ''c1'', a_goal_revision := 1, a_check_round := 1, a_revision := ''v1''\<rparr>"

definition ex_checked :: observation where
  "ex_checked = zero_observation\<lparr>o_criterion := Some (ex_evidence ex_closing0 (hd (goalCriteria ex_closing0)))\<rparr>"

theorem succeed_check_honest_witness:
  "\<exists>g x e. succeed_check ex_host ex_closing0 None ex_checking ex_checked = Inr g \<and> x \<in> set (g_checks g) \<and>
           o_criterion ex_checked = Some e \<and> currentEvidence ex_host ex_closing0 (hd (goalCriteria ex_closing0)) e"
proof -
  have s: "case succeed_check ex_host ex_closing0 None ex_checking ex_checked of
             Inl _ \<Rightarrow> False | Inr g \<Rightarrow> g_checks g \<noteq> []"
    and n: "g_checks ex_closing0 = []"
    and c: "currentEvidence ex_host ex_closing0 (hd (goalCriteria ex_closing0))
              (ex_evidence ex_closing0 (hd (goalCriteria ex_closing0)))"
    by code_simp+
  from s obtain g where g: "succeed_check ex_host ex_closing0 None ex_checking ex_checked = Inr g"
    and "g_checks g \<noteq> []"
    by (auto split: sum.splits)
  then have x: "hd (g_checks g) \<in> set (g_checks g)" by simp
  from succeed_check_honest [OF g x] n g x c show ?thesis by (auto simp: ex_checked_def)
qed

definition ex_quota_node :: node where
  "ex_quota_node = ex_node\<lparr>n_quota_reset := [(''codex'', 2000)], n_observed_at := 980\<rparr>"


definition ex_driver :: driver where
  "ex_driver = \<lparr>dr_authorize = (\<lambda>_. Answered zero_observation), dr_execute = (\<lambda>_. Answered zero_observation),
     dr_observe = (\<lambda>_. DriverFailed)\<rparr>"


end
