(* ===== verification/Spec2Isabelle.thy ===== *)
theory Spec2Isabelle
  imports GoFloat GoJson GoalTypes GoalKinds GoalCriteria GoalGraph GoalSlots GoalWaits GoalDerive GoalMoves
    GoalPlan GoalPlacement Journal GoalStore GoalRevise GoalEngine GoalReconcile GoalSafety GoalRefresh GoalLedger
    GoalCommands GoalFence GoalExample LedgerExample PlanWitnesses LedgerWitnesses
begin

text \<open>
  LINA Core: the durable work engine (src/internal/core/work/goal).

  The engine keeps goals, the tasks of their step graphs, host reports, actions and run limits
  as records of a journal in the canonical database. Every change is one journal transaction:
  a callback reads and writes a view of the records, and the event is stored with the records
  it changed. A planning pass (Derive) projects the committed records to the actions to start;
  Reconcile stores them, Claim takes one for dispatch, the driver performs it, and Report
  settles it. Persons, integrations, changed definitions and evidence that is read again reach
  the same records through their own transactions.

  Conventions. Strings are lists of bytes. An int64 is an int with \<open>wrap64\<close> written at each
  sum that may overflow, a float64 is the rational model of theory GoFloat with Go's rounding.
  Go maps are sorted association lists (\<open>mget\<close>, \<open>mput\<close>), times are Unix seconds. Errors are
  \<open>goal_error + 'a\<close>. A stored receipt is the observation it encodes. Pointers into the task
  list of a goal are \<open>modify_task\<close>. Fields with the tag json:"-" are dropped by \<open>stored\<close> and
  restored by \<open>hydrate\<close>. The code's open map iterations are over sorted keys or shown to be
  independent of the order.

  Parameters. \<open>host\<close> holds what is not translated: the SHA-256 of an identity, the overlap
  test of two areas (internal/core/work), the area grammar and the step-name test. \<open>engine\<close>
  holds the host, the epoch, the instant and the parsed definitions. The driver, the evidence
  reader and the prose check are arguments of the definitions that call them.

  The theories, in the order of the code:
    Prelude, GoFloat, GoJson - the Go standard library as far as the source uses it;
    GoalTypes - the records and constants of next.go, criteria.go, step\_kinds.go,
      step\_graph.go, run\_limit.go, evidence.go, input\_version.go and engine.go;
    GoalKinds - kinds.go, step\_kinds.go, deployment.go, the award and its refund;
    GoalCriteria - criteria.go, evidence.go, input\_version.go: criteria, evidence, stale inputs;
    GoalGraph - the graph checks of next.go and step\_graph.go, correction.go sameTaskDefinition;
    GoalSlots - Slots (next.go) and run\_limit.go;
    GoalWaits - waits.go: recorded waits, their one read, the tests on a plan;
    GoalDerive - Derive (next.go), one definition per phase of the pass;
    Journal - journal.go: view, Update, Committed, Rebuild, with the locale record\_view of what
      clients rely on, interpreted on the view;
    GoalStore - the typed records, hydrate and the definition identities (definition.go);
    GoalRevise - correction.go, revisions.go, retire.go, research.go, sessions.go;
    GoalEngine - Claim, Report, awaitAuthorization and CanContinue (engine.go);
    GoalReconcile - Reconcile, Admit, NodeChanged (engine.go), command.go, run\_limit.go
      SetRunLimit, signals.go, waits.go applyWaitSignal, step\_graph.go SubmitStepGraph;
    GoalRefresh - definition.go Revise and RefreshDefinitions, evidence\_refresh.go, the wait
      marks of waits.go and the dispatch of one action (engine.go step).

  The proofs:
    GoalMoves, GoalPlan, GoalPlacement - the planner. GoalMoves states the abstract moves a
      pass may make and that Derive makes no others; GoalPlan and GoalPlacement carry
      invariants along the moves: merges, capacity, run limits, areas, closing, coverage;
    GoalSafety - claims, reports, refunds and late reports;
    GoalLedger - all callbacks as puts of typed records, the step relation of the journal and
      the invariant of its reachable states;
    GoalCommands, GoalFence - effect keys, evidence, quotas, ranks, the stop, the definition
      fence and the dispatch;
    GoalExample, LedgerExample, PlanWitnesses, LedgerWitnesses - concrete goals and a concrete
      journal at which the hypotheses of the theorems hold;
    this theory - the theorems that combine several components, and their witnesses.

  Fuel. The graph searches take the number of steps plus one, enough because each nested visit
  opens a step that was not open (\<open>visit_all_iff\<close>, \<open>step_depth_ok\<close>, \<open>depends_top\<close>). The
  correction loop takes the number of tasks plus one, enough because each repeated pass adds a
  task (\<open>correctedTaskChanges_stops\<close>). The repair chain is bounded by the code itself.

  Not modelled: the SQL and JSON layers below the journal (a body is the value it encodes),
  host sampling (host.go), the person-facing lines (person.go), the parsing and publication of
  definition files (definition.go parseDefinition, definitionBytes, prepareDefinition, which is
  an argument of Admit), GoalSentences, Summary, the goroutine and channel plumbing of Run and
  of reconcile.go, and the rest of the repository: its transports, terminal interface,
  importers, workers and stores.
\<close>

section \<open>The planner\<close>

text \<open>
  C2: Every worker action of a plan belongs to an open task of a live goal and its kind matches
  the task's stage: an assignment needs every dependency landed, a conflict repair an unspent
  allowance, a continuation a missing receipt, a recovery settled effects and an unspent
  allowance.
\<close>

theorem Derive_worker:
  assumes "Derive h s now = Inr p" and "keyed_state s" and "a \<in> set (pl_actions p)" and "workerAction (a_kind a)"
  shows "\<exists>g t. open_task h s g t \<and> a_goal_id a = g_id g \<and> a_task_id a = t_id t \<and>
           (a_kind a = Assign \<and> t_stage t = TaskReady \<and>
              (\<forall>d \<in> set (t_depends_on t). \<exists>u. goalTask g d = Some u \<and> stepLanded u) \<or>
            a_kind a = RepairConflict \<and> t_stage t = TaskConflicted \<and> t_conflicts t < 1 \<or>
            a_kind a = ContinueWorker \<and> t_stage t = TaskNoReceipt \<or>
            a_kind a = Resume \<and> t_stage t = TaskWorkerLost \<and> t_effects_settled t \<and> t_recoveries t < 1)"
  using explained_worker [OF Derive_explained [OF assms(1-3)] assms(4)]
  by (auto simp: worker_ready_def deps_landed_iff)

text \<open>
  C4: Deployment, verification and criterion checks are planned only for a goal whose tasks are
  all done; verification and checks need the deployment proved, checks the verification proved, at
  the goal's current target revision.
\<close>

theorem Derive_lifecycle:
  assumes "Derive h s now = Inr p" and "keyed_state s" and "a \<in> set (pl_actions p)"
    and "a_kind a \<in> {Deploy, Verify, CheckCriterion}"
  shows "\<exists>g. all_landed h s g \<and> a_goal_id a = g_id g \<and> (a_kind a \<noteq> Deploy \<longrightarrow> deployed g) \<and>
             (a_kind a = CheckCriterion \<longrightarrow> proves (g_verification g) (g_target_revision g))"
  using explained_lifecycle [OF Derive_explained [OF assms(1-3)] assms(4)] .


text \<open>
  C10: The pass refines an abstract transition relation: the plan Derive computes is reached from
  the scanned state by a sequence of the allowed planning moves.
\<close>

theorem Derive_moves:
  assumes "Derive h s now = Inr p" and "keyed_state s"
  shows "\<exists>ps0 ps. scanned h s now ps0 \<and> pass_moves h s now ps0 ps \<and> p = ps_plan ps"
  using Derive_cases [OF assms] by blast

section \<open>The ledger\<close>

text \<open>
  C11: From an empty journal, any sequence of engine calls leaves a ledger in which each record
  carries its own key and from which Rebuild restores exactly the stored projections.
\<close>

theorem reachable_ledger:
  assumes "reachable db"
  shows "Rebuild (\<lambda>_. True) db = Inr db \<and> own_records (db_records db)"
  using reachable_ok [OF assms] by (simp add: ledger_ok_def Rebuild_restores)

text \<open>
  C12: Every snapshot read from a reachable ledger is well formed: goal, node and action
  identities are unique and no goal identity is empty, which is what the planner's theorems
  assume.
\<close>

theorem reachable_snapshot:
  assumes "reachable db" and "hydrated_snapshot e (readView db) = Inr s"
  shows "keyed_state s \<and> distinct (map a_id (st_actions s))"
  using hydrated_keyed [OF assms(2)] reachable_ok [OF assms(1)] by (simp add: ledger_ok_def readView_def)

section \<open>Step graphs\<close>

text \<open>
  C22: The colouring search that admits a goal accepts exactly the goals whose step graph has
  unique steps, known unrepeated dependencies and no cycle, beside the field checks.
\<close>

theorem validateGoal_graph:
  "validateGoalState g p \<longleftrightarrow>
     validCriteria g p \<and> g_id g \<noteq> [] \<and> g_person g \<noteq> [] \<and> g_agent g \<noteq> [] \<and>
     \<not> blank (g_done g) \<and> (g_service_target g = []) \<noteq> (g_no_service_reason g = []) \<and>
     (g_definition_pending g \<or> validServiceRepository g) \<and> list_all validStepWork (g_tasks g) \<and>
     distinct (map t_id (g_tasks g)) \<and> graph_ok (task_deps (g_tasks g))"
  using visit_all_iff [OF dom_task_deps, of "g_tasks g" "Suc (length (g_tasks g))"]
  by (auto simp: validateGoalState_def)

text \<open>
  C23: An accepted step graph has unique steps and no cycle, any two steps that could touch the
  same area are ordered by dependencies, and the proposed goal passes admission.
\<close>

theorem submitted_graph:
  assumes "validateSteps h g steps = None"
  shows "distinct (map s_id steps) \<and> graph_ok (step_deps steps) \<and>
         sorted_wrt (\<lambda>a b. ordered_steps steps a b \<or> separate_steps h a b) steps \<and>
         validateGoal (proposed_goal g steps)"
  using validateSteps_facts [OF assms] by simp

lemma goal_graph:
  assumes "validateGoalState g p"
  shows "finite (dom (task_deps (g_tasks g)))" "closed_graph (task_deps (g_tasks g))"
    "acyclic (edges (task_deps (g_tasks g)))" "card (dom (task_deps (g_tasks g))) \<le> length (g_tasks g)"
  using validateGoalState_graph [OF assms] card_length [of "map t_id (g_tasks g)"]
  by (auto simp: dom_task_deps graph_ok_def closed_graph_def)

text \<open>
  C24: The memoised depth that orders candidates is the length of the longest dependency chain
  below the step.
\<close>

theorem step_depth_longest:
  assumes "validateGoalState g p" and "t \<in> set (g_tasks g)"
  shows "is_depth (task_deps (g_tasks g)) (t_id t)
           (fst (step_depth (Suc (length (g_tasks g))) (task_deps (g_tasks g)) (t_id t) Map.empty))"
proof -
  let ?g = "task_deps (g_tasks g)"
  obtain r m where d: "step_depth (Suc (length (g_tasks g))) ?g (t_id t) Map.empty = (r, m)" by force
  have "t_id t \<in> dom ?g" using assms(2) by (auto simp: dom_task_deps)
  with step_depth_ok [OF goal_graph(1-3) [OF assms(1)], of "t_id t" "{}" "Suc (length (g_tasks g))" Map.empty r m]
    goal_graph(4) [OF assms(1)] d show ?thesis
    by (simp add: depths_ok_def)
qed

text \<open>
  C25: The memoised reachability search of the submission check answers whether a dependency path
  leads from one step to the other.
\<close>

theorem depends_path:
  assumes "validateSteps h g steps = None" and "v \<in> s_id ` set steps"
  shows "fst (depends (Suc (length steps)) (step_deps steps) anc v Map.empty) \<longleftrightarrow>
         (v, anc) \<in> (edges (step_deps steps))\<^sup>+"
proof -
  let ?g = "step_deps steps"
  have d: "dom ?g = set (map s_id steps)" by (rule dom_step_deps)
  have ok: "graph_ok ?g" using validateSteps_facts [OF assms(1)] by simp
  have "card (dom ?g) \<le> length steps" using card_length [of "map s_id steps"] by (simp add: d)
  then show ?thesis
    using depends_top [of ?g v "Suc (length steps)" Map.empty anc] ok assms(2)
    by (simp add: d graph_ok_def closed_graph_def memo_true_def)
qed

lemma fold_change_closed:
  "\<lbrakk>\<forall>t \<in> set ts. invalidated changed t \<longrightarrow> t_id t \<in> set changed\<rbrakk> \<Longrightarrow>
     fold change_step ts (changed, False) = (changed, False)"
  by (induction ts) (auto simp: change_step_def)

text \<open>
  C21: The changed tasks of a correction are exactly the tasks that reach a changed or removed one
  along dependencies and repairs, in the old or the new graph.
\<close>

theorem correctedTaskChanges_closure:
  "i \<in> set (correctedTaskChanges old new) \<longleftrightarrow>
     depends_on_change (old @ new) (set (first_changes old new)) i"
  by (simp add: changed_set)

text \<open>
  C38: The fuel of the correction loop is enough: a further pass over the tasks finds nothing to
  add.
\<close>

theorem correctedTaskChanges_stops:
  "change_pass (old @ new) (correctedTaskChanges old new) = (correctedTaskChanges old new, False)"
proof -
  let ?c = "correctedTaskChanges old new"
  note c = changed_set [of old new]
  have "\<forall>t \<in> set (old @ new). invalidated ?c t \<longrightarrow> t_id t \<in> set ?c"
    unfolding c by (auto simp: invalidated_def list_ex_iff c
        intro: depends_on_change.dep depends_on_change.repair)
  then show ?thesis by (simp only: change_pass_step fold_change_closed)
qed

section \<open>Claims, evidence and commands\<close>

text \<open>
  C26: A worker action is claimed only if, with the latest report of its host, its memory and disk
  fit beside every other reservation there.
\<close>

theorem Claim_fits:
  assumes "Claim e i v = Inr (w, Some a)" and "loadAction v i = Inr q" and "reserves q"
    and "a_observe_action_id q = []" and "snapshotView v = Inr s"
    and "\<forall>n \<in> set (st_nodes s). sums_fit (s\<lparr>st_actions := filter (\<lambda>b. a_id b \<noteq> a_id q) (st_actions s)\<rparr>) n"
  shows "\<exists>n \<in> set (st_nodes s). n_id n = a_node_id q \<and>
           memory_of (carried n (filter (\<lambda>b. a_id b \<noteq> a_id q) (st_actions s))) + r_memory_mb (a_resources q)
             \<le> n_memory_limit_mb n \<and>
           disk_of (carried n (filter (\<lambda>b. a_id b \<noteq> a_id q) (st_actions s))) + r_disk_mb (a_resources q)
             \<le> n_disk_limit_mb n"
  using assms(1)
proof (rule Claim_cases)
  fix q' g
  assume q': "loadAction v i = Inr q'" and c: "(Some a = Some (claim_action e g q') \<and>
        put_body ''action'' i (ActionBody (claim_action e g q')) v = Inr w \<and>
        (reserves q' \<and> a_observe_action_id q' = [] \<longrightarrow>
           (\<exists>s t. snapshotView v = Inr s \<and> goalTask g (a_task_id q') = Some t \<and> claim_eligible s g t q' (en_now e)))) \<or>
     (Some a = None \<and> reserves q' \<and> a_observe_action_id q' = [] \<and>
        (\<exists>u. put_action (finish q') v = Inr u \<and> put_goal (restoreUndispatchedTask q' g) u = Inr w))"
  then have "q' = q" using assms(2) by simp
  with c assms(3-5) obtain t where "claim_eligible s g t q (en_now e)" by auto
  then obtain n where n: "n \<in> set (st_nodes s)" "n_id n = a_node_id q"
    "0 < Slots n (filter (\<lambda>b. a_id b \<noteq> a_id q) (st_actions s)) (a_resources q) (en_now e)"
    by (auto simp: claim_eligible_def list_ex_iff)
  with Slots_fits [OF n(3)] assms(6) show ?thesis by (auto simp: sums_fit_def)
qed

lemma scheduleEvidence_cases:
  "scheduleEvidence alive refresh g m = (ok, started, m') \<Longrightarrow>
     m' = m \<or> \<not> ok \<and> m' = m(g_id g \<mapsto> \<lparr>fl_token = evidenceToken g, fl_running = True, fl_current = False\<rparr>)"
  by (auto simp: scheduleEvidence_def Let_def split: if_splits option.splits)

lemma closing_fold:
  assumes "fold (closing_goal alive) gs (t0, m) = (t1, m1)" and "map_of t1 i = Some tok"
  shows "map_of t0 i = Some tok \<or>
         (\<exists>fl. m i = Some fl \<and> \<not> fl_running fl \<and> fl_current fl \<and> fl_token fl = tok)"
  using assms
proof (induction gs arbitrary: t0 m)
  case (Cons g gs)
  obtain ok started m2 where sch: "scheduleEvidence alive False g m = (ok, started, m2)"
    by (cases "scheduleEvidence alive False g m") auto
  define t2 where "t2 = (if ok then mput (g_id g) (evidenceToken g) t0 else t0)"
  have "closing_goal alive g (t0, m) = (t2, m2)"
    using sch by (simp add: closing_goal_def t2_def)
  then have f: "fold (closing_goal alive) gs (t2, m2) = (t1, m1)"
    using Cons.prems(1) by simp
  from Cons.IH [OF f Cons.prems(2)]
  consider "map_of t2 i = Some tok" | fl where "m2 i = Some fl" "\<not> fl_running fl" "fl_current fl" "fl_token fl = tok"
    by auto
  then show ?case
  proof cases
    case 1
    show ?thesis
    proof (cases "ok \<and> i = g_id g")
      case True
      with 1 have "tok = evidenceToken g" by (simp add: t2_def go_map)
      with True sch scheduleEvidence_true [of alive False g m started m2] show ?thesis by auto
    next
      case False
      with 1 show ?thesis by (auto simp: t2_def go_map split: if_splits)
    qed
  next
    case 2
    with scheduleEvidence_cases [OF sch] show ?thesis by (auto split: if_splits)
  qed
qed simp

text \<open>
  C36: With an evidence reader installed, a goal becomes done only if a finished reading confirmed
  its present evidence, at its present revision and round.
\<close>

theorem closing_gate:
  assumes "closingEvidence e alive m v = Inr (tokens, m')"
    and "g_state (project_state h p (Some (map_of tokens)) as g) = GoalDone" and "g_state g \<noteq> GoalDone"
  shows "\<exists>fl. m (g_id g) = Some fl \<and> \<not> fl_running fl \<and> fl_current fl \<and> fl_token fl = evidenceToken g"
proof -
  from assms(1) obtain gs where f: "fold (closing_goal alive) gs ([], m) = (tokens, m')"
    by (auto simp: closingEvidence_def bind_result_eq_Inr)
  have "map_of tokens (g_id g) = Some (evidenceToken g)"
    using project_state_done [OF assms(2,3)] by simp
  from closing_fold [OF f this] show ?thesis by simp
qed

text \<open>
  C39: A claimed success of a merge, QA run, deployment or verification without a proof of the
  required revision is refused as invalid.
\<close>

theorem applySuccess_unproved:
  assumes "a_kind a \<in> {Merge, RunQA, Deploy, Verify}"
    and "\<not> proves (o_proof ob) (if a_kind a = Merge then p_revision (o_proof ob) else a_revision a)"
  shows "applySuccess h now g t a ob = Inl ErrInvalid"
  using assms
  by (auto simp: applySuccess_def succeed_merge_def succeed_qa_def split: option.splits)

text \<open>
  C40: An accepted run limit is automatic or between 1 and 1024, and is stored as the person's
  choice.
\<close>

theorem SetRunLimit_bounds:
  assumes "SetRunLimit person l v = Inr (w, r)"
  shows "person \<noteq> [] \<and> 0 \<le> rl_value l \<and> rl_value l \<le> 1024 \<and> (rl_automatic l \<longleftrightarrow> rl_value l = 0) \<and>
         lr_choice r = l \<and> get_body w ''limit'' person = Some (LimitBody r)"
  using assms
  by (auto simp: SetRunLimit_def Let_def put_limit_def bind_result_eq_Inr max_run_limit_def
      split: if_splits option.splits)


lemma check_wakes_iff:
  "check_wakes ws seen \<longleftrightarrow>
     list_all validRecordedWait ws \<and> distinct (map w_wake ws) \<and> w_wake ` set ws \<inter> set seen = {}"
  by (induction ws seen rule: check_wakes.induct) auto

text \<open>
  C32: A plan may record waits exactly when all of them are valid and every wake identity is new
  to the goal and used once; otherwise it is refused as invalid.
\<close>

theorem plannedWaits_unique:
  "plannedWaits g ob =
     (let ws = o_waits ob @ (case o_wait ob of None \<Rightarrow> [] | Some w \<Rightarrow> [w])
      in if list_all validRecordedWait ws \<and> distinct (map w_wake ws) \<and>
            w_wake ` set ws \<inter> w_wake ` {w \<in> set (g_waits g). w_recorded w} = {}
         then Inr ws else Inl ErrInvalid)"
  by (simp add: plannedWaits_def check_wakes_iff)

section \<open>Witnesses\<close>

theorem Derive_worker_witness:
  "\<exists>g t. open_task ex_host (ex_state ex_building) g t \<and> t_id t = ''a'' \<and> t_stage t = TaskReady"
proof -
  have "ex_assign \<in> set (pl_actions (plan_of ex_building))" "workerAction (a_kind ex_assign)"
    by (simp_all add: ex_building_plan(2) ex_assign_sel workerAction_def worker_spec_def)
  then obtain g t where "open_task ex_host (ex_state ex_building) g t" "a_task_id ex_assign = t_id t"
    "t_stage t = TaskReady"
    using Derive_worker [OF ex_building_plan(1) ex_keyed, of ex_assign] ex_assign_sel(1) by auto
  then show ?thesis by (metis ex_assign_sel(3))
qed

lemma ex_checking_plan:
  "Derive ex_host (ex_state ex_closing0) 1000 = Inr (plan_of ex_closing0) \<and>
   map (\<lambda>a. (a_goal_id a, a_kind a)) (pl_actions (plan_of ex_closing0)) = [(''g4'', CheckCriterion)]"
  by (rule plan_ofI) code_simp

theorem Derive_lifecycle_witness:
  "\<exists>g. all_landed ex_host (ex_state ex_closing0) g \<and> proves (g_verification g) (g_target_revision g)"
proof -
  have k: "keyed_state (ex_state ex_closing0)" by (rule ex_keyed) (simp add: ex_closing0_def ex_goal_def)
  obtain a where "pl_actions (plan_of ex_closing0) = [a]" and a: "a_kind a = CheckCriterion"
    using ex_checking_plan by (auto simp: map_eq_Cons_conv)
  then have "a \<in> set (pl_actions (plan_of ex_closing0))" "a_kind a \<in> {Deploy, Verify, CheckCriterion}" by simp_all
  from Derive_lifecycle [OF ex_checking_plan [THEN conjunct1] k this] a show ?thesis by auto
qed


theorem Derive_moves_witness:
  "\<exists>ps0 ps. pass_moves ex_host (ex_state ex_merging) 1000 ps0 ps \<and> plan_of ex_merging = ps_plan ps"
proof -
  have "keyed_state (ex_state ex_merging)" by (simp add: ex_keyed)
  from Derive_moves [OF ex_merging_plan [THEN conjunct1] this] show ?thesis by blast
qed

theorem reachable_ledger_witness:
  "\<exists>db :: body db. length (db_records db) = 1 \<and> Rebuild (\<lambda>_. True) db = Inr db"
proof -
  from ex_admits_node obtain db where u: "ex_admits empty_db = Inr (Some (), db)" and l: "length (db_records db) = 1"
    by (auto split: sum.splits)
  have "reachable db" using engine_step.commit [OF u [unfolded ex_admits_def]] by blast
  from reachable_ledger [OF this] l show ?thesis by (intro exI [of _ db]) simp
qed

theorem reachable_snapshot_witness:
  "\<exists>db s. hydrated_snapshot ex_engine (readView db) = Inr s \<and> length (st_nodes s) = 1 \<and> keyed_state s"
proof -
  have e: "case ex_admits empty_db of Inl _ \<Rightarrow> False
           | Inr (r, db) \<Rightarrow> r = Some () \<and>
               (case hydrated_snapshot ex_engine (readView db) of Inl _ \<Rightarrow> False | Inr s \<Rightarrow> length (st_nodes s) = 1)"
    by code_simp
  from e obtain db where u: "ex_admits empty_db = Inr (Some (), db)"
    and h: "case hydrated_snapshot ex_engine (readView db) of Inl _ \<Rightarrow> False | Inr s \<Rightarrow> length (st_nodes s) = 1"
    by (cases "ex_admits empty_db") auto
  from h obtain s where s: "hydrated_snapshot ex_engine (readView db) = Inr s" "length (st_nodes s) = 1"
    by (cases "hydrated_snapshot ex_engine (readView db)") auto
  have "reachable db" using engine_step.commit [OF u [unfolded ex_admits_def]] by blast
  from reachable_snapshot [OF this s(1)] s show ?thesis by blast
qed

definition ex_step :: "string \<Rightarrow> string \<Rightarrow> string list \<Rightarrow> step" where
  "ex_step i area deps =
     \<lparr>s_kind = TaskStep, s_background = None, s_wait = None, s_id = i, s_name = ''name'', s_done = ''works'',
      s_repository = ''repo'', s_base = ''main'', s_area = area, s_worker = ''codex'', s_resources = ex_resources,
      s_depends_on = deps\<rparr>"

abbreviation ex_steps :: "step list" where
  "ex_steps \<equiv> [ex_step ''a'' ''src/a'' [], ex_step ''b'' ''src/a'' [''a'']]"

lemma ex_steps_valid: "validateSteps ex_host ex_planning ex_steps = None"
  by code_simp

theorem submitted_graph_witness:
  "acyclic (edges (step_deps ex_steps)) \<and> validateGoal (proposed_goal ex_planning ex_steps)"
  using submitted_graph [OF ex_steps_valid] by (simp add: graph_ok_def)

theorem step_depth_longest_witness:
  "is_depth (task_deps (g_tasks ex_building)) ''b''
     (fst (step_depth (Suc (length (g_tasks ex_building))) (task_deps (g_tasks ex_building)) ''b'' Map.empty))"
proof -
  have "validateGoalState ex_building False" by code_simp
  from step_depth_longest [OF this, of ex_b] show ?thesis by simp
qed

theorem depends_path_witness:
  "(''b'', ''a'') \<in> (edges (step_deps ex_steps))\<^sup>+"
proof -
  have "fst (depends (Suc (length ex_steps)) (step_deps ex_steps) ''a'' ''b'' Map.empty)" by code_simp
  then show ?thesis using depends_path [OF ex_steps_valid, of "''b''" "''a''"] by (simp add: ex_step_def)
qed

theorem Claim_fits_witness:
  "claim_of (Claim ex_engine ''x1'' (ex_view ex_awarded ex_action)) \<and>
   r_memory_mb (a_resources ex_action) \<le> n_memory_limit_mb ex_node"
proof -
  let ?v = "ex_view ex_awarded ex_action"
  from ex_claim obtain w a where c: "Claim ex_engine ''x1'' ?v = Inr (w, Some a)"
    by (auto simp: claim_of_def split: sum.splits prod.splits option.splits)
  have l: "loadAction ?v ''x1'' = Inr ex_action"
    and r: "reserves ex_action" "a_observe_action_id ex_action = []" "a_node_id ex_action = ''n1''"
      "r_memory_mb (a_resources ex_action) = 1024"
    by code_simp+
  have s: "case snapshotView ?v of Inl _ \<Rightarrow> False
           | Inr s \<Rightarrow> st_nodes s = [ex_node] \<and> filter (\<lambda>b. a_id b \<noteq> a_id ex_action) (st_actions s) = []"
    by code_simp
  then obtain s where s: "snapshotView ?v = Inr s" "st_nodes s = [ex_node]"
    "filter (\<lambda>b. a_id b \<noteq> a_id ex_action) (st_actions s) = []"
    by (auto split: sum.splits)
  have "\<forall>n \<in> set (st_nodes s). sums_fit (s\<lparr>st_actions := filter (\<lambda>b. a_id b \<noteq> a_id ex_action) (st_actions s)\<rparr>) n"
    by (simp add: s sums_fit_def carried_def memory_of_def disk_of_def ex_node_def)
  from Claim_fits [OF c l r(1,2) s(1) this] ex_claim show ?thesis
    by (simp add: s carried_def memory_of_def)
qed

theorem applySuccess_unproved_witness:
  "applySuccess ex_host 1000 ex_closing0 None (zero_action\<lparr>a_kind := Verify, a_revision := ''v1''\<rparr>) zero_observation
     = Inl ErrInvalid"
  by (rule applySuccess_unproved) (simp_all add: zero_action_def zero_observation_def proves_def no_proof_def)

theorem SetRunLimit_bounds_witness:
  "\<exists>w r. SetRunLimit ''p1'' \<lparr>rl_automatic = False, rl_value = 4\<rparr> \<lparr>vw_records = [], vw_changes = []\<rparr> = Inr (w, r) \<and>
         get_body w ''limit'' ''p1'' = Some (LimitBody r) \<and> rl_value (lr_choice r) = 4"
proof -
  have "case SetRunLimit ''p1'' \<lparr>rl_automatic = False, rl_value = 4\<rparr> \<lparr>vw_records = [], vw_changes = []\<rparr> of
          Inl _ \<Rightarrow> False | Inr (w, r) \<Rightarrow> True"
    by code_simp
  then obtain w r where l: "SetRunLimit ''p1'' \<lparr>rl_automatic = False, rl_value = 4\<rparr> \<lparr>vw_records = [], vw_changes = []\<rparr> = Inr (w, r)"
    by (auto split: sum.splits)
  from SetRunLimit_bounds [OF l] l show ?thesis by auto
qed


definition ex_flights :: flights where
  "ex_flights = (\<lambda>i. if i = ''g4'' then Some \<lparr>fl_token = evidenceToken ex_closing, fl_running = False, fl_current = True\<rparr>
                     else None)"

definition ex_quiet :: "goal \<Rightarrow> goal_view" where
  "ex_quiet g = \<lparr>vw_records = [ex_record ''goal'' (g_id g) (GoalBody (stored g)), ex_record ''node'' ''n1'' (NodeBody ex_node)],
                vw_changes = []\<rparr>"

theorem closing_gate_witness:
  "\<exists>tokens m. closingEvidence (ex_definitions ex_closing) True ex_flights (ex_quiet ex_closing) = Inr (tokens, m) \<and>
     g_state (project_state ex_host (plan_of ex_closing) (Some (map_of tokens)) [] ex_closing) = GoalDone \<and>
     (\<exists>fl. ex_flights ''g4'' = Some fl \<and> fl_token fl = evidenceToken ex_closing)"
proof -
  have c: "case closingEvidence (ex_definitions ex_closing) True ex_flights (ex_quiet ex_closing) of
             Inl _ \<Rightarrow> False | Inr (tokens, m) \<Rightarrow> map_of tokens ''g4'' = Some (evidenceToken ex_closing)"
    by code_simp
  have n: "g_state ex_closing \<noteq> GoalDone" "\<not> quarantined ex_closing" by code_simp+
  from c obtain tokens m where t: "closingEvidence (ex_definitions ex_closing) True ex_flights (ex_quiet ex_closing) = Inr (tokens, m)"
    "map_of tokens ''g4'' = Some (evidenceToken ex_closing)"
    by (cases "closingEvidence (ex_definitions ex_closing) True ex_flights (ex_quiet ex_closing)") auto
  then have d: "g_state (project_state ex_host (plan_of ex_closing) (Some (map_of tokens)) [] ex_closing) = GoalDone"
    using n(2) by (simp add: project_state_def Let_def ex_closing_plan [THEN conjunct2])
  from closing_gate [OF t(1) d n(1)] t d show ?thesis by auto
qed

end
